theory Spec2Isabelle
  imports Complex_Main "HOL-Library.Sublist" "HOL-Library.Multiset"
    "HOL-Library.List_Lexorder" "HOL-Library.Char_ord" "HOL-Library.Product_Lexorder"
begin

section \<open>Driver assignment: the data model\<close>

text \<open>
  The repository assigns rides to drivers (\<^verbatim>\<open>assignDriversToRides.js\<close>) and resolves
  driving distances through an external routing service (\<^verbatim>\<open>utils.js\<close>).

  Representation choices, each stated where it is used:
  \<^item> JavaScript numbers are real numbers; the one non-number that the code can produce from
    well-formed inputs, \<^verbatim>\<open>NaN\<close>, is a value of its own in \<open>jsnum\<close>. The rounding of
    floating point is modelled in the two places where whole minutes are taken from the
    result of an operation, or compared with it: lines 88-89 and 200-204 (section
    \<open>Double-precision arithmetic\<close>). Distances, costs and the total cost, with its
    rounding to cents in line 170, are real numbers.
  \<^item> A clock string \<^verbatim>\<open>"HH:MM"\<close> is the pair of numbers that
    \<^verbatim>\<open>split(':').map(Number)\<close> reads from it. The strings that the code itself formats
    (\<^verbatim>\<open>addMinutesToTime\<close>) are read back field by field, so the pair is exact for them.
  \<^item> An optional field of a JSON record is an \<open>option\<close>.
\<close>

datatype jsnum = Num real | NaN

type_synonym coords = "real \<times> real"

record clock =
  hours :: int
  mins :: int

record driver =
  driverId :: string
  city :: string
  city_coords :: coords
  numberOfSeats :: int
  fuelCost :: real
  shiftStart :: "clock option"
  shiftEnd :: "clock option"
  maxDailyWorkHours :: "real option"
  blockedAddresses :: "string list option"

text \<open>A ride; \<open>ride_id\<close> is the field \<^verbatim>\<open>_id\<close> and \<open>seatsRequired\<close> the ride's
  \<^verbatim>\<open>numberOfSeats\<close>.\<close>

record ride =
  ride_id :: string
  date :: string
  startTime :: clock
  endTime :: clock
  startPoint :: string
  startPoint_coords :: coords
  endPoint :: string
  endPoint_coords :: coords
  seatsRequired :: int

section \<open>Arithmetic of JavaScript numbers\<close>

text \<open>\<^verbatim>\<open>x / k\<close> and \<^verbatim>\<open>x * k\<close> for a number \<open>k\<close>, and \<^verbatim>\<open>x + y\<close>: \<^verbatim>\<open>NaN\<close> propagates.\<close>

fun jsDivide :: "jsnum \<Rightarrow> real \<Rightarrow> jsnum" where
  "jsDivide (Num a) k = Num (a / k)"
| "jsDivide NaN k = NaN"

fun jsTimes :: "jsnum \<Rightarrow> real \<Rightarrow> jsnum" where
  "jsTimes (Num a) k = Num (a * k)"
| "jsTimes NaN k = NaN"

fun jsPlus :: "jsnum \<Rightarrow> jsnum \<Rightarrow> jsnum" where
  "jsPlus (Num a) (Num b) = Num (a + b)"
| "jsPlus _ _ = NaN"

text \<open>\<^verbatim>\<open>a % b\<close> on integers, for a positive \<open>b\<close>: the sign of the result is the sign of
  \<open>a\<close>.\<close>

definition jsRemainder :: "int \<Rightarrow> int \<Rightarrow> int" where
  "jsRemainder a b = (if a < 0 then - ((- a) mod b) else a mod b)"

section \<open>Double-precision arithmetic\<close>

text \<open>
  A JavaScript number is an IEEE 754 double: a whole multiple of a power of two, with a
  significand of 53 bits, and with the spacing \<open>2 powi - 1074\<close> below \<open>2 powi - 1022\<close>.
  \<^verbatim>\<open>x / y\<close> and \<^verbatim>\<open>x * y\<close> are the double nearest to the real quotient and product of
  the operands, the one with the even significand when two are equally near. An operand
  that the model holds as a real number (a decimal of the input, a distance) is the double
  nearest to it, as the parser of the input and the operation before leave it; rounding
  leaves a double as it is. \<open>binaryExponent x\<close> is the exponent of the power of two that
  \<open>x\<close> reaches (at least -1022, at most 1023), found by halving or doubling. Overflow to
  \<^verbatim>\<open>Infinity\<close>, from \<open>2 ^ 1024\<close> on, is not modelled.
\<close>

fun normalizeUp :: "nat \<Rightarrow> real \<Rightarrow> int \<Rightarrow> int" where
  "normalizeUp 0 x e = e"
| "normalizeUp (Suc n) x e = (if 2 \<le> x then normalizeUp n (x / 2) (e + 1) else e)"

fun normalizeDown :: "nat \<Rightarrow> real \<Rightarrow> int \<Rightarrow> int" where
  "normalizeDown 0 x e = e"
| "normalizeDown (Suc n) x e = (if x < 1 then normalizeDown n (x * 2) (e - 1) else e)"

definition binaryExponent :: "real \<Rightarrow> int" where
  "binaryExponent x =
     (if 1 \<le> \<bar>x\<bar> then normalizeUp 1023 \<bar>x\<bar> 0 else normalizeDown 1022 \<bar>x\<bar> 0)"

definition roundTiesToEven :: "real \<Rightarrow> int" where
  "roundTiesToEven x =
     (let f = \<lfloor>x\<rfloor>; r = x - of_int f
      in if r < 1 / 2 then f else if 1 / 2 < r then f + 1 else if even f then f else f + 1)"

definition roundToDouble :: "real \<Rightarrow> real" where
  "roundToDouble x =
     (let q = 2 powi (binaryExponent x - 52)
      in of_int (roundTiesToEven (x / q)) * q)"

definition doubleDivide :: "real \<Rightarrow> real \<Rightarrow> real" where
  "doubleDivide x y = roundToDouble (roundToDouble x / roundToDouble y)"

definition doubleTimes :: "real \<Rightarrow> real \<Rightarrow> real" where
  "doubleTimes x y = roundToDouble (roundToDouble x * roundToDouble y)"

section \<open>Time arithmetic\<close>

definition timeToMinutes :: "clock \<Rightarrow> int" where
  "timeToMinutes timeStr = hours timeStr * 60 + mins timeStr"

definition isTimeInRange :: "clock \<Rightarrow> clock \<Rightarrow> clock \<Rightarrow> bool" where
  "isTimeInRange time startT endT =
     (let timeMinutes = timeToMinutes time;
          startMinutes = timeToMinutes startT;
          endMinutes = timeToMinutes endT
      in timeMinutes \<ge> startMinutes \<and> timeMinutes \<le> endMinutes)"

definition isTimeAfter :: "clock \<Rightarrow> clock \<Rightarrow> bool" where
  "isTimeAfter time1 time2 =
     (if hours time1 > hours time2 then True
      else if hours time1 < hours time2 then False
      else mins time1 > mins time2)"

definition addMinutesToTime :: "clock \<Rightarrow> int \<Rightarrow> clock" where
  "addMinutesToTime timeStr minutes =
     (let totalMinutes = hours timeStr * 60 + mins timeStr + minutes;
          newHours = totalMinutes div 60;
          newMinutes = jsRemainder totalMinutes 60
      in \<lparr>hours = newHours, mins = newMinutes\<rparr>)"

definition getTimeDifferenceInMinutes :: "clock \<Rightarrow> clock \<Rightarrow> int" where
  "getTimeDifferenceInMinutes startT endT =
     (let startTotalMinutes = hours startT * 60 + mins startT;
          endTotalMinutes = hours endT * 60 + mins endT
      in endTotalMinutes - startTotalMinutes)"

section \<open>Geometric distance\<close>

definition toRadians :: "real \<Rightarrow> real" where
  "toRadians degrees = degrees * (pi / 180)"

text \<open>\<^verbatim>\<open>Math.atan2(y, x)\<close>.\<close>

definition atan2 :: "real \<Rightarrow> real \<Rightarrow> real" where
  "atan2 y x =
     (if x > 0 then arctan (y / x)
      else if x < 0 then (if y \<ge> 0 then arctan (y / x) + pi else arctan (y / x) - pi)
      else if y > 0 then pi / 2
      else if y < 0 then - (pi / 2)
      else 0)"

text \<open>The great-circle distance in kilometres. The radicand \<open>a\<close> is at least 0 for all
  coordinates (lemma \<open>haversine_radicand_nonneg\<close>), so \<open>sqrt a\<close> is \<^verbatim>\<open>Math.sqrt(a)\<close>.\<close>

definition haversineDistance :: "coords \<Rightarrow> coords \<Rightarrow> real" where
  "haversineDistance coords1 coords2 =
     (case coords1 of (lat1, lon1) \<Rightarrow> case coords2 of (lat2, lon2) \<Rightarrow>
        let R = 6371;
            dLat = toRadians (lat2 - lat1);
            dLon = toRadians (lon2 - lon1);
            a = sin (dLat / 2) * sin (dLat / 2) +
                cos (toRadians lat1) * cos (toRadians lat2) *
                sin (dLon / 2) * sin (dLon / 2);
            c = 2 * atan2 (sqrt a) (sqrt (1 - a));
            distance = R * c
        in distance)"

section \<open>The routed-distance resolver\<close>

text \<open>
  The cache \<^verbatim>\<open>distanceCache\<close> is a module-level \<^verbatim>\<open>Map\<close>. Its key is the string
  \<^verbatim>\<open>`${lat1},${lon1}_${lat2},${lon2}`\<close>, which determines the four numbers, so the key is
  the pair of points. \<open>osrmCalls\<close> counts the calls of \<^verbatim>\<open>axios.get\<close>: it is the only
  external effect of the resolver.
\<close>

type_synonym cache_key = "coords \<times> coords"

record resolver_state =
  distanceCache :: "cache_key \<rightharpoonup> jsnum"
  osrmCalls :: nat

text \<open>
  What \<^verbatim>\<open>await axios.get(url)\<close> does: it throws (network error, timeout, error status),
  or it yields a response. Of a response the code reads \<^verbatim>\<open>response.data.routes\<close>:
  \<open>None\<close> when \<^verbatim>\<open>data\<close> or \<^verbatim>\<open>routes\<close> is missing. Of the first route it reads
  \<^verbatim>\<open>.distance\<close>: reading it throws when the route is \<^verbatim>\<open>null\<close> (\<open>NoObject\<close>);
  otherwise \<open>RouteObject d\<close> holds the number that \<^verbatim>\<open>.distance\<close> is in a division,
  \<^verbatim>\<open>NaN\<close> when the field is missing or is not numeric.
\<close>

datatype js_route = NoObject | RouteObject jsnum

datatype osrm_response = Rejected | Response "js_route list option"

type_synonym osrm_service = "coords \<Rightarrow> coords \<Rightarrow> osrm_response"

definition getDistanceCacheKey :: "coords \<Rightarrow> coords \<Rightarrow> cache_key" where
  "getDistanceCacheKey startCoords endCoords = (startCoords, endCoords)"

definition cacheSet :: "resolver_state \<Rightarrow> cache_key \<Rightarrow> jsnum \<Rightarrow> resolver_state" where
  "cacheSet st k v = st\<lparr>distanceCache := (distanceCache st)(k \<mapsto> v)\<rparr>"

text \<open>\<^verbatim>\<open>getDistanceFromOSRM\<close>. Every \<^verbatim>\<open>throw\<close> inside its \<^verbatim>\<open>try\<close> reaches its own
  \<^verbatim>\<open>catch\<close>, which caches and returns the geometric distance: the function never throws.\<close>

definition getDistanceFromOSRM ::
  "osrm_service \<Rightarrow> resolver_state \<Rightarrow> coords \<Rightarrow> coords \<Rightarrow> real \<Rightarrow> jsnum \<times> resolver_state" where
  "getDistanceFromOSRM osrm st startCoords endCoords maxHaversineThreshold =
     (let cacheKey = getDistanceCacheKey startCoords endCoords in
      case distanceCache st cacheKey of
        Some cached \<Rightarrow> (cached, st)
      | None \<Rightarrow>
          let haversineDistanceValue = haversineDistance startCoords endCoords in
          if haversineDistanceValue > maxHaversineThreshold
          then (Num haversineDistanceValue, cacheSet st cacheKey (Num haversineDistanceValue))
          else
            let st1 = st\<lparr>osrmCalls := osrmCalls st + 1\<rparr> in
            (case osrm startCoords endCoords of
              Rejected \<Rightarrow>
                (Num haversineDistanceValue, cacheSet st1 cacheKey (Num haversineDistanceValue))
            | Response None \<Rightarrow>
                (Num haversineDistanceValue, cacheSet st1 cacheKey (Num haversineDistanceValue))
            | Response (Some []) \<Rightarrow>
                (Num haversineDistanceValue, cacheSet st1 cacheKey (Num haversineDistanceValue))
            | Response (Some (NoObject # _)) \<Rightarrow>
                (Num haversineDistanceValue, cacheSet st1 cacheKey (Num haversineDistanceValue))
            | Response (Some (RouteObject d # _)) \<Rightarrow>
                (let distance = jsDivide d 1000 in (distance, cacheSet st1 cacheKey distance))))"

section \<open>The constraint checks\<close>

definition isDriverOnShift :: "driver \<Rightarrow> clock \<Rightarrow> clock \<Rightarrow> bool" where
  "isDriverOnShift d startT endT =
     (case shiftStart d of
        None \<Rightarrow> True
      | Some s \<Rightarrow>
          (case shiftEnd d of
             None \<Rightarrow> True
           | Some e \<Rightarrow>
               (let startInShift = isTimeInRange startT s e;
                    endInShift = isTimeInRange endT s e
                in startInShift \<and> endInShift)))"

text \<open>\<^verbatim>\<open>toLowerCase\<close> and \<^verbatim>\<open>includes\<close> on strings of ASCII characters.\<close>

definition toLowerChar :: "char \<Rightarrow> char" where
  "toLowerChar c =
     (if (65::nat) \<le> of_char c \<and> of_char c \<le> (90::nat) then char_of (of_char c + (32::nat)) else c)"

definition toLowerCase :: "string \<Rightarrow> string" where
  "toLowerCase s = map toLowerChar s"

definition stringIncludes :: "string \<Rightarrow> string \<Rightarrow> bool" where
  "stringIncludes s part = sublist part s"

definition isAddressBlocked :: "driver \<Rightarrow> string \<Rightarrow> bool" where
  "isAddressBlocked d address =
     (case blockedAddresses d of
        None \<Rightarrow> False
      | Some blocked \<Rightarrow>
          if length blocked = 0 then False
          else list_ex (\<lambda>blockedAddress.
                 stringIncludes (toLowerCase address) (toLowerCase blockedAddress)) blocked)"

section \<open>The state of the assignment engine\<close>

text \<open>Reading a property of \<^verbatim>\<open>undefined\<close> throws a \<^verbatim>\<open>TypeError\<close>: a missing entry of
  \<^verbatim>\<open>driverAvailability\<close> or of \<^verbatim>\<open>assignments\<close> is that error, not a default.\<close>

datatype error = TypeError

record availability =
  lastRideEndTime :: clock
  lastRideEndPoint :: string
  lastRideEndPoint_coords :: coords
  busyUntil :: clock
  lastActiveDate :: "string option"

text \<open>An element of \<^verbatim>\<open>assignments\<close>; \<open>entryDriverId\<close> is its \<^verbatim>\<open>driverId\<close>.\<close>

record assignment =
  entryDriverId :: string
  rideIds :: "string list"
  dailyWorkMinutes :: "string \<rightharpoonup> int"

record engine_state =
  assignments :: "assignment list"
  totalCost :: real
  apiCallsSaved :: nat
  driverAvailability :: "string \<rightharpoonup> availability"
  resolver :: resolver_state

text \<open>\<^verbatim>\<open>wouldExceedDailyHours\<close>: \<^verbatim>\<open>!driver.maxDailyWorkHours\<close> holds of a missing cap and
  of the cap 0. \<^verbatim>\<open>driverAssignment\<close> is what \<^verbatim>\<open>assignments.find\<close> returned. The product
  \<^verbatim>\<open>driver.maxDailyWorkHours * 60\<close> is a double; the minutes are whole numbers, and their
  sum is exact.\<close>

definition wouldExceedDailyHours :: "assignment option \<Rightarrow> driver \<Rightarrow> ride \<Rightarrow> error + bool" where
  "wouldExceedDailyHours driverAssignment d r =
     (case maxDailyWorkHours d of
        None \<Rightarrow> Inr False
      | Some cap \<Rightarrow>
          if cap = 0 then Inr False
          else
            (case driverAssignment of
               None \<Rightarrow> Inl TypeError
             | Some a \<Rightarrow>
                 (let maxDailyMinutes = doubleTimes cap 60;
                      currentDailyMinutes =
                        (case dailyWorkMinutes a (date r) of None \<Rightarrow> 0 | Some m \<Rightarrow> m);
                      rideDurationMinutes = getTimeDifferenceInMinutes (startTime r) (endTime r)
                  in Inr (real_of_int (currentDailyMinutes + rideDurationMinutes) > maxDailyMinutes))))"

section \<open>Evaluating one driver for one ride\<close>

text \<open>
  Lines 66-86 and 103-123 of \<^verbatim>\<open>assignDriversToRides.js\<close> resolve a leg the same way: the
  geometric distance, and the resolver (with its default threshold 30) when that is at most
  50. The resolver never throws, so the \<^verbatim>\<open>catch\<close> around its call is never entered.
\<close>

definition legDistance ::
  "osrm_service \<Rightarrow> engine_state \<Rightarrow> coords \<Rightarrow> coords \<Rightarrow> jsnum \<times> engine_state" where
  "legDistance osrm st fromCoords toCoords =
     (let haversineLeg = haversineDistance fromCoords toCoords in
      if haversineLeg \<le> 50
      then (case getDistanceFromOSRM osrm (resolver st) fromCoords toCoords 30 of
              (resolved, rs) \<Rightarrow> (resolved, st\<lparr>resolver := rs\<rparr>))
      else (Num haversineLeg, st\<lparr>apiCallsSaved := apiCallsSaved st + 1\<rparr>))"

text \<open>
  Lines 88-96: the arrival time after the empty leg, and whether it is after the ride's
  start. The quotient of line 88 and the product of line 89 are doubles, and
  \<^verbatim>\<open>Math.ceil\<close> of the product is not always the ceiling of the distance: of 31 km the
  product is 31.000000000000004 and the minutes are 32. With the distance \<^verbatim>\<open>NaN\<close> the
  minutes are \<^verbatim>\<open>NaN\<close>, the time is \<^verbatim>\<open>"NaN:NaN"\<close>, and every comparison of
  \<^verbatim>\<open>isTimeAfter\<close> is false.
\<close>

definition expectedArrivalTime :: "clock \<Rightarrow> real \<Rightarrow> clock" where
  "expectedArrivalTime busy emptyDistance =
     (let emptyRideDurationHours = doubleDivide emptyDistance 60;
          emptyRideDurationMinutes = \<lceil>doubleTimes emptyRideDurationHours 60\<rceil>
      in addMinutesToTime busy emptyRideDurationMinutes)"

definition arrivesLate :: "clock \<Rightarrow> jsnum \<Rightarrow> clock \<Rightarrow> bool" where
  "arrivesLate busy emptyDistance rideStart =
     (case emptyDistance of
        NaN \<Rightarrow> False
      | Num e \<Rightarrow> isTimeAfter (expectedArrivalTime busy e) rideStart)"

record evaluation =
  emptyRideDistance :: jsnum
  rideDistance :: jsnum
  driverTimeCost :: real
  rideFuelCost :: jsnum
  emptyRideFuelCost :: jsnum
  totalAssignmentCost :: jsnum

text \<open>The body of the loop over the drivers, lines 45-129: \<open>None\<close> where the code
  \<^verbatim>\<open>continue\<close>s, the costs where it reaches line 129.\<close>

definition evaluateDriver ::
  "osrm_service \<Rightarrow> engine_state \<Rightarrow> ride \<Rightarrow> driver \<Rightarrow> error + (evaluation option \<times> engine_state)" where
  "evaluateDriver osrm st r d =
     (if numberOfSeats d < seatsRequired r then Inr (None, st)
      else
        (case driverAvailability st (driverId d) of
           None \<Rightarrow> Inl TypeError
         | Some avail \<Rightarrow>
             if isTimeAfter (busyUntil avail) (startTime r) then Inr (None, st)
             else if \<not> isDriverOnShift d (startTime r) (endTime r) then Inr (None, st)
             else if isAddressBlocked d (startPoint r) \<or> isAddressBlocked d (endPoint r)
               then Inr (None, st)
             else
               (case wouldExceedDailyHours
                       (find (\<lambda>a. entryDriverId a = driverId d) (assignments st)) d r of
                  Inl e \<Rightarrow> Inl e
                | Inr True \<Rightarrow> Inr (None, st)
                | Inr False \<Rightarrow>
                    (case legDistance osrm st (lastRideEndPoint_coords avail) (startPoint_coords r) of
                       (emptyDist, st1) \<Rightarrow>
                         if arrivesLate (busyUntil avail) emptyDist (startTime r)
                         then Inr (None, st1)
                         else
                           (let rideDurationMinutes =
                                  getTimeDifferenceInMinutes (startTime r) (endTime r);
                                timeCost = (real_of_int rideDurationMinutes / 60) * 30
                            in case legDistance osrm st1 (startPoint_coords r) (endPoint_coords r) of
                                 (rideDist, st2) \<Rightarrow>
                                   (let rideFuel = jsTimes rideDist (fuelCost d);
                                        emptyFuel = jsTimes emptyDist (fuelCost d);
                                        total = jsPlus (jsPlus (Num timeCost) rideFuel) emptyFuel
                                    in Inr (Some \<lparr>emptyRideDistance = emptyDist,
                                                   rideDistance = rideDist,
                                                   driverTimeCost = timeCost,
                                                   rideFuelCost = rideFuel,
                                                   emptyRideFuelCost = emptyFuel,
                                                   totalAssignmentCost = total\<rparr>, st2)))))))"

section \<open>Choosing the driver of a ride\<close>

text \<open>
  \<^verbatim>\<open>bestDriverId\<close> and \<^verbatim>\<open>minCost\<close> are assigned together (lines 131-134): \<open>None\<close> is
  their initial value \<^verbatim>\<open>(null, Infinity)\<close>. \<open>costBelow\<close> is
  \<^verbatim>\<open>totalAssignmentCost < minCost\<close>, false of \<^verbatim>\<open>NaN\<close>.
\<close>

type_synonym best = "(string \<times> real) option"

definition costBelow :: "jsnum \<Rightarrow> best \<Rightarrow> bool" where
  "costBelow c b =
     (case c of
        NaN \<Rightarrow> False
      | Num x \<Rightarrow> (case b of None \<Rightarrow> True | Some (bestId, minCost) \<Rightarrow> x < minCost))"

definition takeCost :: "jsnum \<Rightarrow> real" where
  "takeCost c = (case c of Num x \<Rightarrow> x | NaN \<Rightarrow> 0)"

definition considerDriver ::
  "osrm_service \<Rightarrow> ride \<Rightarrow> best \<Rightarrow> engine_state \<Rightarrow> driver \<Rightarrow> error + (best \<times> engine_state)" where
  "considerDriver osrm r b st d =
     (case evaluateDriver osrm st r d of
        Inl e \<Rightarrow> Inl e
      | Inr (None, st') \<Rightarrow> Inr (b, st')
      | Inr (Some ev, st') \<Rightarrow>
          if costBelow (totalAssignmentCost ev) b
          then Inr (Some (driverId d, takeCost (totalAssignmentCost ev)), st')
          else Inr (b, st'))"

fun driverLoop ::
  "osrm_service \<Rightarrow> ride \<Rightarrow> best \<Rightarrow> engine_state \<Rightarrow> driver list \<Rightarrow> error + (best \<times> engine_state)" where
  "driverLoop osrm r b st [] = Inr (b, st)"
| "driverLoop osrm r b st (d # ds) =
     (case considerDriver osrm r b st d of
        Inl e \<Rightarrow> Inl e
      | Inr (b', st') \<Rightarrow> driverLoop osrm r b' st' ds)"

section \<open>Committing a ride\<close>

fun findIndex :: "('a \<Rightarrow> bool) \<Rightarrow> 'a list \<Rightarrow> nat option" where
  "findIndex P [] = None"
| "findIndex P (x # xs) = (if P x then Some 0 else map_option Suc (findIndex P xs))"

text \<open>Lines 138-157. \<^verbatim>\<open>findIndex\<close> returns -1 when no element matches, and reading
  \<^verbatim>\<open>assignments[-1].rideIds\<close> throws.\<close>

definition commitRide :: "engine_state \<Rightarrow> ride \<Rightarrow> string \<Rightarrow> real \<Rightarrow> error + engine_state" where
  "commitRide st r bestDriverId minCost =
     (case findIndex (\<lambda>a. entryDriverId a = bestDriverId) (assignments st) of
        None \<Rightarrow> Inl TypeError
      | Some driverIndex \<Rightarrow>
          (let a = assignments st ! driverIndex;
               worked = (case dailyWorkMinutes a (date r) of None \<Rightarrow> 0 | Some m \<Rightarrow> m);
               rideDuration = getTimeDifferenceInMinutes (startTime r) (endTime r);
               a' = a\<lparr>rideIds := rideIds a @ [ride_id r],
                      dailyWorkMinutes := (dailyWorkMinutes a)(date r \<mapsto> worked + rideDuration)\<rparr>
           in Inr (st\<lparr>assignments := (assignments st)[driverIndex := a'],
                      driverAvailability := (driverAvailability st)(bestDriverId \<mapsto>
                        \<lparr>lastRideEndTime = endTime r,
                         lastRideEndPoint = endPoint r,
                         lastRideEndPoint_coords = endPoint_coords r,
                         busyUntil = endTime r,
                         lastActiveDate = Some (date r)\<rparr>),
                      totalCost := totalCost st + minCost\<rparr>)))"

text \<open>The body of the loop over the rides, lines 41-158. \<^verbatim>\<open>if (bestDriverId)\<close> is false of
  \<^verbatim>\<open>null\<close> and of the empty string.\<close>

definition processRide ::
  "osrm_service \<Rightarrow> driver list \<Rightarrow> engine_state \<Rightarrow> ride \<Rightarrow> error + engine_state" where
  "processRide osrm drivers st r =
     (case driverLoop osrm r None st drivers of
        Inl e \<Rightarrow> Inl e
      | Inr (None, st') \<Rightarrow> Inr st'
      | Inr (Some (bestDriverId, minCost), st') \<Rightarrow>
          if bestDriverId \<noteq> [] then commitRide st' r bestDriverId minCost else Inr st')"

fun rideLoop ::
  "osrm_service \<Rightarrow> driver list \<Rightarrow> engine_state \<Rightarrow> ride list \<Rightarrow> error + engine_state" where
  "rideLoop osrm drivers st [] = Inr st"
| "rideLoop osrm drivers st (r # rs) =
     (case processRide osrm drivers st r of
        Inl e \<Rightarrow> Inl e
      | Inr st' \<Rightarrow> rideLoop osrm drivers st' rs)"

section \<open>The run\<close>

text \<open>
  Lines 15-18. \<^verbatim>\<open>a.localeCompare(b)\<close> is negative, zero or positive as \<open>a\<close> comes before,
  with or after \<open>b\<close>: of dates \<^verbatim>\<open>YYYY-MM-DD\<close> in the order of their characters; of clocks
  \<^verbatim>\<open>HH:MM\<close> with two digits in each field in the order of the hours, then of the minutes.
  The comparator compares the dates when they differ, and the start times otherwise.
\<close>

definition localeCompare :: "'a::linorder \<Rightarrow> 'a \<Rightarrow> int" where
  "localeCompare a b = (if a < b then - 1 else if b < a then 1 else 0)"

definition compareRides :: "ride \<Rightarrow> ride \<Rightarrow> int" where
  "compareRides a b =
     (if date a \<noteq> date b then localeCompare (date a) (date b)
      else localeCompare (hours (startTime a), mins (startTime a))
                         (hours (startTime b), mins (startTime b)))"

text \<open>
  \<^verbatim>\<open>Array.prototype.sort\<close> with a comparator sorts the array it is called on, and it is
  stable: elements that the comparator takes as equal keep their order. That is the result
  of inserting the elements, from the last to the first, each before the first element
  that it does not come after.
\<close>

fun insertByComparator :: "('a \<Rightarrow> 'a \<Rightarrow> int) \<Rightarrow> 'a \<Rightarrow> 'a list \<Rightarrow> 'a list" where
  "insertByComparator cmp x [] = [x]"
| "insertByComparator cmp x (y # ys) =
     (if cmp x y \<le> 0 then x # y # ys else y # insertByComparator cmp x ys)"

definition arraySort :: "('a \<Rightarrow> 'a \<Rightarrow> int) \<Rightarrow> 'a list \<Rightarrow> 'a list" where
  "arraySort cmp xs = foldr (insertByComparator cmp) xs []"

definition sortRides :: "ride list \<Rightarrow> ride list" where
  "sortRides rides = arraySort compareRides rides"

definition midnight :: clock where
  "midnight = \<lparr>hours = 0, mins = 0\<rparr>"

definition initialAssignments :: "driver list \<Rightarrow> assignment list" where
  "initialAssignments drivers =
     map (\<lambda>d. \<lparr>entryDriverId = driverId d, rideIds = [], dailyWorkMinutes = Map.empty\<rparr>) drivers"

definition initialAvailabilityOf :: "driver \<Rightarrow> availability" where
  "initialAvailabilityOf d =
     \<lparr>lastRideEndTime = (case shiftStart d of Some s \<Rightarrow> s | None \<Rightarrow> midnight),
      lastRideEndPoint = city d,
      lastRideEndPoint_coords = city_coords d,
      busyUntil = (case shiftStart d of Some s \<Rightarrow> s | None \<Rightarrow> midnight),
      lastActiveDate = None\<rparr>"

definition initialAvailability :: "driver list \<Rightarrow> (string \<rightharpoonup> availability)" where
  "initialAvailability drivers =
     fold (\<lambda>d m. m(driverId d \<mapsto> initialAvailabilityOf d)) drivers Map.empty"

definition initialState :: "resolver_state \<Rightarrow> driver list \<Rightarrow> engine_state" where
  "initialState rs drivers =
     \<lparr>assignments = initialAssignments drivers,
      totalCost = 0,
      apiCallsSaved = 0,
      driverAvailability = initialAvailability drivers,
      resolver = rs\<rparr>"

record assignment_out =
  outDriverId :: string
  outRideIds :: "string list"

text \<open>What the call returns (\<open>assignmentsOut\<close>, \<open>totalCostOut\<close>) and what it leaves behind:
  the caller's two arrays and the module's cache.\<close>

record run_result =
  assignmentsOut :: "assignment_out list"
  totalCostOut :: real
  ridesAfter :: "ride list"
  driversAfter :: "driver list"
  resolverAfter :: resolver_state

definition filteredAssignments :: "assignment list \<Rightarrow> assignment_out list" where
  "filteredAssignments as =
     map (\<lambda>a. \<lparr>outDriverId = entryDriverId a, outRideIds = rideIds a\<rparr>)
       (filter (\<lambda>a. length (rideIds a) > 0) as)"

definition roundToCents :: "real \<Rightarrow> real" where
  "roundToCents x = real_of_int (round (x * 100)) / 100"

definition assignDriversToRides ::
  "osrm_service \<Rightarrow> resolver_state \<Rightarrow> driver list \<Rightarrow> ride list \<Rightarrow> error + run_result" where
  "assignDriversToRides osrm rs driversData ridesData =
     (let drivers = driversData;
          rides = sortRides ridesData
      in case rideLoop osrm drivers (initialState rs drivers) rides of
           Inl e \<Rightarrow> Inl e
         | Inr st \<Rightarrow>
             Inr \<lparr>assignmentsOut = filteredAssignments (assignments st),
                  totalCostOut = roundToCents (totalCost st),
                  ridesAfter = rides,
                  driversAfter = drivers,
                  resolverAfter = resolver st\<rparr>)"

section \<open>The vocabulary of the claims\<close>

text \<open>The cost of a driver is evaluated when the loop body reaches line 129.\<close>

definition costEvaluated :: "error + (evaluation option \<times> engine_state) \<Rightarrow> bool" where
  "costEvaluated res = (case res of Inr (Some ev, st') \<Rightarrow> True | _ \<Rightarrow> False)"

definition rideMinutes :: "ride \<Rightarrow> int" where
  "rideMinutes r = timeToMinutes (endTime r) - timeToMinutes (startTime r)"

definition seatsSuffice :: "driver \<Rightarrow> ride \<Rightarrow> bool" where
  "seatsSuffice d r = (numberOfSeats d \<ge> seatsRequired r)"

definition withinShift :: "driver \<Rightarrow> ride \<Rightarrow> bool" where
  "withinShift d r =
     (case shiftStart d of
        None \<Rightarrow> True
      | Some s \<Rightarrow>
          (case shiftEnd d of
             None \<Rightarrow> True
           | Some e \<Rightarrow>
               timeToMinutes s \<le> timeToMinutes (startTime r) \<and>
               timeToMinutes (startTime r) \<le> timeToMinutes e \<and>
               timeToMinutes s \<le> timeToMinutes (endTime r) \<and>
               timeToMinutes (endTime r) \<le> timeToMinutes e))"

definition avoidsBlocked :: "driver \<Rightarrow> ride \<Rightarrow> bool" where
  "avoidsBlocked d r =
     (case blockedAddresses d of
        None \<Rightarrow> True
      | Some blocked \<Rightarrow>
          (\<forall>b \<in> set blocked.
             \<not> sublist (toLowerCase b) (toLowerCase (startPoint r)) \<and>
             \<not> sublist (toLowerCase b) (toLowerCase (endPoint r))))"

definition workedMinutes :: "assignment \<Rightarrow> ride \<Rightarrow> int" where
  "workedMinutes a r = (case dailyWorkMinutes a (date r) of None \<Rightarrow> 0 | Some m \<Rightarrow> m)"

text \<open>The daily cap as claim C1 words it, and as the code applies it: a cap of 0 is no
  cap, and 60 times the cap is the product that the code computes, a double.\<close>

definition withinDailyCapClaimed :: "driver \<Rightarrow> assignment \<Rightarrow> ride \<Rightarrow> bool" where
  "withinDailyCapClaimed d a r =
     (case maxDailyWorkHours d of
        None \<Rightarrow> True
      | Some cap \<Rightarrow> real_of_int (workedMinutes a r + rideMinutes r) \<le> cap * 60)"

definition withinDailyCap :: "driver \<Rightarrow> assignment \<Rightarrow> ride \<Rightarrow> bool" where
  "withinDailyCap d a r =
     (case maxDailyWorkHours d of
        None \<Rightarrow> True
      | Some cap \<Rightarrow>
          cap = 0 \<or> real_of_int (workedMinutes a r + rideMinutes r) \<le> doubleTimes cap 60)"

definition freeByStart :: "availability \<Rightarrow> ride \<Rightarrow> bool" where
  "freeByStart av r = (\<not> isTimeAfter (busyUntil av) (startTime r))"

text \<open>The minutes of an empty leg of \<open>e\<close> km at 60 km an hour, as lines 88-89 compute
  them: the ceiling of \<^verbatim>\<open>(e / 60) * 60\<close>, quotient and product each rounded to a double.\<close>

definition travelMinutes :: "real \<Rightarrow> int" where
  "travelMinutes e = \<lceil>doubleTimes (doubleDivide e 60) 60\<rceil>"

text \<open>Reaching the start in time as claim C1 words it, with the ceiling of the distance,
  and as the code decides it, with the minutes above.\<close>

definition reachesInTimeClaimed :: "availability \<Rightarrow> jsnum \<Rightarrow> ride \<Rightarrow> bool" where
  "reachesInTimeClaimed av emptyLeg r =
     (case emptyLeg of
        NaN \<Rightarrow> True
      | Num e \<Rightarrow> \<not> isTimeAfter (addMinutesToTime (busyUntil av) \<lceil>e\<rceil>) (startTime r))"

definition reachesInTime :: "availability \<Rightarrow> jsnum \<Rightarrow> ride \<Rightarrow> bool" where
  "reachesInTime av emptyLeg r =
     (case emptyLeg of
        NaN \<Rightarrow> True
      | Num e \<Rightarrow>
          \<not> isTimeAfter (addMinutesToTime (busyUntil av) (travelMinutes e)) (startTime r))"

definition emptyLeg :: "osrm_service \<Rightarrow> engine_state \<Rightarrow> availability \<Rightarrow> ride \<Rightarrow> jsnum" where
  "emptyLeg osrm st av r =
     fst (legDistance osrm st (lastRideEndPoint_coords av) (startPoint_coords r))"

definition feasibleClaimed ::
  "osrm_service \<Rightarrow> engine_state \<Rightarrow> availability \<Rightarrow> assignment \<Rightarrow> driver \<Rightarrow> ride \<Rightarrow> bool" where
  "feasibleClaimed osrm st av a d r =
     (seatsSuffice d r \<and> withinShift d r \<and> avoidsBlocked d r \<and> withinDailyCapClaimed d a r \<and>
      freeByStart av r \<and> reachesInTimeClaimed av (emptyLeg osrm st av r) r)"

definition feasible ::
  "osrm_service \<Rightarrow> engine_state \<Rightarrow> availability \<Rightarrow> assignment \<Rightarrow> driver \<Rightarrow> ride \<Rightarrow> bool" where
  "feasible osrm st av a d r =
     (seatsSuffice d r \<and> withinShift d r \<and> avoidsBlocked d r \<and> withinDailyCap d a r \<and>
      freeByStart av r \<and> reachesInTime av (emptyLeg osrm st av r) r)"

section \<open>The choice of a driver, in the words of the specification\<close>

text \<open>The drivers whose cost is evaluated for a ride, in the order of the loop, each with
  its cost.\<close>

fun evaluatedCosts ::
  "osrm_service \<Rightarrow> ride \<Rightarrow> engine_state \<Rightarrow> driver list \<Rightarrow> (string \<times> jsnum) list" where
  "evaluatedCosts osrm r st [] = []"
| "evaluatedCosts osrm r st (d # ds) =
     (case evaluateDriver osrm st r d of
        Inl e \<Rightarrow> []
      | Inr (None, st') \<Rightarrow> evaluatedCosts osrm r st' ds
      | Inr (Some ev, st') \<Rightarrow> (driverId d, totalAssignmentCost ev) # evaluatedCosts osrm r st' ds)"

text \<open>The first minimum of a list of costs: an entry whose cost is a number, strictly
  below every number before it and at most every number after it.\<close>

definition isFirstMinimum :: "(string \<times> jsnum) list \<Rightarrow> string \<Rightarrow> real \<Rightarrow> bool" where
  "isFirstMinimum cands i c =
     (\<exists>before after. cands = before @ (i, Num c) # after \<and>
        (\<forall>e \<in> set before. \<forall>x. snd e = Num x \<longrightarrow> c < x) \<and>
        (\<forall>e \<in> set after. \<forall>x. snd e = Num x \<longrightarrow> c \<le> x))"

text \<open>The driver that the loop body commits for a ride, with the cost it adds to the total:
  \<open>None\<close> when it commits none.\<close>

definition chosenDriver ::
  "osrm_service \<Rightarrow> driver list \<Rightarrow> engine_state \<Rightarrow> ride \<Rightarrow> (string \<times> real) option" where
  "chosenDriver osrm drivers st r =
     (case driverLoop osrm r None st drivers of
        Inr (Some (bestDriverId, minCost), st') \<Rightarrow>
          if bestDriverId \<noteq> [] then Some (bestDriverId, minCost) else None
      | _ \<Rightarrow> None)"

text \<open>The costs of the successful assignments of a run, in the order of the rides.\<close>

fun acceptedCosts ::
  "osrm_service \<Rightarrow> driver list \<Rightarrow> engine_state \<Rightarrow> ride list \<Rightarrow> real list" where
  "acceptedCosts osrm drivers st [] = []"
| "acceptedCosts osrm drivers st (r # rs) =
     (case chosenDriver osrm drivers st r of Some (i, c) \<Rightarrow> [c] | None \<Rightarrow> []) @
     (case processRide osrm drivers st r of
        Inl e \<Rightarrow> []
      | Inr st' \<Rightarrow> acceptedCosts osrm drivers st' rs)"

text \<open>Every driver of the list has its entry in \<^verbatim>\<open>driverAvailability\<close> and in
  \<^verbatim>\<open>assignments\<close>, as after lines 20-38.\<close>

definition covers :: "driver list \<Rightarrow> engine_state \<Rightarrow> bool" where
  "covers drivers st =
     (\<forall>d \<in> set drivers.
        driverAvailability st (driverId d) \<noteq> None \<and>
        (\<exists>a \<in> set (assignments st). entryDriverId a = driverId d))"

text \<open>The loop over the drivers, run on the list of evaluated costs.\<close>

fun selectBest :: "best \<Rightarrow> (string \<times> jsnum) list \<Rightarrow> best" where
  "selectBest b [] = b"
| "selectBest b ((i, c) # cs) = selectBest (if costBelow c b then Some (i, takeCost c) else b) cs"

text \<open>What lines 139-155 make of the entry and of the availability of the chosen driver.\<close>

definition committed :: "assignment \<Rightarrow> ride \<Rightarrow> assignment" where
  "committed a r = a\<lparr>rideIds := rideIds a @ [ride_id r],
     dailyWorkMinutes := (dailyWorkMinutes a)(date r \<mapsto> workedMinutes a r + rideMinutes r)\<rparr>"

definition availabilityAfter :: "ride \<Rightarrow> availability" where
  "availabilityAfter r = \<lparr>lastRideEndTime = endTime r, lastRideEndPoint = endPoint r,
     lastRideEndPoint_coords = endPoint_coords r, busyUntil = endTime r,
     lastActiveDate = Some (date r)\<rparr>"

text \<open>The evaluation that the loop body reached, if it reached one.\<close>

definition evaluationOf :: "error + (evaluation option \<times> engine_state) \<Rightarrow> evaluation option" where
  "evaluationOf res = (case res of Inr (ev, st') \<Rightarrow> ev | Inl e \<Rightarrow> None)"

text \<open>Neither the cache nor the routing service reports a distance other than 0 from a
  point to itself.\<close>

definition resolvesToZero :: "osrm_service \<Rightarrow> resolver_state \<Rightarrow> coords \<Rightarrow> bool" where
  "resolvesToZero osrm rs p =
     (case distanceCache rs (p, p) of
        Some v \<Rightarrow> v = Num 0
      | None \<Rightarrow>
          (case osrm p p of
             Rejected \<Rightarrow> True
           | Response None \<Rightarrow> True
           | Response (Some []) \<Rightarrow> True
           | Response (Some (NoObject # rest)) \<Rightarrow> True
           | Response (Some (RouteObject v # rest)) \<Rightarrow> v = Num 0))"

text \<open>The two numbers of a clock, ordered as \<^verbatim>\<open>isTimeAfter\<close> orders them.\<close>

definition clockKey :: "clock \<Rightarrow> int \<times> int" where
  "clockKey c = (hours c, mins c)"

text \<open>Rides in the order in which a driver accepted them do not overlap: of two rides of the
  same date, the earlier accepted one ends no later than the later accepted one starts.\<close>

definition noOverlap :: "ride list \<Rightarrow> bool" where
  "noOverlap rs =
     sorted_wrt (\<lambda>r1 r2. date r1 = date r2 \<longrightarrow> \<not> isTimeAfter (endTime r1) (startTime r2)) rs"

text \<open>All ride identities that a state has assigned, entry after entry.\<close>

definition assignedIds :: "engine_state \<Rightarrow> string list" where
  "assignedIds st = concat (map rideIds (assignments st))"

text \<open>The invariant of the loop over the rides, for the rides \<open>seen\<close> so far: the list
  \<open>rs\<close> holds the rides of entry \<open>k\<close> in the order of their acceptance; when it is not
  empty, the entry is the first one of its driver and the \<^verbatim>\<open>busyUntil\<close> of the driver is
  the end of the last ride.\<close>

definition entryTracked :: "ride list \<Rightarrow> engine_state \<Rightarrow> nat \<Rightarrow> ride list \<Rightarrow> bool" where
  "entryTracked seen st k rs =
     (map ride_id rs = rideIds (assignments st ! k) \<and> subseq rs seen \<and> noOverlap rs \<and>
      (rs \<noteq> [] \<longrightarrow>
         findIndex (\<lambda>a. entryDriverId a = entryDriverId (assignments st ! k)) (assignments st)
           = Some k \<and>
         map_option busyUntil (driverAvailability st (entryDriverId (assignments st ! k)))
           = Some (endTime (last rs))))"

definition tracked :: "ride list \<Rightarrow> engine_state \<Rightarrow> bool" where
  "tracked seen st = (\<forall>k < length (assignments st). \<exists>rs. entryTracked seen st k rs)"

text \<open>A ride outside the shift of every driver: every driver has both ends of a shift, and
  the start or the end of the ride is not within them.\<close>

definition outsideEveryShift :: "driver list \<Rightarrow> ride \<Rightarrow> bool" where
  "outsideEveryShift drivers r = (\<forall>d \<in> set drivers. \<not> withinShift d r)"


section \<open>Inputs without negative quantities\<close>

text \<open>An input without negative quantities: no fuel cost is below 0, no ride ends before it
  starts, and neither the routing service nor the cache reports a negative distance.\<close>

definition cacheNonneg :: "resolver_state \<Rightarrow> bool" where
  "cacheNonneg rs = (\<forall>k x. distanceCache rs k = Some (Num x) \<longrightarrow> 0 \<le> x)"

definition serviceNonneg :: "osrm_service \<Rightarrow> bool" where
  "serviceNonneg osrm =
     (\<forall>a b x rest. osrm a b = Response (Some (RouteObject (Num x) # rest)) \<longrightarrow> 0 \<le> x)"

definition nonnegativeInput ::
  "osrm_service \<Rightarrow> resolver_state \<Rightarrow> driver list \<Rightarrow> ride list \<Rightarrow> bool" where
  "nonnegativeInput osrm res drivers rides =
     (serviceNonneg osrm \<and> cacheNonneg res \<and>
      (\<forall>d \<in> set drivers. 0 \<le> fuelCost d) \<and>
      (\<forall>r \<in> set rides. 0 \<le> rideMinutes r))"

section \<open>The order of the rides\<close>

text \<open>Ascending (date, startTime), in the words of claim C10: the earlier date first, and
  of two rides of one date the earlier start first.\<close>

definition ridesAscending :: "ride \<Rightarrow> ride \<Rightarrow> bool" where
  "ridesAscending a b =
     (date a < date b \<or>
      (date a = date b \<and>
       (hours (startTime a) < hours (startTime b) \<or>
        (hours (startTime a) = hours (startTime b) \<and> mins (startTime a) \<le> mins (startTime b)))))"

text \<open>The key of that order.\<close>

definition rideOrderKey :: "ride \<Rightarrow> string \<times> int \<times> int" where
  "rideOrderKey r = (date r, hours (startTime r), mins (startTime r))"

section \<open>A small fleet for the examples\<close>

text \<open>Two points on the equator, 0.1 degrees (about 11 km) apart; a routing service that
  reports 12 km between different points and 0 from a point to itself; and the driver and
  the ride of the scenario of the specification (four seats, shift 08:00 to 20:00, fuel
  cost 0.6; two seats, 09:00 to 09:30, starting where the driver is).\<close>

definition clockAt :: "int \<Rightarrow> int \<Rightarrow> clock" where
  "clockAt h m = \<lparr>hours = h, mins = m\<rparr>"

definition depot :: coords where
  "depot = (0, 0)"

definition airport :: coords where
  "airport = (0, 1 / 10)"

definition roadService :: osrm_service where
  "roadService a b =
     (if a = b then Response (Some [RouteObject (Num 0)])
      else Response (Some [RouteObject (Num 12000)]))"

definition coldResolver :: resolver_state where
  "coldResolver = \<lparr>distanceCache = Map.empty, osrmCalls = 0\<rparr>"

definition driverOne :: driver where
  "driverOne =
     \<lparr>driverId = ''driver1'', city = ''Depot'', city_coords = depot, numberOfSeats = 4,
      fuelCost = 3 / 5, shiftStart = Some (clockAt 8 0), shiftEnd = Some (clockAt 20 0),
      maxDailyWorkHours = Some 8, blockedAddresses = Some [''Eilat'']\<rparr>"

definition rideOne :: ride where
  "rideOne =
     \<lparr>ride_id = ''ride1'', date = ''2023-06-01'', startTime = clockAt 9 0,
      endTime = clockAt 9 30, startPoint = ''Depot'', startPoint_coords = depot,
      endPoint = ''Airport'', endPoint_coords = airport, seatsRequired = 2\<rparr>"

definition freshEntry :: "string \<Rightarrow> assignment" where
  "freshEntry i = \<lparr>entryDriverId = i, rideIds = [], dailyWorkMinutes = Map.empty\<rparr>"

definition stateOne :: engine_state where
  "stateOne = initialState coldResolver [driverOne]"

text \<open>The same driver with a daily cap of 0 hours.\<close>

definition capZeroDriver :: driver where
  "capZeroDriver = driverOne\<lparr>maxDailyWorkHours := Some 0\<rparr>"

text \<open>A routing service that reports 12 km for every query.\<close>

definition flatService :: osrm_service where
  "flatService a b = Response (Some [RouteObject (Num 12000)])"

text \<open>A ride from 10:00 to 12:00, a ride of the same date whose end (11:00) is before its
  start (13:00), and a ride of the next day that starts at 09:00.\<close>

definition rideTen :: ride where
  "rideTen =
     \<lparr>ride_id = ''ride10'', date = ''2023-06-01'', startTime = clockAt 10 0,
      endTime = clockAt 12 0, startPoint = ''Depot'', startPoint_coords = depot,
      endPoint = ''Airport'', endPoint_coords = airport, seatsRequired = 2\<rparr>"

definition rideInverted :: ride where
  "rideInverted =
     \<lparr>ride_id = ''ride13'', date = ''2023-06-01'', startTime = clockAt 13 0,
      endTime = clockAt 11 0, startPoint = ''Airport'', startPoint_coords = airport,
      endPoint = ''Depot'', endPoint_coords = depot, seatsRequired = 2\<rparr>"

definition rideNextDay :: ride where
  "rideNextDay =
     \<lparr>ride_id = ''ride20'', date = ''2023-06-02'', startTime = clockAt 9 0,
      endTime = clockAt 9 20, startPoint = ''Airport'', startPoint_coords = airport,
      endPoint = ''Depot'', endPoint_coords = depot, seatsRequired = 2\<rparr>"

text \<open>The state after the ride from 10:00 to 12:00.\<close>

definition stateTen :: engine_state where
  "stateTen =
     \<lparr>assignments = [\<lparr>entryDriverId = ''driver1'', rideIds = [''ride10''],
                       dailyWorkMinutes = [''2023-06-01'' \<mapsto> 120]\<rparr>],
      totalCost = 336 / 5,
      apiCallsSaved = 0,
      driverAvailability = [''driver1'' \<mapsto> availabilityAfter rideTen],
      resolver = \<lparr>distanceCache = [(depot, depot) \<mapsto> Num 0, (depot, airport) \<mapsto> Num 12],
                  osrmCalls = 2\<rparr>\<rparr>"

text \<open>The state after the ride from 09:00 to 09:30.\<close>

definition stateAfterOne :: engine_state where
  "stateAfterOne =
     \<lparr>assignments = [\<lparr>entryDriverId = ''driver1'', rideIds = [''ride1''],
                       dailyWorkMinutes = [''2023-06-01'' \<mapsto> 30]\<rparr>],
      totalCost = 111 / 5,
      apiCallsSaved = 0,
      driverAvailability = [''driver1'' \<mapsto> availabilityAfter rideOne],
      resolver = \<lparr>distanceCache = [(depot, depot) \<mapsto> Num 0, (depot, airport) \<mapsto> Num 12],
                  osrmCalls = 2\<rparr>\<rparr>"

text \<open>A ride that ends after 24:00, as \<^verbatim>\<open>addMinutesToTime\<close> writes the end of a ride that
  crosses midnight; and the driver of the scenario without a shift.\<close>

definition rideLate :: ride where
  "rideLate =
     \<lparr>ride_id = ''ride23'', date = ''2023-06-01'', startTime = clockAt 23 30,
      endTime = clockAt 24 30, startPoint = ''Depot'', startPoint_coords = depot,
      endPoint = ''Airport'', endPoint_coords = airport, seatsRequired = 2\<rparr>"

definition noShiftDriver :: driver where
  "noShiftDriver = driverOne\<lparr>shiftStart := None, shiftEnd := None\<rparr>"

text \<open>A second driver, equal to the first but for its identity, and the initial state of
  the two.\<close>

definition driverTwo :: driver where
  "driverTwo = driverOne\<lparr>driverId := ''driver2''\<rparr>"

definition fleetState :: engine_state where
  "fleetState = initialState coldResolver [driverOne, driverTwo]"

text \<open>A routing service that reports 31 km between different points, and a ride that
  starts at the airport at 08:31, 31 minutes after the start of the driver's shift.\<close>

definition detourService :: osrm_service where
  "detourService a b =
     (if a = b then Response (Some [RouteObject (Num 0)])
      else Response (Some [RouteObject (Num 31000)]))"

definition rideTight :: ride where
  "rideTight =
     \<lparr>ride_id = ''ride831'', date = ''2023-06-01'', startTime = clockAt 8 31,
      endTime = clockAt 9 0, startPoint = ''Airport'', startPoint_coords = airport,
      endPoint = ''Depot'', endPoint_coords = depot, seatsRequired = 2\<rparr>"

text \<open>The driver of the scenario with the fuel cost 0.6005, and a ride back from the airport
  from 10:00 to 10:30: each of the two rides costs 15 + 12 * 0.6005 = 22.206.\<close>

definition thriftyDriver :: driver where
  "thriftyDriver = driverOne\<lparr>fuelCost := 1201 / 2000\<rparr>"

definition rideBack :: ride where
  "rideBack =
     \<lparr>ride_id = ''ride11'', date = ''2023-06-01'', startTime = clockAt 10 0,
      endTime = clockAt 10 30, startPoint = ''Airport'', startPoint_coords = airport,
      endPoint = ''Depot'', endPoint_coords = depot, seatsRequired = 2\<rparr>"

text \<open>Negative quantities: a driver with the fuel cost -3, a routing service that reports
  -100 km between different points, and a cache that holds -100 km for the ride of the
  scenario.\<close>

definition rebateDriver :: driver where
  "rebateDriver = driverOne\<lparr>fuelCost := - 3\<rparr>"

definition backwardService :: osrm_service where
  "backwardService a b =
     (if a = b then Response (Some [RouteObject (Num 0)])
      else Response (Some [RouteObject (Num (- 100000))]))"

definition staleResolver :: resolver_state where
  "staleResolver = \<lparr>distanceCache = [(depot, airport) \<mapsto> Num (- 100)], osrmCalls = 0\<rparr>"

section \<open>Properties of the double-precision arithmetic\<close>

lemma normalizeUp_eq:
  "2 ^ k \<le> x \<Longrightarrow> x < 2 ^ (k + 1) \<Longrightarrow> k \<le> n \<Longrightarrow> normalizeUp n x e = e + int k"
proof (induction n arbitrary: x e k)
  case 0
  then show ?case by simp
next
  case (Suc n)
  show ?case
  proof (cases k)
    case 0
    with Suc.prems show ?thesis by simp
  next
    case (Suc j)
    with Suc.prems have "2 ^ j \<le> x / 2" "x / 2 < 2 ^ (j + 1)" "j \<le> n" by auto
    from Suc.IH [OF this] have "normalizeUp n (x / 2) (e + 1) = e + 1 + int j" .
    moreover have "2 \<le> x"
    proof -
      have "(2::real) ^ 1 \<le> 2 ^ k" unfolding Suc by (intro power_increasing) auto
      with Suc.prems(1) show ?thesis by simp
    qed
    ultimately show ?thesis by (simp add: Suc)
  qed
qed

lemma normalizeDown_eq:
  "1 \<le> x * 2 ^ k \<Longrightarrow> x * 2 ^ k < 2 \<Longrightarrow> k \<le> n \<Longrightarrow> normalizeDown n x e = e - int k"
proof (induction n arbitrary: x e k)
  case 0
  then show ?case by simp
next
  case (Suc n)
  show ?case
  proof (cases k)
    case 0
    with Suc.prems show ?thesis by simp
  next
    case (Suc j)
    with Suc.prems have "1 \<le> (x * 2) * 2 ^ j" "(x * 2) * 2 ^ j < 2" "j \<le> n"
      by (auto simp: mult.assoc)
    from Suc.IH [OF this] have "normalizeDown n (x * 2) (e - 1) = e - 1 - int j" .
    moreover have "x < 1"
    proof -
      have "(2::real) ^ 1 \<le> 2 ^ k" unfolding Suc by (intro power_increasing) auto
      then have "x * 2 \<le> x * 2 ^ k" using Suc.prems(1)
        by (intro mult_left_mono) (auto simp: zero_le_mult_iff dest: order_trans [OF zero_le_one])
      with Suc.prems(2) show ?thesis by simp
    qed
    ultimately show ?thesis by (simp add: Suc)
  qed
qed

lemma normalizeDown_zero: "normalizeDown n 0 e = e - int n"
  by (induction n arbitrary: e) auto


lemma binaryExponent_up:
  assumes "2 ^ k \<le> \<bar>x\<bar>" "\<bar>x\<bar> < 2 ^ (k + 1)" "k \<le> 1023"
  shows "binaryExponent x = int k"
proof -
  have "(1::real) \<le> 2 ^ k" by simp
  with assms(1) have "1 \<le> \<bar>x\<bar>" by linarith
  then show ?thesis
    using normalizeUp_eq [OF assms, of 0] by (simp add: binaryExponent_def)
qed

lemma binaryExponent_down:
  assumes "1 \<le> \<bar>x\<bar> * 2 ^ k" "\<bar>x\<bar> * 2 ^ k < 2" "0 < k" "k \<le> 1022"
  shows "binaryExponent x = - int k"
proof -
  have "(2::real) ^ 1 \<le> 2 ^ k" using assms(3) by (intro power_increasing) auto
  then have "\<bar>x\<bar> * 2 \<le> \<bar>x\<bar> * 2 ^ k" by (intro mult_left_mono) auto
  with assms(2) have "\<bar>x\<bar> < 1" by simp
  then show ?thesis
    using normalizeDown_eq [OF assms(1,2,4), of 0] by (simp add: binaryExponent_def)
qed

lemma binaryExponent_zero: "binaryExponent 0 = - 1022"
  by (simp add: binaryExponent_def normalizeDown_zero)

lemma roundToDouble_zero: "roundToDouble 0 = 0"
  by (simp add: roundToDouble_def roundTiesToEven_def)

lemma roundTiesToEven_near:
  assumes "\<bar>y - of_int m\<bar> < 1 / 2"
  shows "roundTiesToEven y = m"
proof -
  from assms have lo: "of_int m - 1 / 2 < y" and hi: "y < of_int m + 1 / 2" by linarith+
  show ?thesis
  proof (cases "of_int m \<le> y")
    case True
    with hi have "\<lfloor>y\<rfloor> = m" by (intro floor_unique) auto
    with hi show ?thesis by (simp add: roundTiesToEven_def Let_def)
  next
    case False
    with lo have f: "\<lfloor>y\<rfloor> = m - 1" by (intro floor_unique) auto
    with lo show ?thesis by (simp add: roundTiesToEven_def Let_def)
  qed
qed

lemma roundToDouble_near:
  assumes "binaryExponent x = e" "\<bar>x / 2 powi (e - 52) - of_int m\<bar> < 1 / 2"
  shows "roundToDouble x = of_int m * 2 powi (e - 52)"
  using roundTiesToEven_near [OF assms(2)] by (simp add: roundToDouble_def assms(1))

text \<open>The rounding moves a number by at most half of the spacing of its binade, and it
  leaves a multiple of that spacing as it is.\<close>

lemma roundToDouble_exact:
  assumes "x = of_int m * 2 powi (binaryExponent x - 52)"
  shows "roundToDouble x = x"
proof -
  have "x / 2 powi (binaryExponent x - 52) = of_int m"
    by (subst assms) simp
  then have "\<bar>x / 2 powi (binaryExponent x - 52) - of_int m\<bar> < 1 / 2" by simp
  from roundToDouble_near [OF refl this] assms show ?thesis by simp
qed

lemma roundTiesToEven_error: "\<bar>of_int (roundTiesToEven y) - y\<bar> \<le> 1 / 2"
proof -
  have "of_int \<lfloor>y\<rfloor> \<le> y" "y < of_int \<lfloor>y\<rfloor> + 1" by linarith+
  then show ?thesis by (auto simp: roundTiesToEven_def Let_def)
qed

lemma roundToDouble_error:
  "\<bar>roundToDouble x - x\<bar> \<le> 2 powi (binaryExponent x - 52) / 2"
proof -
  define q :: real where "q = 2 powi (binaryExponent x - 52)"
  define m :: real where "m = of_int (roundTiesToEven (x / q))"
  have q: "0 < q" by (simp add: q_def)
  have "\<bar>roundToDouble x - x\<bar> = \<bar>m * q - x\<bar>"
    by (simp add: roundToDouble_def q_def m_def Let_def)
  also have "m * q - x = (m - x / q) * q"
    using q by (simp add: algebra_simps)
  also have "\<bar>(m - x / q) * q\<bar> = \<bar>m - x / q\<bar> * q"
    using q by (simp add: abs_mult)
  also have "\<dots> \<le> 1 / 2 * q"
    using roundTiesToEven_error [of "x / q"] q unfolding m_def by (intro mult_right_mono) auto
  finally show ?thesis by (simp add: q_def)
qed

text \<open>The spacing of a binade is at most \<open>2 powi - 52\<close> times the number, outside the
  lowest binade; so the rounding moves a number \<open>x\<close> by at most
  \<open>\<bar>x\<bar> * 2 powi - 53 + 2 powi - 1075\<close>.\<close>

lemma normalizeUp_lower: "1 \<le> x \<Longrightarrow> 2 powi (normalizeUp n x e - e) \<le> x"
proof (induction n arbitrary: x e)
  case 0
  then show ?case by simp
next
  case (Suc n)
  show ?case
  proof (cases "2 \<le> x")
    case True
    then have "1 \<le> x / 2" by simp
    from Suc.IH [OF this, of "e + 1"]
    have "2 powi (normalizeUp n (x / 2) (e + 1) - e - 1) \<le> x / 2" by (simp add: algebra_simps)
    then have "2 powi (normalizeUp n (x / 2) (e + 1) - e - 1) * 2 \<le> x" by simp
    moreover have "(2::real) powi (normalizeUp n (x / 2) (e + 1) - e - 1) * 2
                     = 2 powi (normalizeUp n (x / 2) (e + 1) - e)"
      using power_int_add [of "2::real" "normalizeUp n (x / 2) (e + 1) - e - 1" 1] by simp
    ultimately show ?thesis using True by simp
  next
    case False
    with Suc.prems show ?thesis by simp
  qed
qed

lemma normalizeDown_lower:
  "normalizeDown n x e \<noteq> e - int n \<Longrightarrow> 2 powi (normalizeDown n x e - e) \<le> x"
proof (induction n arbitrary: x e)
  case 0
  then show ?case by simp
next
  case (Suc n)
  show ?case
  proof (cases "x < 1")
    case True
    with Suc.prems have "normalizeDown n (x * 2) (e - 1) \<noteq> (e - 1) - int n" by simp
    from Suc.IH [OF this]
    have "2 powi (normalizeDown n (x * 2) (e - 1) - e + 1) \<le> x * 2" by (simp add: algebra_simps)
    moreover have "(2::real) powi (normalizeDown n (x * 2) (e - 1) - e + 1)
                     = 2 powi (normalizeDown n (x * 2) (e - 1) - e) * 2"
      using power_int_add [of "2::real" "normalizeDown n (x * 2) (e - 1) - e" 1] by simp
    ultimately show ?thesis using True by simp
  next
    case False
    then show ?thesis by simp
  qed
qed

lemma binaryExponent_lower:
  assumes "binaryExponent x \<noteq> - 1022"
  shows "2 powi binaryExponent x \<le> \<bar>x\<bar>"
proof (cases "1 \<le> \<bar>x\<bar>")
  case True
  from normalizeUp_lower [OF True, of 1023 0] True show ?thesis
    by (simp add: binaryExponent_def)
next
  case False
  with assms have "normalizeDown 1022 \<bar>x\<bar> 0 \<noteq> 0 - int 1022"
    by (simp add: binaryExponent_def)
  from normalizeDown_lower [OF this] False show ?thesis
    by (simp add: binaryExponent_def)
qed

lemma roundToDouble_relative:
  "\<bar>roundToDouble x - x\<bar> \<le> \<bar>x\<bar> * 2 powi - 53 + 2 powi - 1075"
proof (cases "binaryExponent x = - 1022")
  case True
  have "(2::real) powi (- 1022 - 52) / 2 = 2 powi - 1075"
    using power_int_add [of "2::real" "- 1075" 1] by simp
  with roundToDouble_error [of x] True have "\<bar>roundToDouble x - x\<bar> \<le> 2 powi - 1075" by simp
  moreover have "0 \<le> \<bar>x\<bar> * 2 powi - 53" by simp
  ultimately show ?thesis by linarith
next
  case False
  have "(2::real) powi (binaryExponent x - 52) / 2 = 2 powi binaryExponent x * 2 powi - 53"
    using power_int_add [of "2::real" "binaryExponent x" "- 53"]
      power_int_add [of "2::real" "binaryExponent x - 53" 1] by simp
  also have "\<dots> \<le> \<bar>x\<bar> * 2 powi - 53"
    using binaryExponent_lower [OF False] by (intro mult_right_mono) auto
  finally have "\<bar>roundToDouble x - x\<bar> \<le> \<bar>x\<bar> * 2 powi - 53"
    using roundToDouble_error [of x] by linarith
  moreover have "(0::real) \<le> 2 powi - 1075" by simp
  ultimately show ?thesis by linarith
qed

text \<open>A number halfway between two doubles goes to the one with the even significand:
  \<open>2 ^ 53 + 1\<close> down to \<open>2 ^ 53\<close>, and \<open>2 ^ 53 + 3\<close> up to \<open>2 ^ 53 + 4\<close>.\<close>

lemma roundTiesToEven_tie:
  "roundTiesToEven (of_int f + 1 / 2) = (if even f then f else f + 1)"
proof -
  have "\<lfloor>real_of_int f + 1 / 2\<rfloor> = f" by (intro floor_unique) auto
  then show ?thesis by (simp add: roundTiesToEven_def Let_def)
qed

lemma roundToDouble_ties:
  "roundToDouble 9007199254740993 = 9007199254740992"
  "roundToDouble 9007199254740995 = 9007199254740996"
proof -
  have e: "binaryExponent 9007199254740993 = 53" "binaryExponent 9007199254740995 = 53"
    using binaryExponent_up [of 53 9007199254740993] binaryExponent_up [of 53 9007199254740995]
    by simp_all
  have t: "(9007199254740993 :: real) / 2 = of_int 4503599627370496 + 1 / 2"
    "(9007199254740995 :: real) / 2 = of_int 4503599627370497 + 1 / 2"
    by simp_all
  show "roundToDouble 9007199254740993 = 9007199254740992"
    by (simp add: roundToDouble_def e t roundTiesToEven_tie del: of_int_numeral)
  show "roundToDouble 9007199254740995 = 9007199254740996"
    by (simp add: roundToDouble_def e t roundTiesToEven_tie del: of_int_numeral)
qed

text \<open>The quotients and products of the examples: 0.2 * 60 is 12, and
  0.5166666666666667 * 60 is 31.000000000000004.\<close>

lemma binaryExponent_examples:
  "binaryExponent (31 / 60) = - 1" "binaryExponent (1 / 5) = - 3"
  "binaryExponent 480 = 8" "binaryExponent 60 = 5" "binaryExponent 31 = 4"
  "binaryExponent 12 = 3" "binaryExponent 8 = 3"
  using binaryExponent_down [of "31 / 60" 1] binaryExponent_down [of "1 / 5" 3]
    binaryExponent_up [of 8 480] binaryExponent_up [of 5 60] binaryExponent_up [of 4 31]
    binaryExponent_up [of 3 12] binaryExponent_up [of 3 8]
  by simp_all

lemma roundToDouble_examples:
  "roundToDouble (31 / 60) = 4653719614949513 / 9007199254740992"
  "roundToDouble (1 / 5) = 3602879701896397 / 18014398509481984"
  "roundToDouble 480 = 480" "roundToDouble 60 = 60" "roundToDouble 31 = 31"
  "roundToDouble 12 = 12" "roundToDouble 8 = 8"
  using roundToDouble_near [of "31 / 60" "- 1" 4653719614949513]
    roundToDouble_near [of "1 / 5" "- 3" 7205759403792794]
    roundToDouble_near [of 480 8 "480 * 2 ^ 44"]
    roundToDouble_near [of 60 5 "60 * 2 ^ 47"]
    roundToDouble_near [of 31 4 "31 * 2 ^ 48"]
    roundToDouble_near [of 12 3 "12 * 2 ^ 49"]
    roundToDouble_near [of 8 3 "8 * 2 ^ 49"]
  by (simp_all add: binaryExponent_examples power_int_minus)

lemma binaryExponent_products:
  "binaryExponent (69805794224242695 / 2251799813685248) = 4"
  "binaryExponent (54043195528445955 / 4503599627370496) = 3"
  "binaryExponent (4653719614949513 / 9007199254740992) = - 1"
  "binaryExponent (3602879701896397 / 18014398509481984) = - 3"
  using binaryExponent_up [of 4 "69805794224242695 / 2251799813685248"]
    binaryExponent_up [of 3 "54043195528445955 / 4503599627370496"]
    binaryExponent_down [of "4653719614949513 / 9007199254740992" 1]
    binaryExponent_down [of "3602879701896397 / 18014398509481984" 3]
  by simp_all

lemma roundToDouble_products:
  "roundToDouble (69805794224242695 / 2251799813685248) = 8725724278030337 / 281474976710656"
  "roundToDouble (54043195528445955 / 4503599627370496) = 12"
  "roundToDouble (4653719614949513 / 9007199254740992) = 4653719614949513 / 9007199254740992"
  "roundToDouble (3602879701896397 / 18014398509481984)
     = 3602879701896397 / 18014398509481984"
  using roundToDouble_near [of "69805794224242695 / 2251799813685248" 4 8725724278030337]
    roundToDouble_near [of "54043195528445955 / 4503599627370496" 3 "12 * 2 ^ 49"]
    roundToDouble_near [of "4653719614949513 / 9007199254740992" "- 1" 4653719614949513]
    roundToDouble_near [of "3602879701896397 / 18014398509481984" "- 3" 7205759403792794]
  by (simp_all add: binaryExponent_products power_int_minus)

lemma double_examples:
  "doubleTimes (doubleDivide 0 60) 60 = 0"
  "doubleTimes (doubleDivide 12 60) 60 = 12"
  "doubleTimes (doubleDivide 31 60) 60 = 8725724278030337 / 281474976710656"
  "doubleTimes 8 60 = 480" "doubleTimes 0 60 = 0"
  by (simp_all add: doubleTimes_def doubleDivide_def roundToDouble_zero roundToDouble_examples
      roundToDouble_products)

lemma travelMinutes_examples:
  "travelMinutes 0 = 0" "travelMinutes 12 = 12" "travelMinutes 31 = 32"
  by (simp_all add: travelMinutes_def double_examples)

lemma expectedArrivalTime_eq:
  "expectedArrivalTime busy e = addMinutesToTime busy (travelMinutes e)"
  by (simp add: expectedArrivalTime_def travelMinutes_def)

text \<open>The four roundings of lines 88-89 (the distance, the quotient, the quotient as an
  operand, the product) move a distance of at most \<open>2 ^ 40\<close> km by less than 1: the
  minutes are the ceiling of the distance, or one less, or one more.\<close>

lemma travel_error:
  fixes e a b b2 c u h :: real
  assumes u: "u = 1 / 2 ^ 53" and h: "0 \<le> h" "h \<le> u"
      and e: "\<bar>e\<bar> \<le> 2 ^ 40"
      and a: "\<bar>a - e\<bar> \<le> \<bar>e\<bar> * u + h"
      and b: "\<bar>b - a / 60\<bar> \<le> \<bar>a / 60\<bar> * u + h"
      and b2: "\<bar>b2 - b\<bar> \<le> \<bar>b\<bar> * u + h"
      and c: "\<bar>c - b2 * 60\<bar> \<le> \<bar>b2 * 60\<bar> * u + h"
  shows "\<bar>c - e\<bar> < 1"
proof -
  define t :: real where "t = 2 ^ 41 * u"
  define m :: real where "m = 2 ^ 40"
  have u0: "0 \<le> u" by (simp add: u)
  have step: "\<bar>y\<bar> * u \<le> k * u" if "\<bar>y\<bar> \<le> k" for y k :: real
    using that u0 by (rule mult_right_mono)
  have t: "0 \<le> t" "u \<le> t" "400 * t < 1" by (simp_all add: t_def u)
  have m: "60 \<le> m" by (simp add: m_def)
  have mu: "(2 * m) * u = t" "(128 * (2 * m)) * u = 128 * t"
    by (simp_all add: t_def m_def)
  from e have e0: "\<bar>e\<bar> \<le> m" by (simp add: m_def)
  then have e1: "\<bar>e\<bar> \<le> 2 * m" using m by linarith
  from step [OF e1] a h(2) t(2) have a1: "\<bar>a - e\<bar> \<le> 2 * t"
    unfolding mu by linarith
  from a1 e0 t m have a0: "\<bar>a\<bar> \<le> 2 * m" by linarith
  have a60: "\<bar>a / 60\<bar> * 60 = \<bar>a\<bar>" by simp
  with a0 m have a2: "\<bar>a / 60\<bar> \<le> 2 * m" by linarith
  from step [OF a2] b h(2) t(2) have b1: "\<bar>b - a / 60\<bar> \<le> 2 * t"
    unfolding mu by linarith
  from b1 a60 a0 t m have b0: "\<bar>b\<bar> \<le> 2 * m" by linarith
  from step [OF b0] b2 h(2) t(2) have b4: "\<bar>b2 - b\<bar> \<le> 2 * t"
    unfolding mu by linarith
  from b4 b0 t m have b20: "\<bar>b2\<bar> \<le> 4 * m" by linarith
  have b260: "\<bar>b2 * 60\<bar> = \<bar>b2\<bar> * 60" by (simp add: abs_mult)
  with b20 m have b5: "\<bar>b2 * 60\<bar> \<le> 128 * (2 * m)" by linarith
  from step [OF b5] c h(2) t(2) have c1: "\<bar>c - b2 * 60\<bar> \<le> 129 * t"
    unfolding mu by linarith
  have "b2 * 60 - b * 60 = (b2 - b) * 60" by (simp add: left_diff_distrib)
  then have "\<bar>b2 * 60 - b * 60\<bar> = \<bar>b2 - b\<bar> * \<bar>60\<bar>" by (simp only: abs_mult)
  with b4 have s1: "\<bar>b2 * 60 - b * 60\<bar> \<le> 120 * t" by simp
  have "b * 60 - a = (b - a / 60) * 60" by (simp add: left_diff_distrib)
  then have "\<bar>b * 60 - a\<bar> = \<bar>b - a / 60\<bar> * \<bar>60\<bar>" by (simp only: abs_mult)
  with b1 have s2: "\<bar>b * 60 - a\<bar> \<le> 120 * t" by simp
  have "\<bar>c - e\<bar> \<le> \<bar>c - b2 * 60\<bar> + \<bar>b2 * 60 - b * 60\<bar> + \<bar>b * 60 - a\<bar> + \<bar>a - e\<bar>"
    by linarith
  with a1 s1 s2 c1 have "\<bar>c - e\<bar> \<le> 371 * t" by linarith
  with t(3) show ?thesis by linarith
qed

lemma travelMinutes_near:
  assumes "\<bar>e\<bar> \<le> 2 ^ 40"
  shows "\<lceil>e\<rceil> - 1 \<le> travelMinutes e \<and> travelMinutes e \<le> \<lceil>e\<rceil> + 1"
proof -
  define u :: real where "u = 2 powi - 53"
  define h :: real where "h = 2 powi - 1075"
  define a where "a = roundToDouble e"
  define b where "b = roundToDouble (a / 60)"
  define b2 where "b2 = roundToDouble b"
  define c where "c = roundToDouble (b2 * 60)"
  have u: "u = 1 / 2 ^ 53" by (simp add: u_def power_int_minus)
  have h: "0 \<le> h" "h \<le> u"
    unfolding h_def u_def by (simp, intro power_int_increasing) auto
  have r: "\<bar>roundToDouble x - x\<bar> \<le> \<bar>x\<bar> * u + h" for x
    unfolding u_def h_def by (rule roundToDouble_relative)
  have "\<bar>c - e\<bar> < 1"
    by (rule travel_error [OF u h assms, of a b b2 c])
       (simp_all only: a_def b_def b2_def c_def r)
  then have lo: "e - 1 < c" and hi: "c < e + 1" by linarith+
  have t: "travelMinutes e = \<lceil>c\<rceil>"
    by (simp add: travelMinutes_def doubleTimes_def doubleDivide_def roundToDouble_examples
        c_def b2_def b_def a_def)
  from lo have "\<lceil>e - 1\<rceil> \<le> \<lceil>c\<rceil>" by (intro ceiling_mono) simp
  moreover from hi have "\<lceil>c\<rceil> \<le> \<lceil>e + 1\<rceil>" by (intro ceiling_mono) simp
  ultimately show ?thesis by (simp add: t)
qed

section \<open>Properties of the sort\<close>

lemma compareRides_le_iff: "compareRides a b \<le> 0 \<longleftrightarrow> rideOrderKey a \<le> rideOrderKey b"
  by (auto simp: compareRides_def localeCompare_def rideOrderKey_def)

lemma insertByComparator_insort_key:
  "insertByComparator compareRides x ys = insort_key rideOrderKey x ys"
  by (induction ys) (simp_all add: compareRides_le_iff)

lemma arraySort_sort_key: "arraySort compareRides xs = sort_key rideOrderKey xs"
proof -
  have "insertByComparator compareRides = insort_key rideOrderKey"
    by (intro ext) (rule insertByComparator_insort_key)
  then show ?thesis by (simp add: arraySort_def sort_key_def)
qed

lemma sortRides_sort_key: "sortRides rides = sort_key rideOrderKey rides"
  by (simp add: sortRides_def arraySort_sort_key)

lemma rideOrderKey_ascending: "rideOrderKey a \<le> rideOrderKey b \<longleftrightarrow> ridesAscending a b"
  by (auto simp: rideOrderKey_def ridesAscending_def)

section \<open>Properties of the geometric distance\<close>

lemma haversineDistance_same: "haversineDistance p p = 0"
  by (cases p) (simp add: haversineDistance_def toRadians_def atan2_def)

lemma haversineDistance_poles: "haversineDistance (- 90, 0) (90, 0) = 6371 * pi"
  by (simp add: haversineDistance_def toRadians_def atan2_def)

lemma atan2_nonneg:
  assumes "0 \<le> y"
  shows "0 \<le> atan2 y x"
proof -
  consider "x > 0" | "x < 0" | "x = 0" by linarith
  then show ?thesis
  proof cases
    case 1
    with assms have "0 \<le> y / x" by simp
    then show ?thesis using 1 by (simp add: atan2_def zero_le_arctan_iff)
  next
    case 2
    have "- (pi / 2) < arctan (y / x)" by (rule arctan_lbound)
    then have "0 \<le> arctan (y / x) + pi" using pi_gt_zero by linarith
    then show ?thesis using 2 assms by (simp add: atan2_def)
  next
    case 3
    then show ?thesis using assms by (simp add: atan2_def)
  qed
qed

section \<open>Properties of the resolver\<close>

lemma resolver_cached:
  "distanceCache st (a, b) = Some v \<Longrightarrow> getDistanceFromOSRM osrm st a b t = (v, st)"
  by (simp add: getDistanceFromOSRM_def getDistanceCacheKey_def)

lemma resolver_caches:
  "distanceCache (snd (getDistanceFromOSRM osrm st a b t)) (a, b)
     = Some (fst (getDistanceFromOSRM osrm st a b t))"
  by (auto simp: getDistanceFromOSRM_def getDistanceCacheKey_def cacheSet_def Let_def
      split: option.splits osrm_response.splits list.splits js_route.splits)

lemma resolver_keeps:
  "distanceCache st k = Some v \<Longrightarrow>
   distanceCache (snd (getDistanceFromOSRM osrm st a b t)) k = Some v"
  by (auto simp: getDistanceFromOSRM_def getDistanceCacheKey_def cacheSet_def Let_def
      split: option.splits osrm_response.splits list.splits js_route.splits)

lemma resolver_calls:
  "osrmCalls (snd (getDistanceFromOSRM osrm st a b t)) \<le> osrmCalls st + 1"
  by (auto simp: getDistanceFromOSRM_def getDistanceCacheKey_def cacheSet_def Let_def
      split: option.splits osrm_response.splits list.splits js_route.splits)

lemma resolver_above:
  "distanceCache st (a, b) = None \<Longrightarrow> haversineDistance a b > t \<Longrightarrow>
   getDistanceFromOSRM osrm st a b t =
     (Num (haversineDistance a b),
      st\<lparr>distanceCache := (distanceCache st)((a, b) \<mapsto> Num (haversineDistance a b))\<rparr>)"
  by (simp add: getDistanceFromOSRM_def getDistanceCacheKey_def cacheSet_def Let_def)

text \<open>Where the query throws, or its response has no first route to read a distance from,
  the resolver caches and returns the geometric distance.\<close>

lemma resolver_fallback:
  assumes "distanceCache st (a, b) = None"
      and "osrm a b = Rejected \<or> osrm a b = Response None \<or> osrm a b = Response (Some [])
           \<or> (\<exists>rest. osrm a b = Response (Some (NoObject # rest)))"
  shows "fst (getDistanceFromOSRM osrm st a b t) = Num (haversineDistance a b)"
    and "distanceCache (snd (getDistanceFromOSRM osrm st a b t)) (a, b)
           = Some (Num (haversineDistance a b))"
  using assms
  by (auto simp: getDistanceFromOSRM_def getDistanceCacheKey_def cacheSet_def Let_def)

text \<open>
  Claim C6. A pair of points that is not in the cache and whose geometric distance exceeds
  the threshold resolves to exactly the geometric distance, with no call of the routing
  service, and the cache then holds that value for the pair. And for every pair of points:
  the first resolution makes at most one call, it leaves the pair in the cache, the cache
  keeps it through the resolution of any other pair, and a later resolution of the same
  pair makes no call and returns the same value, whatever the service would answer.
\<close>

theorem resolver_threshold_and_cache:
  fixes osrm osrm' osrm'' :: osrm_service
  shows "(distanceCache st (getDistanceCacheKey a b) = None \<and> haversineDistance a b > threshold \<longrightarrow>
           fst (getDistanceFromOSRM osrm st a b threshold) = Num (haversineDistance a b) \<and>
           osrmCalls (snd (getDistanceFromOSRM osrm st a b threshold)) = osrmCalls st \<and>
           distanceCache (snd (getDistanceFromOSRM osrm st a b threshold)) (getDistanceCacheKey a b)
             = Some (Num (haversineDistance a b))) \<and>
         (let (v1, st1) = getDistanceFromOSRM osrm st a b threshold;
              (v2, st2) = getDistanceFromOSRM osrm' st1 c d threshold';
              (v3, st3) = getDistanceFromOSRM osrm'' st2 a b threshold''
          in osrmCalls st1 \<le> osrmCalls st + 1 \<and> osrmCalls st3 = osrmCalls st2 \<and> v3 = v1)"
proof -
  obtain v1 st1 where r1: "getDistanceFromOSRM osrm st a b threshold = (v1, st1)" by force
  obtain v2 st2 where r2: "getDistanceFromOSRM osrm' st1 c d threshold' = (v2, st2)" by force
  have c1: "distanceCache st1 (a, b) = Some v1"
    using resolver_caches [of osrm st a b threshold] by (simp add: r1)
  have c2: "distanceCache st2 (a, b) = Some v1"
    using resolver_keeps [OF c1, of osrm' c d threshold'] by (simp add: r2)
  have r3: "getDistanceFromOSRM osrm'' st2 a b threshold'' = (v1, st2)"
    by (rule resolver_cached [OF c2])
  have n1: "osrmCalls st1 \<le> osrmCalls st + 1"
    using resolver_calls [of osrm st a b threshold] by (simp add: r1)
  have above: "v1 = Num (haversineDistance a b) \<and> osrmCalls st1 = osrmCalls st"
    if "distanceCache st (a, b) = None" "haversineDistance a b > threshold"
    using resolver_above [OF that, of osrm] by (auto simp: r1)
  show ?thesis
    using n1 c1 above by (auto simp: r1 r2 r3 getDistanceCacheKey_def)
qed

text \<open>The two poles are 6371 * pi kilometres apart: with the default threshold 30 and an
  empty cache they resolve to that distance and the counter of calls stays at 0.\<close>

theorem resolver_threshold_and_cache_witness:
  "distanceCache \<lparr>distanceCache = Map.empty, osrmCalls = 0\<rparr>
       (getDistanceCacheKey (- 90, 0) (90, 0)) = None \<and>
   haversineDistance (- 90, 0) (90, 0) > 30 \<and>
   getDistanceFromOSRM (\<lambda>a b. Response (Some [RouteObject (Num 5)]))
       \<lparr>distanceCache = Map.empty, osrmCalls = 0\<rparr> (- 90, 0) (90, 0) 30
     = (Num (6371 * pi),
        \<lparr>distanceCache = [((- 90, 0), (90, 0)) \<mapsto> Num (6371 * pi)], osrmCalls = 0\<rparr>)"
proof -
  have far: "haversineDistance (- 90, 0) (90, 0) > 30"
    using pi_ge_two by (simp add: haversineDistance_poles)
  have miss: "distanceCache \<lparr>distanceCache = Map.empty, osrmCalls = 0\<rparr>
                (getDistanceCacheKey (- 90, 0) (90, 0)) = None"
    by simp
  from resolver_threshold_and_cache
    [of "\<lparr>distanceCache = Map.empty, osrmCalls = 0\<rparr>" "(- 90, 0)" "(90, 0)" 30
        "\<lambda>a b. Response (Some [RouteObject (Num 5)])"]
    miss far
  have "fst (getDistanceFromOSRM (\<lambda>a b. Response (Some [RouteObject (Num 5)]))
           \<lparr>distanceCache = Map.empty, osrmCalls = 0\<rparr> (- 90, 0) (90, 0) 30)
          = Num (haversineDistance (- 90, 0) (90, 0))"
    by blast
  then show ?thesis
    using far miss
    by (simp add: getDistanceFromOSRM_def getDistanceCacheKey_def cacheSet_def Let_def
        haversineDistance_poles)
qed

text \<open>
  Claim C7 says that the resolver returns the geometric distance whenever the routed query
  fails, a malformed response included. It does so when the query throws and when the
  response has no route (\<open>resolver_fallback\<close>). It does not when the first route of the
  response has no numeric \<^verbatim>\<open>distance\<close>: for the response \<^verbatim>\<open>{routes: [{}]}\<close> to a query
  from a point to itself, the resolver returns and caches \<^verbatim>\<open>NaN\<close>, where the geometric
  distance is 0.
\<close>

theorem resolver_route_without_distance:
  "getDistanceFromOSRM (\<lambda>a b. Response (Some [RouteObject NaN]))
       \<lparr>distanceCache = Map.empty, osrmCalls = 0\<rparr> (32, 34.8) (32, 34.8) 30
     = (NaN, \<lparr>distanceCache = [((32, 34.8), (32, 34.8)) \<mapsto> NaN], osrmCalls = 1\<rparr>) \<and>
   haversineDistance (32, 34.8) (32, 34.8) = 0"
  by (simp add: getDistanceFromOSRM_def getDistanceCacheKey_def cacheSet_def haversineDistance_same)

lemma haversineDistance_equator:
  assumes "\<bar>y - x\<bar> < 180"
  shows "haversineDistance (0, x) (0, y) = 6371 * toRadians \<bar>y - x\<bar>"
proof -
  define phi where "phi = toRadians \<bar>y - x\<bar> / 2"
  have phi0: "0 \<le> phi" by (simp add: phi_def toRadians_def)
  have "toRadians \<bar>y - x\<bar> < pi" using assms pi_gt_zero by (simp add: toRadians_def)
  then have phi1: "phi < pi / 2" by (simp add: phi_def)
  have s0: "0 \<le> sin phi" using phi0 phi1 pi_gt_zero by (intro sin_ge_zero) linarith+
  have c0: "0 < cos phi" using phi0 phi1 pi_gt_zero by (intro cos_gt_zero_pi) linarith+
  have sq: "sin (toRadians (y - x) / 2) * sin (toRadians (y - x) / 2) = sin phi * sin phi"
  proof (cases "0 \<le> y - x")
    case True
    then show ?thesis by (simp add: phi_def)
  next
    case False
    then have "\<bar>y - x\<bar> = - (y - x)" by simp
    then have "phi = toRadians (- (y - x)) / 2" by (simp only: phi_def)
    also have "toRadians (- (y - x)) = - toRadians (y - x)"
      unfolding toRadians_def by (rule mult_minus_left)
    finally have "phi = - (toRadians (y - x) / 2)" by simp
    then show ?thesis by simp
  qed
  have r1: "sqrt (sin phi * sin phi) = sin phi" using s0 by simp
  have "1 - sin phi * sin phi = cos phi * cos phi"
    using sin_cos_squared_add [of phi] by (simp add: power2_eq_square algebra_simps)
  then have r2: "sqrt (1 - sin phi * sin phi) = cos phi" using c0 by simp
  have "atan2 (sin phi) (cos phi) = arctan (tan phi)" using c0 by (simp add: atan2_def tan_def)
  also have "\<dots> = phi" using phi0 phi1 pi_gt_zero by (intro arctan_tan) linarith+
  finally have at: "atan2 (sin phi) (cos phi) = phi" .
  have z: "toRadians 0 = 0" by (simp add: toRadians_def)
  have "\<bar>sin (toRadians (y - x) / 2)\<bar> * \<bar>sin (toRadians (y - x) / 2)\<bar> = sin phi * sin phi"
    using sq by (simp add: abs_mult_self_eq)
  then have ab: "\<bar>sin (toRadians (y - x) / 2)\<bar> = \<bar>sin phi\<bar>"
    by (metis abs_mult_self_eq abs_eq_iff' real_sqrt_abs2 real_sqrt_mult_self)
  have "haversineDistance (0, x) (0, y)
          = 6371 * (2 * atan2 (sqrt (sin phi * sin phi)) (sqrt (1 - sin phi * sin phi)))"
    by (simp add: haversineDistance_def Let_def z sq ab)
  also have "\<dots> = 6371 * (2 * phi)" by (simp only: r1 r2 at)
  also have "\<dots> = 6371 * toRadians \<bar>y - x\<bar>" by (simp add: phi_def)
  finally show ?thesis .
qed

section \<open>Properties of the evaluation of a driver\<close>

lemma legDistance_frame:
  "legDistance osrm st a b = (v, st') \<Longrightarrow>
   assignments st' = assignments st \<and> driverAvailability st' = driverAvailability st \<and>
   totalCost st' = totalCost st"
  by (auto simp: legDistance_def Let_def split: if_splits prod.splits)

lemma evaluateDriver_frame:
  "evaluateDriver osrm st r d = Inr (ev, st') \<Longrightarrow>
   assignments st' = assignments st \<and> driverAvailability st' = driverAvailability st \<and>
   totalCost st' = totalCost st"
  unfolding evaluateDriver_def
  by (auto simp: Let_def split: if_splits option.splits sum.splits bool.splits prod.splits
      dest!: legDistance_frame)

lemma isDriverOnShift_iff: "isDriverOnShift d (startTime r) (endTime r) = withinShift d r"
  by (auto simp: isDriverOnShift_def withinShift_def isTimeInRange_def Let_def split: option.splits)

lemma isAddressBlocked_iff:
  "(\<not> isAddressBlocked d (startPoint r) \<and> \<not> isAddressBlocked d (endPoint r)) = avoidsBlocked d r"
  by (auto simp: isAddressBlocked_def avoidsBlocked_def stringIncludes_def list_ex_iff
      split: option.splits)

lemma wouldExceedDailyHours_iff:
  "wouldExceedDailyHours (Some a) d r = Inr (\<not> withinDailyCap d a r)"
  by (auto simp: wouldExceedDailyHours_def withinDailyCap_def workedMinutes_def rideMinutes_def
      getTimeDifferenceInMinutes_def timeToMinutes_def Let_def split: option.splits)

lemma arrivesLate_iff: "arrivesLate (busyUntil av) e (startTime r) = (\<not> reachesInTime av e r)"
  by (auto simp: arrivesLate_def reachesInTime_def expectedArrivalTime_eq split: jsnum.splits)

lemma getTimeDifferenceInMinutes_eq:
  "getTimeDifferenceInMinutes (startTime r) (endTime r) = rideMinutes r"
  by (simp add: getTimeDifferenceInMinutes_def rideMinutes_def timeToMinutes_def)

lemma evaluateDriver_eq:
  assumes "driverAvailability st (driverId d) = Some av"
      and "find (\<lambda>a. entryDriverId a = driverId d) (assignments st) = Some a"
  shows "evaluateDriver osrm st r d =
     (if \<not> (seatsSuffice d r \<and> freeByStart av r \<and> withinShift d r \<and> avoidsBlocked d r \<and>
              withinDailyCap d a r)
      then Inr (None, st)
      else
        (case legDistance osrm st (lastRideEndPoint_coords av) (startPoint_coords r) of
           (e, st1) \<Rightarrow>
             if \<not> reachesInTime av e r then Inr (None, st1)
             else
               (case legDistance osrm st1 (startPoint_coords r) (endPoint_coords r) of
                  (rd, st2) \<Rightarrow>
                    Inr (Some \<lparr>emptyRideDistance = e,
                               rideDistance = rd,
                               driverTimeCost = real_of_int (rideMinutes r) / 60 * 30,
                               rideFuelCost = jsTimes rd (fuelCost d),
                               emptyRideFuelCost = jsTimes e (fuelCost d),
                               totalAssignmentCost =
                                 jsPlus (jsPlus (Num (real_of_int (rideMinutes r) / 60 * 30))
                                           (jsTimes rd (fuelCost d)))
                                        (jsTimes e (fuelCost d))\<rparr>, st2))))"
proof -
  have blocked: "(isAddressBlocked d (startPoint r) \<or> isAddressBlocked d (endPoint r))
                   = (\<not> avoidsBlocked d r)"
    using isAddressBlocked_iff [of d r] by blast
  show ?thesis
    unfolding evaluateDriver_def assms blocked isDriverOnShift_iff wouldExceedDailyHours_iff
      arrivesLate_iff getTimeDifferenceInMinutes_eq
    by (simp add: Let_def seatsSuffice_def freeByStart_def split: prod.splits)
qed

lemma evaluateDriver_feasible:
  assumes "driverAvailability st (driverId d) = Some av"
      and "find (\<lambda>a. entryDriverId a = driverId d) (assignments st) = Some a"
  shows "costEvaluated (evaluateDriver osrm st r d) = feasible osrm st av a d r"
  unfolding evaluateDriver_eq [OF assms]
  by (auto simp: costEvaluated_def feasible_def emptyLeg_def split: prod.splits)

section \<open>Properties of the loop over the drivers\<close>

lemma find_Some_covers:
  "\<exists>a \<in> set as. entryDriverId a = i \<Longrightarrow> \<exists>a. find (\<lambda>a. entryDriverId a = i) as = Some a"
  by (induction as) auto

lemma evaluateDriver_total:
  assumes "covers drivers st" "d \<in> set drivers"
  shows "\<exists>ev st'. evaluateDriver osrm st r d = Inr (ev, st')"
proof -
  from assms obtain av where av: "driverAvailability st (driverId d) = Some av"
    by (auto simp: covers_def)
  from assms obtain a where a: "find (\<lambda>a. entryDriverId a = driverId d) (assignments st) = Some a"
    using find_Some_covers [of "assignments st" "driverId d"] by (auto simp: covers_def)
  show ?thesis
    unfolding evaluateDriver_eq [OF av a] by (auto split: prod.splits)
qed

lemma covers_frame:
  "assignments st' = assignments st \<Longrightarrow> driverAvailability st' = driverAvailability st \<Longrightarrow>
   covers drivers st' = covers drivers st"
  by (simp add: covers_def)

lemma considerDriver_frame:
  "considerDriver osrm r b st d = Inr (b', st') \<Longrightarrow>
   assignments st' = assignments st \<and> driverAvailability st' = driverAvailability st \<and>
   totalCost st' = totalCost st"
  by (auto simp: considerDriver_def split: sum.splits prod.splits option.splits if_splits
      dest: evaluateDriver_frame)

lemma driverLoop_frame:
  "driverLoop osrm r b st ds = Inr (b', st') \<Longrightarrow>
   assignments st' = assignments st \<and> driverAvailability st' = driverAvailability st \<and>
   totalCost st' = totalCost st"
proof (induction ds arbitrary: b st)
  case Nil
  then show ?case by simp
next
  case (Cons d ds)
  then show ?case
    by (auto split: sum.splits prod.splits dest!: considerDriver_frame)
qed

lemma driverLoop_total:
  assumes "covers drivers st" "set ds \<subseteq> set drivers"
  shows "\<exists>b' st'. driverLoop osrm r b st ds = Inr (b', st')"
  using assms
proof (induction ds arbitrary: b st)
  case Nil
  then show ?case by simp
next
  case (Cons d ds)
  then obtain ev st1 where ev: "evaluateDriver osrm st r d = Inr (ev, st1)"
    using evaluateDriver_total [of drivers st d osrm r] by auto
  have "\<exists>b1. considerDriver osrm r b st d = Inr (b1, st1)"
    unfolding considerDriver_def ev by (cases ev) auto
  then obtain b1 where c: "considerDriver osrm r b st d = Inr (b1, st1)" ..
  have "covers drivers st1"
    using evaluateDriver_frame [OF ev] Cons.prems(1) by (simp add: covers_def)
  then show ?case using Cons c by simp
qed

lemma driverLoop_selectBest:
  "driverLoop osrm r b st ds = Inr (b', st') \<Longrightarrow> b' = selectBest b (evaluatedCosts osrm r st ds)"
proof (induction ds arbitrary: b st)
  case Nil
  then show ?case by simp
next
  case (Cons d ds)
  then show ?case
    by (auto simp: considerDriver_def split: sum.splits prod.splits option.splits if_splits)
qed


lemma selectBest_Some:
  "selectBest (Some (i0, c0)) cs = Some (i, c) \<Longrightarrow>
   ((i, c) = (i0, c0) \<and> (\<forall>e \<in> set cs. \<forall>x. snd e = Num x \<longrightarrow> c0 \<le> x)) \<or>
   (c < c0 \<and> isFirstMinimum cs i c)"
proof (induction cs arbitrary: i0 c0)
  case Nil
  then show ?case by simp
next
  case (Cons e cs)
  obtain j v where e: "e = (j, v)" by (cases e)
  show ?case
  proof (cases "costBelow v (Some (i0, c0))")
    case True
    then obtain x where v: "v = Num x" and x: "x < c0"
      by (auto simp: costBelow_def split: jsnum.splits)
    from Cons.prems have sel: "selectBest (Some (j, x)) cs = Some (i, c)"
      using True by (simp add: e v takeCost_def)
    from Cons.IH [OF sel] show ?thesis
    proof
      assume a: "(i, c) = (j, x) \<and> (\<forall>e\<in>set cs. \<forall>y. snd e = Num y \<longrightarrow> x \<le> y)"
      then have "e # cs = [] @ (i, Num c) # cs" by (simp add: e v)
      then have "isFirstMinimum (e # cs) i c"
        unfolding isFirstMinimum_def using a by fastforce
      then show ?thesis using a x by simp
    next
      assume a: "c < x \<and> isFirstMinimum cs i c"
      then obtain before after where d: "cs = before @ (i, Num c) # after"
        and b: "\<forall>e \<in> set before. \<forall>y. snd e = Num y \<longrightarrow> c < y"
        and f: "\<forall>e \<in> set after. \<forall>y. snd e = Num y \<longrightarrow> c \<le> y"
        unfolding isFirstMinimum_def by blast
      have "e # cs = (e # before) @ (i, Num c) # after" by (simp add: d)
      moreover have "\<forall>e' \<in> set (e # before). \<forall>y. snd e' = Num y \<longrightarrow> c < y"
        using b a by (auto simp: e v)
      ultimately have "isFirstMinimum (e # cs) i c"
        unfolding isFirstMinimum_def using f by blast
      then show ?thesis using a x by simp
    qed
  next
    case False
    then have nb: "\<forall>x. v = Num x \<longrightarrow> c0 \<le> x"
      by (auto simp: costBelow_def split: jsnum.splits)
    from Cons.prems have sel: "selectBest (Some (i0, c0)) cs = Some (i, c)"
      using False by (simp add: e)
    from Cons.IH [OF sel] show ?thesis
    proof
      assume a: "(i, c) = (i0, c0) \<and> (\<forall>e\<in>set cs. \<forall>y. snd e = Num y \<longrightarrow> c0 \<le> y)"
      then show ?thesis using nb by (auto simp: e)
    next
      assume a: "c < c0 \<and> isFirstMinimum cs i c"
      then obtain before after where d: "cs = before @ (i, Num c) # after"
        and b: "\<forall>e \<in> set before. \<forall>y. snd e = Num y \<longrightarrow> c < y"
        and f: "\<forall>e \<in> set after. \<forall>y. snd e = Num y \<longrightarrow> c \<le> y"
        unfolding isFirstMinimum_def by blast
      have "e # cs = (e # before) @ (i, Num c) # after" by (simp add: d)
      moreover have "\<forall>e' \<in> set (e # before). \<forall>y. snd e' = Num y \<longrightarrow> c < y"
        using b a nb by (fastforce simp: e)
      ultimately have "isFirstMinimum (e # cs) i c"
        unfolding isFirstMinimum_def using f by blast
      then show ?thesis using a by simp
    qed
  qed
qed

lemma selectBest_None:
  "selectBest None cs = Some (i, c) \<Longrightarrow> isFirstMinimum cs i c"
proof (induction cs)
  case Nil
  then show ?case by simp
next
  case (Cons e cs)
  obtain j v where e: "e = (j, v)" by (cases e)
  show ?case
  proof (cases v)
    case NaN
    with Cons.prems have "selectBest None cs = Some (i, c)"
      by (simp add: e costBelow_def)
    from Cons.IH [OF this] obtain before after where d: "cs = before @ (i, Num c) # after"
        and b: "\<forall>e \<in> set before. \<forall>y. snd e = Num y \<longrightarrow> c < y"
        and f: "\<forall>e \<in> set after. \<forall>y. snd e = Num y \<longrightarrow> c \<le> y"
      unfolding isFirstMinimum_def by blast
    have "e # cs = (e # before) @ (i, Num c) # after" by (simp add: d)
    moreover have "\<forall>e' \<in> set (e # before). \<forall>y. snd e' = Num y \<longrightarrow> c < y"
      using b by (auto simp: e NaN)
    ultimately show ?thesis unfolding isFirstMinimum_def using f by blast
  next
    case (Num x)
    with Cons.prems have sel: "selectBest (Some (j, x)) cs = Some (i, c)"
      by (simp add: e costBelow_def takeCost_def)
    from selectBest_Some [OF sel] show ?thesis
    proof
      assume a: "(i, c) = (j, x) \<and> (\<forall>e\<in>set cs. \<forall>y. snd e = Num y \<longrightarrow> x \<le> y)"
      then have "e # cs = [] @ (i, Num c) # cs" by (simp add: e Num)
      then show ?thesis unfolding isFirstMinimum_def using a by fastforce
    next
      assume a: "c < x \<and> isFirstMinimum cs i c"
      then obtain before after where d: "cs = before @ (i, Num c) # after"
        and b: "\<forall>e \<in> set before. \<forall>y. snd e = Num y \<longrightarrow> c < y"
        and f: "\<forall>e \<in> set after. \<forall>y. snd e = Num y \<longrightarrow> c \<le> y"
        unfolding isFirstMinimum_def by blast
      have "e # cs = (e # before) @ (i, Num c) # after" by (simp add: d)
      moreover have "\<forall>e' \<in> set (e # before). \<forall>y. snd e' = Num y \<longrightarrow> c < y"
        using b a by (auto simp: e Num)
      ultimately show ?thesis unfolding isFirstMinimum_def using f by blast
    qed
  qed
qed

lemma selectBest_Some_Some: "\<exists>p. selectBest (Some q) cs = Some p"
  by (induction cs arbitrary: q) auto

lemma selectBest_None_None:
  "selectBest None cs = None \<Longrightarrow> \<forall>e \<in> set cs. snd e = NaN"
proof (induction cs)
  case Nil
  then show ?case by simp
next
  case (Cons e cs)
  obtain j v where e: "e = (j, v)" by (cases e)
  show ?case
  proof (cases v)
    case NaN
    with Cons show ?thesis by (simp add: e costBelow_def)
  next
    case (Num x)
    with Cons.prems have "selectBest (Some (j, x)) cs = None"
      by (simp add: e costBelow_def takeCost_def)
    then show ?thesis using selectBest_Some_Some [of "(j, x)" cs] by simp
  qed
qed

section \<open>Properties of the loop over the rides\<close>

lemma findIndex_Some:
  "findIndex P xs = Some k \<Longrightarrow> k < length xs \<and> P (xs ! k) \<and> (\<forall>j < k. \<not> P (xs ! j))"
proof (induction xs arbitrary: k)
  case Nil
  then show ?case by simp
next
  case (Cons x xs)
  show ?case
  proof (cases "P x")
    case True
    with Cons.prems show ?thesis by simp
  next
    case False
    with Cons.prems obtain k' where k: "findIndex P xs = Some k'" "k = Suc k'" by auto
    from Cons.IH [OF k(1)] False show ?thesis
      by (auto simp: k(2) less_Suc_eq_0_disj)
  qed
qed

lemma findIndex_exists: "\<exists>x \<in> set xs. P x \<Longrightarrow> \<exists>k. findIndex P xs = Some k"
  by (induction xs) auto

lemma evaluateDriver_SomeD:
  assumes "evaluateDriver osrm st r d = Inr (Some ev, st')"
  shows "\<exists>av. driverAvailability st (driverId d) = Some av \<and>
           seatsSuffice d r \<and> freeByStart av r \<and> withinShift d r \<and> avoidsBlocked d r \<and>
           reachesInTime av (emptyLeg osrm st av r) r \<and>
           emptyRideDistance ev = emptyLeg osrm st av r \<and>
           rideDistance ev =
             fst (legDistance osrm
                   (snd (legDistance osrm st (lastRideEndPoint_coords av) (startPoint_coords r)))
                   (startPoint_coords r) (endPoint_coords r)) \<and>
           driverTimeCost ev = real_of_int (rideMinutes r) / 60 * 30 \<and>
           rideFuelCost ev = jsTimes (rideDistance ev) (fuelCost d) \<and>
           emptyRideFuelCost ev = jsTimes (emptyRideDistance ev) (fuelCost d) \<and>
           totalAssignmentCost ev =
             jsPlus (jsPlus (Num (driverTimeCost ev)) (rideFuelCost ev)) (emptyRideFuelCost ev)"
proof -
  have blocked: "(isAddressBlocked d (startPoint r) \<or> isAddressBlocked d (endPoint r))
                   = (\<not> avoidsBlocked d r)"
    using isAddressBlocked_iff [of d r] by blast
  from assms show ?thesis
    unfolding evaluateDriver_def blocked isDriverOnShift_iff arrivesLate_iff
      getTimeDifferenceInMinutes_eq
    by (auto simp: Let_def seatsSuffice_def freeByStart_def emptyLeg_def
        split: if_splits option.splits sum.splits bool.splits prod.splits)
qed

lemma evaluatedCosts_member:
  "(i, v) \<in> set (evaluatedCosts osrm r st ds) \<Longrightarrow>
   \<exists>d \<in> set ds. \<exists>st1 ev st2. driverId d = i \<and>
      assignments st1 = assignments st \<and> driverAvailability st1 = driverAvailability st \<and>
      evaluateDriver osrm st1 r d = Inr (Some ev, st2) \<and> totalAssignmentCost ev = v"
proof (induction ds arbitrary: st)
  case Nil
  then show ?case by simp
next
  case (Cons d ds)
  show ?case
  proof (cases "evaluateDriver osrm st r d")
    case (Inl e)
    with Cons.prems show ?thesis by simp
  next
    case (Inr p)
    obtain eo st' where p: "p = (eo, st')" by (cases p)
    have fr: "assignments st' = assignments st \<and> driverAvailability st' = driverAvailability st"
      using evaluateDriver_frame [of osrm st r d eo st'] Inr p by simp
    show ?thesis
    proof (cases eo)
      case None
      with Cons.prems Inr p have "(i, v) \<in> set (evaluatedCosts osrm r st' ds)" by simp
      from Cons.IH [OF this] fr show ?thesis by auto
    next
      case (Some ev)
      with Cons.prems Inr p
      consider "(i, v) = (driverId d, totalAssignmentCost ev)"
        | "(i, v) \<in> set (evaluatedCosts osrm r st' ds)" by auto
      then show ?thesis
      proof cases
        case 1
        then show ?thesis using Inr p Some by auto
      next
        case 2
        from Cons.IH [OF this] fr show ?thesis by auto
      qed
    qed
  qed
qed

lemma isFirstMinimum_member: "isFirstMinimum cs i c \<Longrightarrow> (i, Num c) \<in> set cs"
  by (auto simp: isFirstMinimum_def)

lemma chosenDriver_SomeD:
  assumes "chosenDriver osrm drivers st r = Some (i, c)"
  shows "i \<noteq> [] \<and> isFirstMinimum (evaluatedCosts osrm r st drivers) i c \<and>
         (\<exists>st'. driverLoop osrm r None st drivers = Inr (Some (i, c), st'))"
proof -
  from assms obtain st' where dl: "driverLoop osrm r None st drivers = Inr (Some (i, c), st')"
    and ne: "i \<noteq> []"
    by (auto simp: chosenDriver_def split: sum.splits prod.splits option.splits if_splits)
  from driverLoop_selectBest [OF dl] have "selectBest None (evaluatedCosts osrm r st drivers) = Some (i, c)"
    by simp
  from selectBest_None [OF this] dl ne show ?thesis by auto
qed

lemma chosenDriver_evaluated:
  assumes "chosenDriver osrm drivers st r = Some (i, c)"
  shows "\<exists>d \<in> set drivers. \<exists>st1 ev st2. driverId d = i \<and>
      assignments st1 = assignments st \<and> driverAvailability st1 = driverAvailability st \<and>
      evaluateDriver osrm st1 r d = Inr (Some ev, st2) \<and> totalAssignmentCost ev = Num c"
  using chosenDriver_SomeD [OF assms] evaluatedCosts_member isFirstMinimum_member by meson

lemma commitRide_eq:
  "commitRide st r i c =
     (case findIndex (\<lambda>a. entryDriverId a = i) (assignments st) of
        None \<Rightarrow> Inl TypeError
      | Some k \<Rightarrow> Inr (st\<lparr>assignments := (assignments st)[k := committed (assignments st ! k) r],
                          driverAvailability := (driverAvailability st)(i \<mapsto> availabilityAfter r),
                          totalCost := totalCost st + c\<rparr>))"
  by (simp add: commitRide_def committed_def availabilityAfter_def workedMinutes_def Let_def
      getTimeDifferenceInMinutes_eq split: option.splits)

lemma processRide_None:
  assumes "chosenDriver osrm drivers st r = None" "processRide osrm drivers st r = Inr st'"
  shows "assignments st' = assignments st \<and> driverAvailability st' = driverAvailability st \<and>
         totalCost st' = totalCost st"
  using assms
  by (auto simp: chosenDriver_def processRide_def
      split: sum.splits prod.splits option.splits if_splits dest!: driverLoop_frame)

lemma processRide_Some:
  assumes "chosenDriver osrm drivers st r = Some (i, c)" "processRide osrm drivers st r = Inr st'"
  shows "\<exists>k. findIndex (\<lambda>a. entryDriverId a = i) (assignments st) = Some k \<and>
           assignments st' = (assignments st)[k := committed (assignments st ! k) r] \<and>
           driverAvailability st' = (driverAvailability st)(i \<mapsto> availabilityAfter r) \<and>
           totalCost st' = totalCost st + c"
proof -
  from chosenDriver_SomeD [OF assms(1)] obtain st1 where
    dl: "driverLoop osrm r None st drivers = Inr (Some (i, c), st1)" and ne: "i \<noteq> []" by auto
  from driverLoop_frame [OF dl] have fr: "assignments st1 = assignments st"
    "driverAvailability st1 = driverAvailability st" "totalCost st1 = totalCost st" by auto
  from assms(2) have "commitRide st1 r i c = Inr st'"
    by (simp add: processRide_def dl ne)
  then show ?thesis
    by (auto simp: commitRide_eq fr split: option.splits)
qed

lemma processRide_total:
  assumes "covers drivers st"
  shows "\<exists>st'. processRide osrm drivers st r = Inr st' \<and> covers drivers st'"
proof -
  from driverLoop_total [OF assms, of drivers osrm r None]
  obtain b st1 where dl: "driverLoop osrm r None st drivers = Inr (b, st1)" by auto
  from driverLoop_frame [OF dl] have fr: "assignments st1 = assignments st"
    "driverAvailability st1 = driverAvailability st" by auto
  have c1: "covers drivers st1" using assms fr by (simp add: covers_def)
  show ?thesis
  proof (cases "chosenDriver osrm drivers st r")
    case None
    then have "processRide osrm drivers st r = Inr st1"
      using dl by (auto simp: chosenDriver_def processRide_def split: option.splits if_splits)
    then show ?thesis using c1 by simp
  next
    case (Some p)
    obtain i c where p: "p = (i, c)" by (cases p)
    from chosenDriver_SomeD [OF Some [unfolded p]] dl have b: "b = Some (i, c)" and ne: "i \<noteq> []"
      by auto
    from chosenDriver_evaluated [OF Some [unfolded p]] obtain d where d: "d \<in> set drivers" "driverId d = i"
      by auto
    with assms have "\<exists>a \<in> set (assignments st). entryDriverId a = i" by (auto simp: covers_def)
    from findIndex_exists [of "assignments st" "\<lambda>a. entryDriverId a = i", OF this]
    obtain k where k: "findIndex (\<lambda>a. entryDriverId a = i) (assignments st) = Some k" by auto
    let ?st' = "st1\<lparr>assignments := (assignments st1)[k := committed (assignments st1 ! k) r],
                          driverAvailability := (driverAvailability st1)(i \<mapsto> availabilityAfter r),
                          totalCost := totalCost st1 + c\<rparr>"
    have pr: "processRide osrm drivers st r = Inr ?st'"
      by (simp add: processRide_def dl b ne commitRide_eq fr k)
    from findIndex_Some [OF k] have kk: "k < length (assignments st)" "entryDriverId (assignments st ! k) = i"
      by auto
    have "covers drivers ?st'"
      unfolding covers_def
    proof
      fix d' assume d': "d' \<in> set drivers"
      with assms obtain a where a: "a \<in> set (assignments st)" "entryDriverId a = driverId d'"
        and av: "driverAvailability st (driverId d') \<noteq> None"
        by (auto simp: covers_def)
      from a obtain j where j: "j < length (assignments st)" "assignments st ! j = a"
        by (auto simp: in_set_conv_nth)
      have "entryDriverId ((assignments st)[k := committed (assignments st ! k) r] ! j) = driverId d'"
        using j a kk by (cases "j = k") (auto simp: committed_def)
      then have "\<exists>a \<in> set ((assignments st)[k := committed (assignments st ! k) r]).
                   entryDriverId a = driverId d'"
        using j by (metis length_list_update nth_mem)
      then show "driverAvailability ?st' (driverId d') \<noteq> None \<and>
                 (\<exists>a\<in>set (assignments ?st'). entryDriverId a = driverId d')"
        using av by (simp add: fr)
    qed
    then show ?thesis using pr by simp
  qed
qed

lemma rideLoop_total:
  "covers drivers st \<Longrightarrow> \<exists>st'. rideLoop osrm drivers st rs = Inr st' \<and> covers drivers st'"
proof (induction rs arbitrary: st)
  case Nil
  then show ?case by simp
next
  case (Cons r rs)
  from processRide_total [OF Cons.prems, of osrm r] obtain st1 where
    "processRide osrm drivers st r = Inr st1" "covers drivers st1" by auto
  with Cons.IH [of st1] show ?case by simp
qed

lemma initialAvailability_dom:
  "dom (fold (\<lambda>d m. m(driverId d \<mapsto> initialAvailabilityOf d)) ds m0) = dom m0 \<union> driverId ` set ds"
  by (induction ds arbitrary: m0) auto

lemma covers_initialState: "covers drivers (initialState rs drivers)"
  unfolding covers_def
proof
  fix d assume d: "d \<in> set drivers"
  have "driverId d \<in> dom (initialAvailability drivers)"
    unfolding initialAvailability_def initialAvailability_dom using d by simp
  moreover have "\<exists>a \<in> set (initialAssignments drivers). entryDriverId a = driverId d"
    using d by (auto simp: initialAssignments_def)
  ultimately show "driverAvailability (initialState rs drivers) (driverId d) \<noteq> None \<and>
    (\<exists>a\<in>set (assignments (initialState rs drivers)). entryDriverId a = driverId d)"
    by (auto simp: initialState_def)
qed

lemma assignDriversToRides_total:
  "\<exists>out. assignDriversToRides osrm res drivers rides = Inr out"
proof -
  have "covers drivers (initialState res drivers)" by (rule covers_initialState)
  from rideLoop_total [OF this] obtain st' where
    "rideLoop osrm drivers (initialState res drivers) (sortRides rides) = Inr st'" by blast
  then show ?thesis by (simp add: assignDriversToRides_def Let_def)
qed

lemma rideLoop_totalCost:
  "rideLoop osrm drivers st rs = Inr st' \<Longrightarrow>
   totalCost st' = totalCost st + sum_list (acceptedCosts osrm drivers st rs)"
proof (induction rs arbitrary: st)
  case Nil
  then show ?case by simp
next
  case (Cons r rs)
  from Cons.prems obtain st1 where p: "processRide osrm drivers st r = Inr st1"
    and l: "rideLoop osrm drivers st1 rs = Inr st'"
    by (auto split: sum.splits)
  have "totalCost st1 = totalCost st +
          sum_list (case chosenDriver osrm drivers st r of Some (i, c) \<Rightarrow> [c] | None \<Rightarrow> [])"
  proof (cases "chosenDriver osrm drivers st r")
    case None
    with processRide_None [OF None p] show ?thesis by simp
  next
    case (Some q)
    obtain i c where q: "q = (i, c)" by (cases q)
    from processRide_Some [OF Some [unfolded q] p] show ?thesis by (auto simp: Some q)
  qed
  with Cons.IH [OF l] show ?case by (simp add: p)
qed

section \<open>The examples evaluated\<close>

lemma driverOne_simps:
  "driverId driverOne = ''driver1''" "city driverOne = ''Depot''" "city_coords driverOne = depot"
  "numberOfSeats driverOne = 4" "fuelCost driverOne = 3 / 5"
  "shiftStart driverOne = Some (clockAt 8 0)" "shiftEnd driverOne = Some (clockAt 20 0)"
  "maxDailyWorkHours driverOne = Some 8" "blockedAddresses driverOne = Some [''Eilat'']"
  by (simp_all add: driverOne_def)

lemma rideOne_simps:
  "ride_id rideOne = ''ride1''" "date rideOne = ''2023-06-01''" "startTime rideOne = clockAt 9 0"
  "endTime rideOne = clockAt 9 30" "startPoint rideOne = ''Depot''"
  "startPoint_coords rideOne = depot" "endPoint rideOne = ''Airport''"
  "endPoint_coords rideOne = airport" "seatsRequired rideOne = 2"
  by (simp_all add: rideOne_def)

lemma clockAt_simps: "hours (clockAt h m) = h" "mins (clockAt h m) = m"
  by (simp_all add: clockAt_def)

lemma not_blocked_examples:
  "\<not> sublist (toLowerCase ''Eilat'') (toLowerCase ''Depot'')"
  "\<not> sublist (toLowerCase ''Eilat'') (toLowerCase ''Airport'')"
  by code_simp+

lemma depot_airport: "haversineDistance depot airport = 6371 * (pi / 1800)"
  using haversineDistance_equator [of "1/10" 0] by (simp add: depot_def airport_def toRadians_def)

lemma depot_airport_near:
  "haversineDistance depot airport \<le> 50" "\<not> haversineDistance depot airport > 30"
  using pi_less_4 by (simp_all add: depot_airport)

lemma depot_ne_airport: "depot \<noteq> airport" "airport \<noteq> depot"
  by (simp_all add: depot_def airport_def)

lemma stateOne_simps:
  "driverAvailability stateOne = [''driver1'' \<mapsto> initialAvailabilityOf driverOne]"
  "assignments stateOne = [freshEntry ''driver1'']"
  "totalCost stateOne = 0" "resolver stateOne = coldResolver" "apiCallsSaved stateOne = 0"
  by (simp_all add: stateOne_def initialState_def initialAvailability_def initialAssignments_def
      driverOne_simps freshEntry_def)

lemma initialAvailabilityOf_driverOne:
  "initialAvailabilityOf driverOne =
     \<lparr>lastRideEndTime = clockAt 8 0, lastRideEndPoint = ''Depot'', lastRideEndPoint_coords = depot,
      busyUntil = clockAt 8 0, lastActiveDate = None\<rparr>"
  by (simp add: initialAvailabilityOf_def driverOne_simps)

lemma resolvesToZero_leg:
  assumes "resolvesToZero osrm (resolver st) p"
  shows "fst (legDistance osrm st p p) = Num 0"
proof (cases "distanceCache (resolver st) (p, p)")
  case (Some v)
  with assms have "v = Num 0" by (simp add: resolvesToZero_def)
  then show ?thesis
    using Some by (simp add: legDistance_def haversineDistance_same resolver_cached)
next
  case None
  with assms show ?thesis
    by (auto simp: resolvesToZero_def legDistance_def haversineDistance_same getDistanceFromOSRM_def
        getDistanceCacheKey_def cacheSet_def Let_def
        split: osrm_response.splits option.splits list.splits js_route.splits)
qed

lemma stateOne_avail: "driverAvailability stateOne (driverId driverOne) = Some (initialAvailabilityOf driverOne)"
  by (simp add: stateOne_simps driverOne_simps)

lemma stateOne_entry:
  "find (\<lambda>a. entryDriverId a = driverId driverOne) (assignments stateOne) = Some (freshEntry ''driver1'')"
  by (simp add: stateOne_simps driverOne_simps freshEntry_def)

lemma roadService_simps:
  "roadService depot depot = Response (Some [RouteObject (Num 0)])"
  "roadService depot airport = Response (Some [RouteObject (Num 12000)])"
  by (simp_all add: roadService_def depot_ne_airport)

lemma checks_driverOne_rideOne:
  "seatsSuffice driverOne rideOne" "withinShift driverOne rideOne" "avoidsBlocked driverOne rideOne"
  "withinDailyCap driverOne (freshEntry ''driver1'') rideOne"
  "freeByStart (initialAvailabilityOf driverOne) rideOne"
  "rideMinutes rideOne = 30"
  by (simp_all add: seatsSuffice_def withinShift_def avoidsBlocked_def withinDailyCap_def
      freeByStart_def driverOne_simps rideOne_simps clockAt_simps timeToMinutes_def
      not_blocked_examples workedMinutes_def rideMinutes_def isTimeAfter_def
      initialAvailabilityOf_driverOne freshEntry_def double_examples)

lemma reaches_zero:
  "reachesInTime (initialAvailabilityOf driverOne) (Num 0) rideOne"
  "reachesInTime (initialAvailabilityOf driverOne) (Num 12) rideOne"
  by (simp_all add: reachesInTime_def travelMinutes_examples initialAvailabilityOf_driverOne
      rideOne_simps clockAt_simps isTimeAfter_def addMinutesToTime_def jsRemainder_def Let_def)

lemmas engine_compute =
  evaluateDriver_def legDistance_def getDistanceFromOSRM_def getDistanceCacheKey_def cacheSet_def
  isDriverOnShift_def isTimeInRange_def timeToMinutes_def isTimeAfter_def isAddressBlocked_def
  stringIncludes_def wouldExceedDailyHours_def getTimeDifferenceInMinutes_def arrivesLate_def
  expectedArrivalTime_def double_examples addMinutesToTime_def jsRemainder_def Let_def
  haversineDistance_same depot_airport_near depot_ne_airport clockAt_simps

lemma evaluate_driverOne_rideOne:
  "evaluateDriver roadService stateOne rideOne driverOne =
     Inr (Some \<lparr>emptyRideDistance = Num 0, rideDistance = Num 12, driverTimeCost = 15,
                rideFuelCost = Num (36 / 5), emptyRideFuelCost = Num 0,
                totalAssignmentCost = Num (111 / 5)\<rparr>,
          stateOne\<lparr>resolver := \<lparr>distanceCache = [(depot, depot) \<mapsto> Num 0, (depot, airport) \<mapsto> Num 12],
                                   osrmCalls = 2\<rparr>\<rparr>)"
  by (simp add: engine_compute stateOne_simps driverOne_simps rideOne_simps roadService_simps
      initialAvailabilityOf_driverOne freshEntry_def not_blocked_examples coldResolver_def)


lemma capZeroDriver_simps:
  "driverId capZeroDriver = ''driver1''" "city_coords capZeroDriver = depot"
  "numberOfSeats capZeroDriver = 4" "fuelCost capZeroDriver = 3 / 5"
  "shiftStart capZeroDriver = Some (clockAt 8 0)" "shiftEnd capZeroDriver = Some (clockAt 20 0)"
  "maxDailyWorkHours capZeroDriver = Some 0" "blockedAddresses capZeroDriver = Some [''Eilat'']"
  by (simp_all add: capZeroDriver_def driverOne_simps)

section \<open>Properties of busyUntil\<close>

lemma isTimeAfter_iff: "isTimeAfter a b \<longleftrightarrow> clockKey b < clockKey a"
  by (auto simp: isTimeAfter_def clockKey_def)

lemma not_isTimeAfter_trans:
  "\<not> isTimeAfter a b \<Longrightarrow> \<not> isTimeAfter b c \<Longrightarrow> \<not> isTimeAfter a c"
  unfolding isTimeAfter_iff by (meson le_less_trans not_le)

lemma not_isTimeAfter_refl: "\<not> isTimeAfter a a"
  by (simp add: isTimeAfter_iff)

lemma chosenDriver_free:
  assumes "chosenDriver osrm drivers st r = Some (i, c)"
  shows "\<exists>av. driverAvailability st i = Some av \<and> freeByStart av r"
proof -
  from chosenDriver_evaluated [OF assms] obtain d st1 ev st2 where
    d: "driverId d = i" "driverAvailability st1 = driverAvailability st"
       "evaluateDriver osrm st1 r d = Inr (Some ev, st2)" by blast
  from evaluateDriver_SomeD [OF d(3)] d(1,2) show ?thesis by auto
qed

lemma processRide_availability:
  assumes "processRide osrm drivers st r = Inr st1"
  shows "driverAvailability st1 =
           (case chosenDriver osrm drivers st r of
              Some (i, c) \<Rightarrow> (driverAvailability st)(i \<mapsto> availabilityAfter r)
            | None \<Rightarrow> driverAvailability st)"
proof (cases "chosenDriver osrm drivers st r")
  case None
  with processRide_None [OF None assms] show ?thesis by simp
next
  case (Some p)
  obtain i c where p: "p = (i, c)" by (cases p)
  from processRide_Some [OF Some [unfolded p] assms] show ?thesis by (auto simp: Some p)
qed

lemma processRide_busyUntil:
  assumes "processRide osrm drivers st r = Inr st1"
      and "\<not> isTimeAfter (startTime r) (endTime r)"
      and "driverAvailability st i = Some av"
  shows "\<exists>av1. driverAvailability st1 i = Some av1 \<and>
           \<not> isTimeAfter (busyUntil av) (busyUntil av1) \<and>
           (\<forall>c. chosenDriver osrm drivers st r = Some (i, c) \<longrightarrow> busyUntil av1 = endTime r) \<and>
           ((\<forall>c. chosenDriver osrm drivers st r \<noteq> Some (i, c)) \<longrightarrow> av1 = av)"
proof (cases "\<exists>c. chosenDriver osrm drivers st r = Some (i, c)")
  case True
  then obtain c where ch: "chosenDriver osrm drivers st r = Some (i, c)" by blast
  from chosenDriver_free [OF ch] assms(3) have "freeByStart av r" by auto
  then have "\<not> isTimeAfter (busyUntil av) (endTime r)"
    using assms(2) not_isTimeAfter_trans by (auto simp: freeByStart_def)
  then show ?thesis
    using processRide_availability [OF assms(1)] ch by (simp add: availabilityAfter_def)
next
  case False
  then have "driverAvailability st1 i = Some av"
    using processRide_availability [OF assms(1)] assms(3)
    by (auto split: option.splits)
  then show ?thesis using False not_isTimeAfter_refl by auto
qed

lemma rideLoop_busyUntil:
  assumes "rideLoop osrm drivers st rs = Inr st'"
      and "\<forall>r \<in> set rs. \<not> isTimeAfter (startTime r) (endTime r)"
      and "driverAvailability st i = Some av"
  shows "\<exists>av'. driverAvailability st' i = Some av' \<and> \<not> isTimeAfter (busyUntil av) (busyUntil av')"
  using assms
proof (induction rs arbitrary: st av)
  case Nil
  then show ?case by (simp add: not_isTimeAfter_refl)
next
  case (Cons r rs)
  from Cons.prems(1) obtain st1 where p: "processRide osrm drivers st r = Inr st1"
    and l: "rideLoop osrm drivers st1 rs = Inr st'"
    by (auto split: sum.splits)
  from processRide_busyUntil [OF p _ Cons.prems(3)] Cons.prems(2)
  obtain av1 where av1: "driverAvailability st1 i = Some av1"
    "\<not> isTimeAfter (busyUntil av) (busyUntil av1)" by auto
  from Cons.IH [OF l _ av1(1)] Cons.prems(2)
  obtain av' where "driverAvailability st' i = Some av'" "\<not> isTimeAfter (busyUntil av1) (busyUntil av')"
    by auto
  then show ?case using av1(2) not_isTimeAfter_trans by blast
qed

lemma legDistance_availability:
  "legDistance osrm (st\<lparr>driverAvailability := m\<rparr>) a b =
     (case legDistance osrm st a b of (v, s) \<Rightarrow> (v, s\<lparr>driverAvailability := m\<rparr>))"
  by (simp add: legDistance_def Let_def split: prod.splits)

lemma evaluateDriver_lastActiveDate:
  assumes "driverAvailability st (driverId d) = Some av"
  shows "evaluateDriver osrm
           (st\<lparr>driverAvailability := (driverAvailability st)(driverId d \<mapsto> av\<lparr>lastActiveDate := x\<rparr>)\<rparr>) r d =
         (case evaluateDriver osrm st r d of
            Inl e \<Rightarrow> Inl e
          | Inr (ev, s) \<Rightarrow>
              Inr (ev, s\<lparr>driverAvailability :=
                          (driverAvailability st)(driverId d \<mapsto> av\<lparr>lastActiveDate := x\<rparr>)\<rparr>))"
  unfolding evaluateDriver_def
  by (simp add: assms legDistance_availability Let_def
      split: sum.splits bool.splits prod.splits)

section \<open>The example runs evaluated\<close>

lemma rideTen_simps:
  "ride_id rideTen = ''ride10''" "date rideTen = ''2023-06-01''" "startTime rideTen = clockAt 10 0"
  "endTime rideTen = clockAt 12 0" "startPoint rideTen = ''Depot''"
  "startPoint_coords rideTen = depot" "endPoint rideTen = ''Airport''"
  "endPoint_coords rideTen = airport" "seatsRequired rideTen = 2"
  by (simp_all add: rideTen_def)

lemma rideInverted_simps:
  "ride_id rideInverted = ''ride13''" "date rideInverted = ''2023-06-01''"
  "startTime rideInverted = clockAt 13 0" "endTime rideInverted = clockAt 11 0"
  "startPoint rideInverted = ''Airport''" "startPoint_coords rideInverted = airport"
  "endPoint rideInverted = ''Depot''" "endPoint_coords rideInverted = depot"
  "seatsRequired rideInverted = 2"
  by (simp_all add: rideInverted_def)

lemma rideNextDay_simps:
  "ride_id rideNextDay = ''ride20''" "date rideNextDay = ''2023-06-02''"
  "startTime rideNextDay = clockAt 9 0" "endTime rideNextDay = clockAt 9 20"
  "startPoint rideNextDay = ''Airport''" "startPoint_coords rideNextDay = airport"
  "endPoint rideNextDay = ''Depot''" "endPoint_coords rideNextDay = depot"
  "seatsRequired rideNextDay = 2"
  by (simp_all add: rideNextDay_def)

lemma airport_depot_near:
  "haversineDistance airport depot \<le> 50" "\<not> haversineDistance airport depot > 30"
  using pi_less_4 haversineDistance_equator [of 0 "1/10"]
  by (simp_all add: depot_def airport_def toRadians_def)

lemma roadService_more:
  "roadService airport airport = Response (Some [RouteObject (Num 0)])"
  "roadService airport depot = Response (Some [RouteObject (Num 12000)])"
  by (simp_all add: roadService_def depot_ne_airport)

lemmas run_compute =
  engine_compute considerDriver_def costBelow_def takeCost_def processRide_def commitRide_def
  airport_depot_near roadService_simps roadService_more driverOne_simps not_blocked_examples

lemma process_rideTen:
  "processRide roadService [driverOne] stateOne rideTen = Inr stateTen"
  by (simp add: run_compute stateOne_simps rideTen_simps stateTen_def availabilityAfter_def
      initialAvailabilityOf_driverOne freshEntry_def coldResolver_def)


lemma process_rideOne:
  "processRide roadService [driverOne] stateOne rideOne = Inr stateAfterOne"
  by (simp add: run_compute stateOne_simps rideOne_simps stateAfterOne_def availabilityAfter_def
      initialAvailabilityOf_driverOne freshEntry_def coldResolver_def)

lemma chosen_rideOne:
  "chosenDriver roadService [driverOne] stateOne rideOne = Some (''driver1'', 111 / 5)"
  by (simp add: chosenDriver_def run_compute stateOne_simps rideOne_simps
      initialAvailabilityOf_driverOne freshEntry_def coldResolver_def)

lemma busy_after_rideInverted:
  "(case processRide roadService [driverOne] stateTen rideInverted of
      Inr st \<Rightarrow> map_option busyUntil (driverAvailability st ''driver1'') = Some (clockAt 11 0) \<and>
                 map rideIds (assignments st) = [[''ride10'', ''ride13'']] \<and>
                 totalCost st = 336 / 5 - 264 / 5
    | Inl e \<Rightarrow> False)"
  by (simp add: run_compute stateTen_def rideTen_simps rideInverted_simps availabilityAfter_def)

lemma loop_rideOne_rideTen:
  "(case rideLoop roadService [driverOne] stateAfterOne [rideTen] of
      Inr st \<Rightarrow> map_option busyUntil (driverAvailability st ''driver1'') = Some (clockAt 12 0) \<and>
                 map rideIds (assignments st) = [[''ride1'', ''ride10'']]
    | Inl e \<Rightarrow> False)"
  by (simp add: run_compute stateAfterOne_def rideOne_simps rideTen_simps availabilityAfter_def)

section \<open>The rides of a driver\<close>

lemma subseq_set: "subseq xs ys \<Longrightarrow> set xs \<subseteq> set ys"
  by (induction rule: list_emb.induct) auto

lemma subseq_sorted_wrt: "subseq xs ys \<Longrightarrow> sorted_wrt P ys \<Longrightarrow> sorted_wrt P xs"
proof (induction rule: list_emb.induct)
  case (list_emb_Nil ys)
  then show ?case by simp
next
  case (list_emb_Cons xs ys y)
  then show ?case by simp
next
  case (list_emb_Cons2 x y xs ys)
  then have "set xs \<subseteq> set ys" by (simp add: subseq_set)
  with list_emb_Cons2 show ?case by auto
qed

lemma mset_concat_update:
  "k < length xs \<Longrightarrow> f y = f (xs ! k) @ [z] \<Longrightarrow>
   mset (concat (map f (xs[k := y]))) = add_mset z (mset (concat (map f xs)))"
proof (induction xs arbitrary: k)
  case Nil
  then show ?case by simp
next
  case (Cons x xs)
  then show ?case by (cases k) auto
qed

lemma processRide_assignedIds:
  assumes "processRide osrm drivers st r = Inr st1"
  shows "mset (assignedIds st1) =
           (case chosenDriver osrm drivers st r of
              Some p \<Rightarrow> add_mset (ride_id r) (mset (assignedIds st))
            | None \<Rightarrow> mset (assignedIds st))"
proof (cases "chosenDriver osrm drivers st r")
  case None
  with processRide_None [OF None assms] show ?thesis by (simp add: assignedIds_def)
next
  case (Some p)
  obtain i c where p: "p = (i, c)" by (cases p)
  from processRide_Some [OF Some [unfolded p] assms] obtain k where
    k: "findIndex (\<lambda>a. entryDriverId a = i) (assignments st) = Some k"
    and a: "assignments st1 = (assignments st)[k := committed (assignments st ! k) r]"
    by blast
  from findIndex_Some [OF k] have "k < length (assignments st)" by simp
  from mset_concat_update [OF this, of rideIds "committed (assignments st ! k) r" "ride_id r"]
  show ?thesis by (simp add: assignedIds_def a Some committed_def)
qed

lemma rideLoop_assignedIds:
  "rideLoop osrm drivers st rs = Inr st' \<Longrightarrow>
   mset (assignedIds st) \<subseteq># mset (map ride_id seen) \<Longrightarrow>
   mset (assignedIds st') \<subseteq># mset (map ride_id (seen @ rs))"
proof (induction rs arbitrary: st seen)
  case Nil
  then show ?case by simp
next
  case (Cons r rs)
  from Cons.prems(1) obtain st1 where p: "processRide osrm drivers st r = Inr st1"
    and l: "rideLoop osrm drivers st1 rs = Inr st'"
    by (auto split: sum.splits)
  have "mset (assignedIds st1) \<subseteq># mset (map ride_id (seen @ [r]))"
  proof (cases "chosenDriver osrm drivers st r")
    case None
    with processRide_assignedIds [OF p] have "mset (assignedIds st1) = mset (assignedIds st)" by simp
    moreover have "mset (map ride_id seen) \<subseteq># mset (map ride_id (seen @ [r]))" by simp
    ultimately show ?thesis using Cons.prems(2) by (metis subset_mset.order_trans)
  next
    case (Some q)
    with processRide_assignedIds [OF p]
    have "mset (assignedIds st1) = add_mset (ride_id r) (mset (assignedIds st))" by simp
    then show ?thesis using Cons.prems(2) by simp
  qed
  from Cons.IH [OF l this] show ?case by simp
qed

lemma distinct_of_submset:
  assumes "mset xs \<subseteq># mset ys" "distinct ys"
  shows "distinct xs"
  unfolding distinct_count_atmost_1
proof
  fix a
  have "count (mset ys) a \<le> 1" using assms(2) by (simp add: distinct_count_atmost_1)
  moreover have "count (mset xs) a \<le> count (mset ys) a"
    by (rule mset_subset_eq_count [OF assms(1)])
  ultimately have le: "count (mset xs) a \<le> 1" by linarith
  show "count (mset xs) a = (if a \<in> set xs then 1 else 0)"
  proof (cases "a \<in> set xs")
    case True
    show ?thesis
    proof (cases "count (mset xs) a = 0")
      case True
      with \<open>a \<in> set xs\<close> show ?thesis by simp
    next
      case False
      with le have "count (mset xs) a = 1" by linarith
      with \<open>a \<in> set xs\<close> show ?thesis by simp
    qed
  next
    case False
    then show ?thesis by simp
  qed
qed


lemma rideOrderKey_date: "rideOrderKey a \<le> rideOrderKey b \<Longrightarrow> date a \<le> date b"
  by (auto simp: rideOrderKey_def)

lemma rideOrderKey_start:
  "rideOrderKey a \<le> rideOrderKey b \<Longrightarrow> date a = date b \<Longrightarrow>
   \<not> isTimeAfter (startTime a) (startTime b)"
  by (auto simp: rideOrderKey_def isTimeAfter_def)

lemma findIndex_map: "findIndex (\<lambda>a. f a = j) xs = findIndex (\<lambda>x. x = j) (map f xs)"
  by (induction xs) auto

lemma map_entryDriverId_update:
  "k < length xs \<Longrightarrow> map entryDriverId (xs[k := committed (xs ! k) r]) = map entryDriverId xs"
  by (simp add: map_update committed_def list_update_same_conv)

lemma findIndex_update:
  "k < length xs \<Longrightarrow>
   findIndex (\<lambda>a. entryDriverId a = j) (xs[k := committed (xs ! k) r])
     = findIndex (\<lambda>a. entryDriverId a = j) xs"
  using findIndex_map [of entryDriverId j] map_entryDriverId_update by metis

lemma noOverlap_snoc:
  assumes no: "noOverlap rs"
      and sub: "set rs \<subseteq> set seen"
      and srt: "sorted (map rideOrderKey (seen @ [r]))"
      and srs: "sorted (map rideOrderKey rs)"
      and last: "rs \<noteq> [] \<longrightarrow> \<not> isTimeAfter (endTime (last rs)) (startTime r)"
  shows "noOverlap (rs @ [r])"
proof -
  have all_le: "rideOrderKey x \<le> rideOrderKey r" if "x \<in> set rs" for x
    using that sub srt by (auto simp: sorted_append)
  have "\<not> isTimeAfter (endTime x) (startTime r)" if x: "x \<in> set rs" and d: "date x = date r" for x
  proof -
    from x have ne: "rs \<noteq> []" by auto
    define l where "l = last rs"
    have rs: "rs = butlast rs @ [l]" using ne by (simp add: l_def)
    have lr: "\<not> isTimeAfter (endTime l) (startTime r)" using last ne by (simp add: l_def)
    have lmem: "l \<in> set rs" using ne by (simp add: l_def)
    show ?thesis
    proof (cases "x \<in> set (butlast rs)")
      case False
      with x rs have "x = l" by (metis Un_iff empty_iff empty_set set_ConsD set_append)
      with lr show ?thesis by simp
    next
      case True
      have "sorted (map rideOrderKey (butlast rs @ [l]))" using srs rs by simp
      then have xl: "rideOrderKey x \<le> rideOrderKey l"
        using True by (auto simp: sorted_append)
      have "date x \<le> date l" by (rule rideOrderKey_date [OF xl])
      moreover have "date l \<le> date r" by (rule rideOrderKey_date [OF all_le [OF lmem]])
      ultimately have dl: "date l = date x" using d by simp
      have "noOverlap (butlast rs @ [l])" using no rs by simp
      then have "\<not> isTimeAfter (endTime x) (startTime l)"
        using True dl by (auto simp: noOverlap_def sorted_wrt_append)
      moreover have "\<not> isTimeAfter (startTime l) (startTime r)"
        using rideOrderKey_start [OF all_le [OF lmem]] dl d by simp
      ultimately show ?thesis by (rule not_isTimeAfter_trans)
    qed
  qed
  then show ?thesis
    using no by (auto simp: noOverlap_def sorted_wrt_append)
qed

lemma processRide_tracked:
  assumes p: "processRide osrm drivers st r = Inr st1"
      and tr: "tracked seen st"
      and srt: "sorted (map rideOrderKey (seen @ [r]))"
  shows "tracked (seen @ [r]) st1"
proof (cases "chosenDriver osrm drivers st r")
  case None
  from processRide_None [OF None p] have fr: "assignments st1 = assignments st"
    "driverAvailability st1 = driverAvailability st" by auto
  show ?thesis
    unfolding tracked_def
  proof (intro allI impI)
    fix k assume "k < length (assignments st1)"
    with tr fr obtain rs where "entryTracked seen st k rs" by (auto simp: tracked_def)
    then have "entryTracked (seen @ [r]) st1 k rs"
      by (auto simp: entryTracked_def fr intro: subseq_rev_drop_many)
    then show "\<exists>rs. entryTracked (seen @ [r]) st1 k rs" ..
  qed
next
  case (Some q)
  obtain i c where q: "q = (i, c)" by (cases q)
  note ch = Some [unfolded q]
  from processRide_Some [OF ch p] obtain k0 where
    k0: "findIndex (\<lambda>a. entryDriverId a = i) (assignments st) = Some k0"
    and as1: "assignments st1 = (assignments st)[k0 := committed (assignments st ! k0) r]"
    and av1: "driverAvailability st1 = (driverAvailability st)(i \<mapsto> availabilityAfter r)"
    by blast
  from findIndex_Some [OF k0] have k0l: "k0 < length (assignments st)"
    and k0i: "entryDriverId (assignments st ! k0) = i" by auto
  from chosenDriver_free [OF ch] obtain av where av: "driverAvailability st i = Some av"
    and free: "freeByStart av r" by blast
  have ids: "entryDriverId (assignments st1 ! k) = entryDriverId (assignments st ! k)"
    if "k < length (assignments st)" for k
    using that k0l by (cases "k = k0") (auto simp: as1 committed_def)
  have fi: "findIndex (\<lambda>a. entryDriverId a = j) (assignments st1)
              = findIndex (\<lambda>a. entryDriverId a = j) (assignments st)" for j
    unfolding as1 by (rule findIndex_update [OF k0l])
  show ?thesis
    unfolding tracked_def
  proof (intro allI impI)
    fix k assume "k < length (assignments st1)"
    then have kl: "k < length (assignments st)" by (simp add: as1)
    with tr obtain rs where et: "entryTracked seen st k rs" by (auto simp: tracked_def)
    show "\<exists>rs. entryTracked (seen @ [r]) st1 k rs"
    proof (cases "k = k0")
      case False
      have a: "assignments st1 ! k = assignments st ! k" using False by (simp add: as1)
      have "entryDriverId (assignments st ! k) \<noteq> i" if "rs \<noteq> []"
        using et that k0 False by (auto simp: entryTracked_def)
      then have "entryTracked (seen @ [r]) st1 k rs"
        using et by (auto simp: entryTracked_def a fi av1 intro: subseq_rev_drop_many)
      then show ?thesis ..
    next
      case True
      from et have m: "map ride_id rs = rideIds (assignments st ! k0)"
        and sub: "subseq rs seen" and no: "noOverlap rs"
        and busy: "rs \<noteq> [] \<longrightarrow> map_option busyUntil (driverAvailability st i) = Some (endTime (last rs))"
        by (auto simp: entryTracked_def True k0i)
      have "sorted (map rideOrderKey seen)" using srt by (simp add: sorted_append)
      then have "sorted_wrt (\<lambda>a b. rideOrderKey a \<le> rideOrderKey b) seen"
        by (simp add: sorted_map)
      then have "sorted_wrt (\<lambda>a b. rideOrderKey a \<le> rideOrderKey b) rs"
        by (rule subseq_sorted_wrt [OF sub])
      then have srs: "sorted (map rideOrderKey rs)" by (simp add: sorted_map)
      have lastok: "rs \<noteq> [] \<longrightarrow> \<not> isTimeAfter (endTime (last rs)) (startTime r)"
        using busy av free by (auto simp: freeByStart_def)
      have no': "noOverlap (rs @ [r])"
        by (rule noOverlap_snoc [OF no subseq_set [OF sub] srt srs lastok])
      have sub': "subseq (rs @ [r]) (seen @ [r])"
        using sub by (simp add: list_emb_append_mono)
      have a: "assignments st1 ! k0 = committed (assignments st ! k0) r"
        using k0l by (simp add: as1)
      have "entryTracked (seen @ [r]) st1 k0 (rs @ [r])"
        unfolding entryTracked_def
        using m sub' no' k0 k0i
        by (simp add: a fi av1 committed_def availabilityAfter_def)
      then show ?thesis using True by blast
    qed
  qed
qed

lemma rideLoop_tracked:
  "rideLoop osrm drivers st rs = Inr st' \<Longrightarrow> tracked seen st \<Longrightarrow>
   sorted (map rideOrderKey (seen @ rs)) \<Longrightarrow> tracked (seen @ rs) st'"
proof (induction rs arbitrary: st seen)
  case Nil
  then show ?case by simp
next
  case (Cons r rs)
  from Cons.prems(1) obtain st1 where p: "processRide osrm drivers st r = Inr st1"
    and l: "rideLoop osrm drivers st1 rs = Inr st'"
    by (auto split: sum.splits)
  have s1: "sorted (map rideOrderKey (seen @ [r]))"
    using Cons.prems(3) by (simp add: sorted_append)
  have t1: "tracked (seen @ [r]) st1" by (rule processRide_tracked [OF p Cons.prems(2) s1])
  from Cons.IH [OF l t1] Cons.prems(3) show ?case by simp
qed

lemma tracked_initialState: "tracked [] (initialState res drivers)"
  by (auto simp: tracked_def entryTracked_def initialState_def initialAssignments_def noOverlap_def)


lemma concat_filter_nonempty:
  "concat (map f (filter (\<lambda>a. length (f a) > 0) xs)) = concat (map f xs)"
  by (induction xs) auto

lemma assignmentsOut_ids:
  "concat (map outRideIds (filteredAssignments as)) = concat (map rideIds as)"
  using concat_filter_nonempty [of rideIds as]
  by (simp add: filteredAssignments_def comp_def)

lemma assignmentsOut_member:
  "a \<in> set (filteredAssignments as) \<Longrightarrow>
   \<exists>k < length as. outRideIds a = rideIds (as ! k) \<and> outDriverId a = entryDriverId (as ! k)"
  by (auto simp: filteredAssignments_def in_set_conv_nth)

lemma sortRides_props:
  "mset (sortRides rides) = mset rides" "set (sortRides rides) = set rides"
  "sorted (map rideOrderKey (sortRides rides))"
  by (simp_all add: sortRides_sort_key)

lemma run_final_state:
  assumes "assignDriversToRides osrm res drivers rides = Inr out"
  shows "\<exists>st. rideLoop osrm drivers (initialState res drivers) (sortRides rides) = Inr st \<and>
              assignmentsOut out = filteredAssignments (assignments st) \<and>
              totalCostOut out = roundToCents (totalCost st) \<and>
              ridesAfter out = sortRides rides \<and> driversAfter out = drivers \<and>
              resolverAfter out = resolver st"
  using assms by (auto simp: assignDriversToRides_def Let_def split: sum.splits)

section \<open>Rides outside every shift\<close>

lemma evaluateDriver_outside:
  assumes "driverAvailability st (driverId d) \<noteq> None" "\<not> withinShift d r"
  shows "evaluateDriver osrm st r d = Inr (None, st)"
  using assms by (auto simp: evaluateDriver_def isDriverOnShift_iff)

lemma driverLoop_outside:
  "\<forall>d \<in> set ds. driverAvailability st (driverId d) \<noteq> None \<and> \<not> withinShift d r \<Longrightarrow>
   driverLoop osrm r b st ds = Inr (b, st)"
  by (induction ds) (simp_all add: considerDriver_def evaluateDriver_outside)

lemma processRide_outside:
  assumes "covers drivers st" "outsideEveryShift drivers r"
  shows "processRide osrm drivers st r = Inr st"
proof -
  have "\<forall>d \<in> set drivers. driverAvailability st (driverId d) \<noteq> None \<and> \<not> withinShift d r"
    using assms by (auto simp: covers_def outsideEveryShift_def)
  from driverLoop_outside [OF this] show ?thesis by (simp add: processRide_def)
qed

lemma rideLoop_filter:
  "covers drivers st \<Longrightarrow>
   rideLoop osrm drivers st rs
     = rideLoop osrm drivers st (filter (\<lambda>r. \<not> outsideEveryShift drivers r) rs)"
proof (induction rs arbitrary: st)
  case Nil
  then show ?case by simp
next
  case (Cons r rs)
  show ?case
  proof (cases "outsideEveryShift drivers r")
    case True
    then show ?thesis
      using Cons processRide_outside [OF Cons.prems True] by simp
  next
    case False
    from processRide_total [OF Cons.prems, of osrm r] obtain st1 where
      p: "processRide osrm drivers st r = Inr st1" and c: "covers drivers st1" by blast
    from Cons.IH [OF c] show ?thesis using False p by simp
  qed
qed

lemma sortRides_filter: "filter P (sortRides rs) = sortRides (filter P rs)"
  by (simp add: sortRides_sort_key filter_sort)

lemma run_assigned_ids:
  assumes "assignDriversToRides osrm res drivers rides = Inr out"
      and "a \<in> set (assignmentsOut out)"
  shows "set (outRideIds a) \<subseteq> ride_id ` set rides"
proof -
  from run_final_state [OF assms(1)] obtain st where
    loop: "rideLoop osrm drivers (initialState res drivers) (sortRides rides) = Inr st"
    and out: "assignmentsOut out = filteredAssignments (assignments st)" by blast
  have "mset (assignedIds (initialState res drivers)) \<subseteq># mset (map ride_id [])"
    by (simp add: assignedIds_def initialState_def initialAssignments_def)
  from rideLoop_assignedIds [OF loop this]
  have "mset (assignedIds st) \<subseteq># mset (map ride_id (sortRides rides))" by simp
  then have "set (assignedIds st) \<subseteq> set (map ride_id (sortRides rides))"
    by (metis set_mset_mono set_mset_mset)
  then have s: "set (assignedIds st) \<subseteq> ride_id ` set rides"
    by (simp add: sortRides_props)
  have "set (outRideIds a) \<subseteq> set (concat (map outRideIds (assignmentsOut out)))"
    using assms(2) by auto
  also have "\<dots> = set (assignedIds st)"
    by (simp only: out assignmentsOut_ids assignedIds_def)
  finally show ?thesis using s by blast
qed

section \<open>Costs that are not negative\<close>

text \<open>The radicand of the haversine formula is at least 0 for all coordinates: it lies
  between the squared sine of half the difference of the latitudes and the squared cosine
  of half their sum.\<close>

lemma haversine_radicand_nonneg:
  fixes p q t :: real
  assumes "0 \<le> t" "t \<le> 1"
  shows "0 \<le> sin ((q - p) / 2) * sin ((q - p) / 2) + cos p * cos q * t"
proof -
  define s where "s = sin ((q - p) / 2)"
  have h: "2 * ((q - p) / 2) = q - p" by simp
  have d: "cos (q - p) = 1 - 2 * (s * s)"
    using cos_double_sin [of "(q - p) / 2"] unfolding h by (simp add: s_def power2_eq_square)
  have "cos (q - p) = cos q * cos p + sin q * sin p" by (rule cos_diff)
  moreover have "cos (p + q) = cos p * cos q - sin p * sin q" by (rule cos_add)
  ultimately have e: "s * s + cos p * cos q = (1 + cos (p + q)) / 2"
    using d by (simp add: algebra_simps)
  have "0 \<le> 1 + x" if "- 1 \<le> x" for x :: real
    using that by linarith
  from this [OF cos_ge_minus_one] have "0 \<le> (1 + cos (p + q)) / 2" by simp
  then have top: "0 \<le> s * s + cos p * cos q" unfolding e .
  have ss: "0 \<le> s * s" by simp
  have "0 \<le> 1 - t" using assms(2) by simp
  then have "0 \<le> (1 - t) * (s * s)" using ss by (rule mult_nonneg_nonneg)
  moreover have "0 \<le> t * (s * s + cos p * cos q)"
    using assms(1) top by (rule mult_nonneg_nonneg)
  moreover have "s * s + cos p * cos q * t = (1 - t) * (s * s) + t * (s * s + cos p * cos q)"
    by (simp add: algebra_simps)
  ultimately show ?thesis unfolding s_def by simp
qed

lemma haversineDistance_nonneg: "0 \<le> haversineDistance a b"
proof -
  obtain lat1 lon1 where a: "a = (lat1, lon1)" by (cases a)
  obtain lat2 lon2 where b: "b = (lat2, lon2)" by (cases b)
  define u where "u = sin (toRadians (lon2 - lon1) / 2)"
  have t: "0 \<le> u * u" "u * u \<le> 1"
  proof -
    show "0 \<le> u * u" by simp
    have "\<bar>u\<bar> \<le> 1" unfolding u_def by (rule abs_sin_le_one)
    then have "u\<^sup>2 \<le> 1" by (simp add: abs_square_le_1)
    then show "u * u \<le> 1" by (simp add: power2_eq_square)
  qed
  have dl: "toRadians (lat2 - lat1) = toRadians lat2 - toRadians lat1"
    by (simp add: toRadians_def left_diff_distrib)
  from haversine_radicand_nonneg [OF t, of "toRadians lat2" "toRadians lat1"]
  have "0 \<le> sin (toRadians (lat2 - lat1) / 2) * sin (toRadians (lat2 - lat1) / 2) +
              cos (toRadians lat1) * cos (toRadians lat2) * u * u"
    by (simp add: dl mult.assoc)
  then have "0 \<le> sqrt (sin (toRadians (lat2 - lat1) / 2) * sin (toRadians (lat2 - lat1) / 2) +
              cos (toRadians lat1) * cos (toRadians lat2) * u * u)"
    by simp
  from atan2_nonneg [OF this]
  show ?thesis
    by (simp add: haversineDistance_def a b Let_def u_def)
qed

lemma resolver_nonneg:
  assumes "serviceNonneg osrm" "cacheNonneg rs" "0 \<le> haversineDistance a b"
  shows "(\<forall>x. fst (getDistanceFromOSRM osrm rs a b t) = Num x \<longrightarrow> 0 \<le> x) \<and>
         cacheNonneg (snd (getDistanceFromOSRM osrm rs a b t))"
proof (cases "distanceCache rs (a, b)")
  case (Some v)
  have "0 \<le> x" if "v = Num x" for x
  proof -
    from Some that have "distanceCache rs (a, b) = Some (Num x)" by simp
    with assms(2) show ?thesis unfolding cacheNonneg_def by blast
  qed
  then show ?thesis
    using assms(2) by (simp add: resolver_cached [OF Some])
next
  case None
  have upd: "cacheNonneg (cacheSet s k v)"
    if "cacheNonneg s" "\<forall>x. v = Num x \<longrightarrow> 0 \<le> x" for s k v
    using that by (auto simp: cacheNonneg_def cacheSet_def)
  have cnt: "cacheNonneg (rs\<lparr>osrmCalls := n\<rparr>)" for n
    using assms(2) by (simp add: cacheNonneg_def)
  have hv: "\<forall>x. Num (haversineDistance a b) = Num x \<longrightarrow> 0 \<le> x"
    using assms(3) by simp
  show ?thesis
  proof (cases "haversineDistance a b > t")
    case True
    then show ?thesis
      using None assms(3) upd [OF assms(2) hv]
      by (simp add: getDistanceFromOSRM_def getDistanceCacheKey_def Let_def)
  next
    case False
    note far = False
    show ?thesis
    proof (cases "\<exists>d rest. osrm a b = Response (Some (RouteObject d # rest))")
      case True
      then obtain d rest where o: "osrm a b = Response (Some (RouteObject d # rest))" by blast
      have dn: "\<forall>x. jsDivide d 1000 = Num x \<longrightarrow> 0 \<le> x"
      proof (cases d)
        case (Num y)
        with o have "osrm a b = Response (Some (RouteObject (Num y) # rest))" by simp
        with assms(1) have "0 \<le> y" unfolding serviceNonneg_def by blast
        with Num show ?thesis by auto
      next
        case NaN
        then show ?thesis by simp
      qed
      show ?thesis
        using None far o dn upd [OF cnt dn]
        by (simp add: getDistanceFromOSRM_def getDistanceCacheKey_def Let_def)
    next
      case False
      then have "fst (getDistanceFromOSRM osrm rs a b t) = Num (haversineDistance a b) \<and>
                 snd (getDistanceFromOSRM osrm rs a b t)
                   = cacheSet (rs\<lparr>osrmCalls := osrmCalls rs + 1\<rparr>) (a, b)
                       (Num (haversineDistance a b))"
        using None far
        by (auto simp: getDistanceFromOSRM_def getDistanceCacheKey_def Let_def
            split: osrm_response.splits option.splits list.splits js_route.splits)
      then show ?thesis
        using assms(3) upd [OF cnt hv] by simp
    qed
  qed
qed

lemma legDistance_nonneg:
  assumes "serviceNonneg osrm" "cacheNonneg (resolver st)"
  shows "(\<forall>x. fst (legDistance osrm st a b) = Num x \<longrightarrow> 0 \<le> x) \<and>
         cacheNonneg (resolver (snd (legDistance osrm st a b)))"
  using resolver_nonneg [OF assms(1,2) haversineDistance_nonneg, of a b 30]
    haversineDistance_nonneg [of a b] assms(2)
  by (auto simp: legDistance_def Let_def split: prod.splits)

lemma jsTimes_nonneg:
  "\<forall>x. v = Num x \<longrightarrow> 0 \<le> x \<Longrightarrow> 0 \<le> k \<Longrightarrow> jsTimes v k = Num y \<Longrightarrow> 0 \<le> y"
  by (cases v) auto

lemma jsPlus_nonneg:
  "\<forall>x. v = Num x \<longrightarrow> 0 \<le> x \<Longrightarrow> \<forall>x. w = Num x \<longrightarrow> 0 \<le> x \<Longrightarrow> jsPlus v w = Num y \<Longrightarrow> 0 \<le> y"
  by (cases v; cases w) auto

lemma evaluateDriver_nonneg:
  assumes srv: "serviceNonneg osrm" and inv: "cacheNonneg (resolver st)"
      and fuel: "0 \<le> fuelCost d" and dur: "0 \<le> rideMinutes r"
      and ev: "evaluateDriver osrm st r d = Inr (evo, st')"
  shows "cacheNonneg (resolver st') \<and>
         (\<forall>e x. evo = Some e \<and> totalAssignmentCost e = Num x \<longrightarrow> 0 \<le> x)"
proof (cases "driverAvailability st (driverId d)")
  case None
  with ev have "st' = st \<and> evo = None"
    by (auto simp: evaluateDriver_def split: if_splits)
  with inv show ?thesis by simp
next
  case (Some av)
  note cn = inv
  define l1 where "l1 = legDistance osrm st (lastRideEndPoint_coords av) (startPoint_coords r)"
  define l2 where "l2 = legDistance osrm (snd l1) (startPoint_coords r) (endPoint_coords r)"
  from legDistance_nonneg [OF srv cn]
  have n1: "\<forall>x. fst l1 = Num x \<longrightarrow> 0 \<le> x" "cacheNonneg (resolver (snd l1))"
    by (auto simp: l1_def)
  from legDistance_nonneg [OF srv n1(2)]
  have n2: "\<forall>x. fst l2 = Num x \<longrightarrow> 0 \<le> x" "cacheNonneg (resolver (snd l2))"
    by (auto simp: l2_def)
  note s1 = n1(2)
  note s2 = n2(2)
  have blocked: "(isAddressBlocked d (startPoint r) \<or> isAddressBlocked d (endPoint r))
                   = (\<not> avoidsBlocked d r)"
    using isAddressBlocked_iff [of d r] by blast
  from ev have res: "(st' = st \<and> evo = None) \<or> (st' = snd l1 \<and> evo = None) \<or>
      (st' = snd l2 \<and>
       (\<exists>e. evo = Some e \<and>
          totalAssignmentCost e =
            jsPlus (jsPlus (Num (real_of_int (rideMinutes r) / 60 * 30))
                      (jsTimes (fst l2) (fuelCost d)))
                   (jsTimes (fst l1) (fuelCost d))))"
    unfolding evaluateDriver_def blocked isDriverOnShift_iff arrivesLate_iff
      getTimeDifferenceInMinutes_eq
    by (auto simp: Let_def Some l1_def l2_def
        split: if_splits sum.splits bool.splits prod.splits)
  have cost: "0 \<le> x"
    if "jsPlus (jsPlus (Num (real_of_int (rideMinutes r) / 60 * 30))
                      (jsTimes (fst l2) (fuelCost d)))
                   (jsTimes (fst l1) (fuelCost d)) = Num x" for x
  proof -
    have t: "\<forall>y. Num (real_of_int (rideMinutes r) / 60 * 30) = Num y \<longrightarrow> 0 \<le> y"
      using dur by simp
    have a: "\<forall>y. jsTimes (fst l2) (fuelCost d) = Num y \<longrightarrow> 0 \<le> y"
      using jsTimes_nonneg [OF n2(1) fuel] by blast
    have b: "\<forall>y. jsTimes (fst l1) (fuelCost d) = Num y \<longrightarrow> 0 \<le> y"
      using jsTimes_nonneg [OF n1(1) fuel] by blast
    have c: "\<forall>y. jsPlus (Num (real_of_int (rideMinutes r) / 60 * 30))
                      (jsTimes (fst l2) (fuelCost d)) = Num y \<longrightarrow> 0 \<le> y"
      using jsPlus_nonneg [OF t a] by blast
    from jsPlus_nonneg [OF c b that] show ?thesis .
  qed
  from res show ?thesis
    using inv s1 s2 cost by auto
qed

lemma driverLoop_nonneg:
  assumes srv: "serviceNonneg osrm"
      and dur: "0 \<le> rideMinutes r"
  shows "cacheNonneg (resolver st) \<Longrightarrow> \<forall>d \<in> set ds. 0 \<le> fuelCost d \<Longrightarrow>
         \<forall>i c. b = Some (i, c) \<longrightarrow> 0 \<le> c \<Longrightarrow>
         driverLoop osrm r b st ds = Inr (b', st') \<Longrightarrow>
         cacheNonneg (resolver st') \<and> (\<forall>i c. b' = Some (i, c) \<longrightarrow> 0 \<le> c)"
proof (induction ds arbitrary: b st)
  case Nil
  then show ?case by simp
next
  case (Cons d ds)
  from Cons.prems(4) obtain b1 st1 where c: "considerDriver osrm r b st d = Inr (b1, st1)"
    and l: "driverLoop osrm r b1 st1 ds = Inr (b', st')"
    by (auto split: sum.splits)
  from c obtain evo where ev: "evaluateDriver osrm st r d = Inr (evo, st1)"
    by (auto simp: considerDriver_def split: sum.splits prod.splits option.splits if_splits)
  from Cons.prems(2) have fuel: "0 \<le> fuelCost d" by simp
  from evaluateDriver_nonneg [OF srv Cons.prems(1) fuel dur ev]
  have s1: "cacheNonneg (resolver st1)"
    and cost: "\<forall>e x. evo = Some e \<and> totalAssignmentCost e = Num x \<longrightarrow> 0 \<le> x" by auto
  have b1: "\<forall>i c. b1 = Some (i, c) \<longrightarrow> 0 \<le> c"
    using c ev cost Cons.prems(3)
    by (auto simp: considerDriver_def costBelow_def takeCost_def
        split: option.splits if_splits jsnum.splits)
  from Cons.IH [OF s1 _ b1 l] Cons.prems(2) show ?case by simp
qed

lemma processRide_nonneg:
  assumes srv: "serviceNonneg osrm"
      and dur: "0 \<le> rideMinutes r"
      and fuel: "\<forall>d \<in> set drivers. 0 \<le> fuelCost d"
      and inv: "cacheNonneg (resolver st)"
      and p: "processRide osrm drivers st r = Inr st1"
  shows "cacheNonneg (resolver st1) \<and> totalCost st \<le> totalCost st1"
proof -
  from p obtain b st0 where dl: "driverLoop osrm r None st drivers = Inr (b, st0)"
    by (auto simp: processRide_def split: sum.splits)
  have none: "\<forall>i c. (None :: best) = Some (i, c) \<longrightarrow> 0 \<le> c" by simp
  from driverLoop_nonneg [OF srv dur inv fuel none dl]
  have s0: "cacheNonneg (resolver st0)" and b: "\<forall>i c. b = Some (i, c) \<longrightarrow> 0 \<le> c" by auto
  from driverLoop_frame [OF dl] have fr: "totalCost st0 = totalCost st" by simp
  show ?thesis
  proof (cases "\<exists>i c. b = Some (i, c) \<and> i \<noteq> []")
    case False
    then have "st1 = st0"
      using p dl by (auto simp: processRide_def split: option.splits if_splits)
    then show ?thesis using s0 fr by simp
  next
    case True
    then obtain i c where bi: "b = Some (i, c)" "i \<noteq> []" by blast
    with b have c0: "0 \<le> c" by simp
    from p dl bi have "commitRide st0 r i c = Inr st1" by (simp add: processRide_def)
    then obtain k where st1: "st1 = st0\<lparr>assignments := (assignments st0)[k := committed (assignments st0 ! k) r],
                          driverAvailability := (driverAvailability st0)(i \<mapsto> availabilityAfter r),
                          totalCost := totalCost st0 + c\<rparr>"
      by (auto simp: commitRide_eq split: option.splits)
    have "cacheNonneg (resolver st1)"
      using s0 by (simp add: st1)
    then show ?thesis using c0 fr by (simp add: st1)
  qed
qed

lemma rideLoop_nonneg:
  assumes srv: "serviceNonneg osrm" and fuel: "\<forall>d \<in> set drivers. 0 \<le> fuelCost d"
  shows "cacheNonneg (resolver st) \<Longrightarrow> \<forall>r \<in> set rs. 0 \<le> rideMinutes r \<Longrightarrow>
         rideLoop osrm drivers st rs = Inr st' \<Longrightarrow> totalCost st \<le> totalCost st'"
proof (induction rs arbitrary: st)
  case Nil
  then show ?case by simp
next
  case (Cons r rs)
  from Cons.prems(3) obtain st1 where p: "processRide osrm drivers st r = Inr st1"
    and l: "rideLoop osrm drivers st1 rs = Inr st'"
    by (auto split: sum.splits)
  from Cons.prems(2) have r: "0 \<le> rideMinutes r" by auto
  from processRide_nonneg [OF srv r fuel Cons.prems(1) p]
  have s1: "cacheNonneg (resolver st1)" and le: "totalCost st \<le> totalCost st1" by auto
  from Cons.IH [OF s1 _ l] Cons.prems(2) have "totalCost st1 \<le> totalCost st'" by simp
  with le show ?case by simp
qed

lemma roundToCents_nonneg: "0 \<le> x \<Longrightarrow> 0 \<le> roundToCents x"
proof -
  assume "0 \<le> x"
  then have "0 \<le> x * 100 + 1 / 2" by simp
  then have "0 \<le> round (x * 100)" unfolding round_def by (simp add: zero_le_floor)
  then show ?thesis by (simp add: roundToCents_def)
qed

lemma run_nonneg:
  assumes "nonnegativeInput osrm res drivers rides"
      and "assignDriversToRides osrm res drivers rides = Inr out"
  shows "0 \<le> totalCostOut out"
proof -
  from run_final_state [OF assms(2)] obtain st where
    loop: "rideLoop osrm drivers (initialState res drivers) (sortRides rides) = Inr st"
    and tc: "totalCostOut out = roundToCents (totalCost st)" by blast
  from assms(1) have srv: "serviceNonneg osrm" and cn: "cacheNonneg res"
    and dr: "\<forall>d \<in> set drivers. 0 \<le> fuelCost d"
    and rd: "\<forall>r \<in> set (sortRides rides). 0 \<le> rideMinutes r"
    by (auto simp: nonnegativeInput_def sortRides_props)
  have "cacheNonneg (resolver (initialState res drivers))"
    using cn by (simp add: initialState_def)
  from rideLoop_nonneg [OF srv dr this rd loop]
  have "0 \<le> totalCost st" by (simp add: initialState_def)
  then show ?thesis by (simp add: tc roundToCents_nonneg)
qed

text \<open>Rounding to cents gives a whole number of cents, at most half a cent away.\<close>

lemma roundToCents_cents: "\<exists>n :: int. roundToCents x = real_of_int n / 100"
  by (auto simp: roundToCents_def)

lemma roundToCents_near: "\<bar>roundToCents x - x\<bar> \<le> 1 / 200"
proof -
  define e where "e = real_of_int (round (x * 100)) - x * 100"
  have b: "\<bar>e\<bar> \<le> 1 / 2" unfolding e_def by (rule of_int_round_abs_le)
  have eq: "roundToCents x - x = e / 100"
    by (simp add: roundToCents_def e_def diff_divide_distrib)
  have "\<bar>e / 100\<bar> = \<bar>e\<bar> / 100" by simp
  then have "\<bar>roundToCents x - x\<bar> = \<bar>e\<bar> / 100" by (simp only: eq)
  also have "\<dots> \<le> (1 / 2) / 100" using b by (rule divide_right_mono) simp
  finally show ?thesis by simp
qed

lemma sortRides_rideTen_rideOne: "sortRides [rideTen, rideOne] = [rideOne, rideTen]"
  by (simp add: sortRides_sort_key rideOrderKey_def rideOne_simps rideTen_simps clockAt_simps)

lemma process_rideTen_after_rideOne:
  "(case processRide roadService [driverOne] stateAfterOne rideTen of
      Inr st \<Rightarrow> assignments st =
                   [\<lparr>entryDriverId = ''driver1'', rideIds = [''ride1'', ''ride10''],
                     dailyWorkMinutes = [''2023-06-01'' \<mapsto> 150]\<rparr>] \<and>
                 totalCost st = 483 / 5
    | Inl e \<Rightarrow> False)"
  by (simp add: run_compute stateAfterOne_def rideOne_simps rideTen_simps availabilityAfter_def)

lemma roundToCents_examples:
  "roundToCents (483 / 5) = 483 / 5" "roundToCents (111 / 5) = 111 / 5"
  "roundToCents (- (228 / 5)) = - (228 / 5)" "roundToCents 0 = 0"
  by (simp_all add: roundToCents_def)

lemma run_rideTen_rideOne:
  "(case assignDriversToRides roadService coldResolver [driverOne] [rideTen, rideOne] of
      Inr out \<Rightarrow>
        assignmentsOut out = [\<lparr>outDriverId = ''driver1'', outRideIds = [''ride1'', ''ride10'']\<rparr>] \<and>
        totalCostOut out = 483 / 5 \<and> ridesAfter out = [rideOne, rideTen]
    | Inl e \<Rightarrow> False)"
proof -
  obtain st2 where p2: "processRide roadService [driverOne] stateAfterOne rideTen = Inr st2"
    and a2: "assignments st2 =
                   [\<lparr>entryDriverId = ''driver1'', rideIds = [''ride1'', ''ride10''],
                     dailyWorkMinutes = [''2023-06-01'' \<mapsto> 150]\<rparr>]"
    and c2: "totalCost st2 = 483 / 5"
    using process_rideTen_after_rideOne by (auto split: sum.splits)
  have "rideLoop roadService [driverOne] stateOne [rideOne, rideTen] = Inr st2"
    by (simp add: process_rideOne p2)
  then show ?thesis
    by (simp add: assignDriversToRides_def sortRides_rideTen_rideOne stateOne_def [symmetric]
        filteredAssignments_def a2 c2 roundToCents_examples)
qed

lemma rideLate_simps:
  "ride_id rideLate = ''ride23''" "date rideLate = ''2023-06-01''"
  "startTime rideLate = clockAt 23 30" "endTime rideLate = clockAt 24 30"
  "startPoint rideLate = ''Depot''" "startPoint_coords rideLate = depot"
  "endPoint rideLate = ''Airport''" "endPoint_coords rideLate = airport"
  "seatsRequired rideLate = 2"
  by (simp_all add: rideLate_def)

lemma noShiftDriver_simps:
  "driverId noShiftDriver = ''driver1''" "city noShiftDriver = ''Depot''"
  "city_coords noShiftDriver = depot" "numberOfSeats noShiftDriver = 4"
  "fuelCost noShiftDriver = 3 / 5" "shiftStart noShiftDriver = None"
  "shiftEnd noShiftDriver = None" "maxDailyWorkHours noShiftDriver = Some 8"
  "blockedAddresses noShiftDriver = Some [''Eilat'']"
  by (simp_all add: noShiftDriver_def driverOne_simps)

lemma rideLate_outside: "outsideEveryShift [driverOne] rideLate"
  by (simp add: outsideEveryShift_def withinShift_def driverOne_simps rideLate_simps
      timeToMinutes_def clockAt_simps)

lemma rideOne_inside: "\<not> outsideEveryShift [driverOne] rideOne"
  by (simp add: outsideEveryShift_def checks_driverOne_rideOne)

lemma covers_stateOne: "covers [driverOne] stateOne"
  unfolding stateOne_def by (rule covers_initialState)

lemma run_rideOne:
  "assignDriversToRides roadService coldResolver [driverOne] [rideOne] =
     Inr \<lparr>assignmentsOut = [\<lparr>outDriverId = ''driver1'', outRideIds = [''ride1'']\<rparr>],
          totalCostOut = 111 / 5, ridesAfter = [rideOne], driversAfter = [driverOne],
          resolverAfter = \<lparr>distanceCache = [(depot, depot) \<mapsto> Num 0, (depot, airport) \<mapsto> Num 12],
                           osrmCalls = 2\<rparr>\<rparr>"
  by (simp add: assignDriversToRides_def sortRides_sort_key stateOne_def [symmetric] process_rideOne
      stateAfterOne_def filteredAssignments_def roundToCents_examples)

lemma process_rideInverted:
  "(case processRide roadService [driverOne] stateOne rideInverted of
      Inr st \<Rightarrow> assignments st =
                   [\<lparr>entryDriverId = ''driver1'', rideIds = [''ride13''],
                     dailyWorkMinutes = [''2023-06-01'' \<mapsto> - 120]\<rparr>] \<and>
                 totalCost st = - (228 / 5)
    | Inl e \<Rightarrow> False)"
  by (simp add: run_compute stateOne_simps rideInverted_simps
      initialAvailabilityOf_driverOne freshEntry_def coldResolver_def)

lemma run_rideInverted:
  "(case assignDriversToRides roadService coldResolver [driverOne] [rideInverted] of
      Inr out \<Rightarrow> assignmentsOut out = [\<lparr>outDriverId = ''driver1'', outRideIds = [''ride13'']\<rparr>] \<and>
                  totalCostOut out = - (228 / 5)
    | Inl e \<Rightarrow> False)"
proof -
  obtain st where p: "processRide roadService [driverOne] stateOne rideInverted = Inr st"
    and a: "assignments st =
                   [\<lparr>entryDriverId = ''driver1'', rideIds = [''ride13''],
                     dailyWorkMinutes = [''2023-06-01'' \<mapsto> - 120]\<rparr>]"
    and c: "totalCost st = - (228 / 5)"
    using process_rideInverted by (auto split: sum.splits)
  have "rideLoop roadService [driverOne] stateOne [rideInverted] = Inr st"
    by (simp add: p)
  then show ?thesis
    by (simp add: assignDriversToRides_def sortRides_sort_key stateOne_def [symmetric]
        filteredAssignments_def a c roundToCents_examples)
qed

lemma process_rideLate_noShift:
  "(case processRide roadService [noShiftDriver] (initialState coldResolver [noShiftDriver]) rideLate of
      Inr st \<Rightarrow> assignments st =
                   [\<lparr>entryDriverId = ''driver1'', rideIds = [''ride23''],
                     dailyWorkMinutes = [''2023-06-01'' \<mapsto> 60]\<rparr>] \<and>
                 totalCost st = 186 / 5
    | Inl e \<Rightarrow> False)"
  by (simp add: initialState_def initialAssignments_def
      initialAvailability_def initialAvailabilityOf_def midnight_def
      engine_compute considerDriver_def costBelow_def takeCost_def processRide_def commitRide_def
      roadService_simps not_blocked_examples noShiftDriver_simps rideLate_simps
      coldResolver_def)

lemma run_rideLate_noShift:
  "(case assignDriversToRides roadService coldResolver [noShiftDriver] [rideLate] of
      Inr out \<Rightarrow> assignmentsOut out = [\<lparr>outDriverId = ''driver1'', outRideIds = [''ride23'']\<rparr>] \<and>
                  totalCostOut out = 186 / 5
    | Inl e \<Rightarrow> False)"
proof -
  obtain st where
    p: "processRide roadService [noShiftDriver] (initialState coldResolver [noShiftDriver]) rideLate = Inr st"
    and a: "assignments st =
                   [\<lparr>entryDriverId = ''driver1'', rideIds = [''ride23''],
                     dailyWorkMinutes = [''2023-06-01'' \<mapsto> 60]\<rparr>]"
    and c: "totalCost st = 186 / 5"
    using process_rideLate_noShift by (auto split: sum.splits)
  have "rideLoop roadService [noShiftDriver] (initialState coldResolver [noShiftDriver]) [rideLate] = Inr st"
    by (simp add: p)
  then show ?thesis
    by (simp add: assignDriversToRides_def sortRides_sort_key filteredAssignments_def a c
        roundToCents_def)
qed

lemma driverTwo_simps:
  "driverId driverTwo = ''driver2''" "city driverTwo = ''Depot''" "city_coords driverTwo = depot"
  "numberOfSeats driverTwo = 4" "fuelCost driverTwo = 3 / 5"
  "shiftStart driverTwo = Some (clockAt 8 0)" "shiftEnd driverTwo = Some (clockAt 20 0)"
  "maxDailyWorkHours driverTwo = Some 8" "blockedAddresses driverTwo = Some [''Eilat'']"
  by (simp_all add: driverTwo_def driverOne_simps)

lemma fleetState_simps:
  "driverAvailability fleetState =
     [''driver1'' \<mapsto> initialAvailabilityOf driverOne, ''driver2'' \<mapsto> initialAvailabilityOf driverTwo]"
  "assignments fleetState = [freshEntry ''driver1'', freshEntry ''driver2'']"
  "totalCost fleetState = 0" "resolver fleetState = coldResolver" "apiCallsSaved fleetState = 0"
  by (simp_all add: fleetState_def initialState_def initialAvailability_def initialAssignments_def
      driverOne_simps driverTwo_simps freshEntry_def)

lemma initialAvailabilityOf_driverTwo:
  "initialAvailabilityOf driverTwo =
     \<lparr>lastRideEndTime = clockAt 8 0, lastRideEndPoint = ''Depot'', lastRideEndPoint_coords = depot,
      busyUntil = clockAt 8 0, lastActiveDate = None\<rparr>"
  by (simp add: initialAvailabilityOf_def driverTwo_simps)

lemma evaluatedCosts_fleet:
  "evaluatedCosts roadService rideOne fleetState [driverOne, driverTwo]
     = [(''driver1'', Num (111 / 5)), (''driver2'', Num (111 / 5))]"
  by (simp add: engine_compute fleetState_simps driverOne_simps driverTwo_simps rideOne_simps
      roadService_simps initialAvailabilityOf_driverOne initialAvailabilityOf_driverTwo
      freshEntry_def not_blocked_examples coldResolver_def)

lemma chosen_fleet:
  "chosenDriver roadService [driverOne, driverTwo] fleetState rideOne = Some (''driver1'', 111 / 5)"
  by (simp add: chosenDriver_def run_compute driverTwo_simps fleetState_simps rideOne_simps
      initialAvailabilityOf_driverOne initialAvailabilityOf_driverTwo freshEntry_def
      coldResolver_def)

lemma process_fleet:
  "(case processRide roadService [driverOne, driverTwo] fleetState rideOne of
      Inr st \<Rightarrow> map rideIds (assignments st) = [[''ride1''], []] \<and>
                 map entryDriverId (assignments st) = [''driver1'', ''driver2''] \<and>
                 totalCost st = 111 / 5
    | Inl e \<Rightarrow> False)"
  by (simp add: run_compute driverTwo_simps fleetState_simps rideOne_simps
      initialAvailabilityOf_driverOne initialAvailabilityOf_driverTwo freshEntry_def
      coldResolver_def)

lemma nonnegativeInput_fleet:
  "nonnegativeInput roadService coldResolver [driverOne, driverTwo] [rideOne]"
  by (auto simp: nonnegativeInput_def serviceNonneg_def cacheNonneg_def
      roadService_def coldResolver_def driverOne_simps driverTwo_simps
      checks_driverOne_rideOne split: if_splits)

lemma not_isFirstMinimum_fleet:
  "\<not> isFirstMinimum [(''driver1'', Num (111 / 5)), (''driver2'', Num (111 / 5))] ''driver2'' (111 / 5)"
proof
  assume "isFirstMinimum [(''driver1'', Num (111 / 5)), (''driver2'', Num (111 / 5))] ''driver2'' (111 / 5)"
  then obtain before after where
    eq: "[(''driver1'', Num (111 / 5)), (''driver2'', Num (111 / 5))]
           = before @ (''driver2'', Num (111 / 5 :: real)) # after"
    and lt: "\<forall>e \<in> set before. \<forall>x. snd e = Num x \<longrightarrow> (111 / 5 :: real) < x"
    unfolding isFirstMinimum_def by blast
  from eq have "before = [(''driver1'', Num (111 / 5))]"
    by (cases before) (auto simp: Cons_eq_append_conv)
  then have "(''driver1'', Num (111 / 5)) \<in> set before" by simp
  with lt have "snd (''driver1'', Num (111 / 5 :: real)) = Num (111 / 5)
                  \<longrightarrow> (111 / 5 :: real) < 111 / 5" by blast
  then show False by simp
qed

lemma run_fleet:
  "(case assignDriversToRides roadService coldResolver [driverOne, driverTwo] [rideOne] of
      Inr out \<Rightarrow> assignmentsOut out = [\<lparr>outDriverId = ''driver1'', outRideIds = [''ride1'']\<rparr>] \<and>
                  totalCostOut out = 111 / 5
    | Inl e \<Rightarrow> False)"
proof -
  obtain st where p: "processRide roadService [driverOne, driverTwo] fleetState rideOne = Inr st"
    and a: "map rideIds (assignments st) = [[''ride1''], []]"
    and i: "map entryDriverId (assignments st) = [''driver1'', ''driver2'']"
    and c: "totalCost st = 111 / 5"
    using process_fleet by (auto split: sum.splits)
  from a i obtain a1 a2 where as: "assignments st = [a1, a2]" "rideIds a1 = [''ride1'']"
    "rideIds a2 = []" "entryDriverId a1 = ''driver1''"
    by (cases "assignments st") auto
  have "rideLoop roadService [driverOne, driverTwo] fleetState [rideOne] = Inr st"
    by (simp add: p)
  then show ?thesis
    by (simp add: assignDriversToRides_def sortRides_sort_key fleetState_def [symmetric]
        filteredAssignments_def as c roundToCents_examples)
qed

lemma rideTight_simps:
  "ride_id rideTight = ''ride831''" "date rideTight = ''2023-06-01''"
  "startTime rideTight = clockAt 8 31" "endTime rideTight = clockAt 9 0"
  "startPoint rideTight = ''Airport''" "startPoint_coords rideTight = airport"
  "endPoint rideTight = ''Depot''" "endPoint_coords rideTight = depot"
  "seatsRequired rideTight = 2"
  by (simp_all add: rideTight_def)

lemma detourService_simps:
  "detourService depot airport = Response (Some [RouteObject (Num 31000)])"
  by (simp add: detourService_def depot_ne_airport)

lemma emptyLeg_rideTight:
  "emptyLeg detourService stateOne (initialAvailabilityOf driverOne) rideTight = Num 31"
  by (simp add: emptyLeg_def engine_compute stateOne_simps rideTight_simps detourService_simps
      initialAvailabilityOf_driverOne coldResolver_def)

lemma checks_driverOne_rideTight:
  "seatsSuffice driverOne rideTight" "withinShift driverOne rideTight"
  "avoidsBlocked driverOne rideTight"
  "withinDailyCapClaimed driverOne (freshEntry ''driver1'') rideTight"
  "freeByStart (initialAvailabilityOf driverOne) rideTight"
  "reachesInTimeClaimed (initialAvailabilityOf driverOne) (Num 31) rideTight"
  "\<not> reachesInTime (initialAvailabilityOf driverOne) (Num 31) rideTight"
  by (simp_all add: seatsSuffice_def withinShift_def avoidsBlocked_def withinDailyCapClaimed_def
      freeByStart_def reachesInTimeClaimed_def reachesInTime_def travelMinutes_examples
      driverOne_simps rideTight_simps clockAt_simps timeToMinutes_def not_blocked_examples
      workedMinutes_def rideMinutes_def isTimeAfter_def initialAvailabilityOf_driverOne
      freshEntry_def addMinutesToTime_def jsRemainder_def Let_def)

lemma claimed_rideTight:
  "feasibleClaimed detourService stateOne (initialAvailabilityOf driverOne)
     (freshEntry ''driver1'') driverOne rideTight"
  by (simp add: feasibleClaimed_def emptyLeg_rideTight checks_driverOne_rideTight)

lemma not_evaluated_rideTight:
  "\<not> costEvaluated (evaluateDriver detourService stateOne rideTight driverOne)"
  by (simp add: costEvaluated_def engine_compute stateOne_simps driverOne_simps rideTight_simps
      detourService_simps initialAvailabilityOf_driverOne freshEntry_def not_blocked_examples
      coldResolver_def)

lemma thriftyDriver_simps:
  "driverId thriftyDriver = ''driver1''" "city thriftyDriver = ''Depot''"
  "city_coords thriftyDriver = depot" "numberOfSeats thriftyDriver = 4"
  "fuelCost thriftyDriver = 1201 / 2000" "shiftStart thriftyDriver = Some (clockAt 8 0)"
  "shiftEnd thriftyDriver = Some (clockAt 20 0)" "maxDailyWorkHours thriftyDriver = Some 8"
  "blockedAddresses thriftyDriver = Some [''Eilat'']"
  by (simp_all add: thriftyDriver_def driverOne_simps)

lemma rebateDriver_simps:
  "driverId rebateDriver = ''driver1''" "city rebateDriver = ''Depot''"
  "city_coords rebateDriver = depot" "numberOfSeats rebateDriver = 4"
  "fuelCost rebateDriver = - 3" "shiftStart rebateDriver = Some (clockAt 8 0)"
  "shiftEnd rebateDriver = Some (clockAt 20 0)" "maxDailyWorkHours rebateDriver = Some 8"
  "blockedAddresses rebateDriver = Some [''Eilat'']"
  by (simp_all add: rebateDriver_def driverOne_simps)

lemma rideBack_simps:
  "ride_id rideBack = ''ride11''" "date rideBack = ''2023-06-01''"
  "startTime rideBack = clockAt 10 0" "endTime rideBack = clockAt 10 30"
  "startPoint rideBack = ''Airport''" "startPoint_coords rideBack = airport"
  "endPoint rideBack = ''Depot''" "endPoint_coords rideBack = depot"
  "seatsRequired rideBack = 2"
  by (simp_all add: rideBack_def)

lemma backwardService_simps:
  "backwardService depot depot = Response (Some [RouteObject (Num 0)])"
  "backwardService depot airport = Response (Some [RouteObject (Num (- 100000))])"
  by (simp_all add: backwardService_def depot_ne_airport)

lemma sortRides_rideOne_rideBack: "sortRides [rideOne, rideBack] = [rideOne, rideBack]"
  by (simp add: sortRides_sort_key rideOrderKey_def rideOne_simps rideBack_simps clockAt_simps)

lemma thrifty_state:
  "initialState coldResolver [thriftyDriver] = stateOne"
  by (simp add: stateOne_def initialState_def initialAssignments_def initialAvailability_def
      initialAvailabilityOf_def thriftyDriver_simps driverOne_simps)

lemma thrifty_rideOne:
  "chosenDriver roadService [thriftyDriver] stateOne rideOne = Some (''driver1'', 11103 / 500)"
  "processRide roadService [thriftyDriver] stateOne rideOne
     = Inr (stateAfterOne\<lparr>totalCost := 11103 / 500\<rparr>)"
  by (simp_all add: chosenDriver_def engine_compute considerDriver_def costBelow_def takeCost_def
      processRide_def commitRide_def roadService_simps not_blocked_examples thriftyDriver_simps
      stateOne_simps rideOne_simps stateAfterOne_def availabilityAfter_def
      initialAvailabilityOf_driverOne freshEntry_def coldResolver_def)

lemma thrifty_rideBack:
  "chosenDriver roadService [thriftyDriver] (stateAfterOne\<lparr>totalCost := 11103 / 500\<rparr>) rideBack
     = Some (''driver1'', 11103 / 500)"
  "(case processRide roadService [thriftyDriver] (stateAfterOne\<lparr>totalCost := 11103 / 500\<rparr>)
           rideBack of
      Inr st \<Rightarrow> map rideIds (assignments st) = [[''ride1'', ''ride11'']] \<and>
                 map entryDriverId (assignments st) = [''driver1''] \<and>
                 totalCost st = 11103 / 500 + 11103 / 500
    | Inl e \<Rightarrow> False)"
  by (simp_all add: chosenDriver_def engine_compute considerDriver_def costBelow_def takeCost_def
      processRide_def commitRide_def airport_depot_near roadService_simps roadService_more
      not_blocked_examples thriftyDriver_simps rideOne_simps rideBack_simps stateAfterOne_def
      availabilityAfter_def)

lemma acceptedCosts_thrifty:
  "acceptedCosts roadService [thriftyDriver] (initialState coldResolver [thriftyDriver])
     (sortRides [rideOne, rideBack]) = [11103 / 500, 11103 / 500]"
proof -
  obtain st where
    p: "processRide roadService [thriftyDriver] (stateAfterOne\<lparr>totalCost := 11103 / 500\<rparr>)
          rideBack = Inr st"
    using thrifty_rideBack(2) by (auto split: sum.splits)
  show ?thesis
    by (simp add: thrifty_state sortRides_rideOne_rideBack thrifty_rideOne thrifty_rideBack(1) p)
qed

lemma roundToCents_thrifty:
  "roundToCents (11103 / 500) = 2221 / 100"
  "roundToCents (11103 / 250) = 4441 / 100"
  by (simp_all add: roundToCents_def round_def)

lemma run_rebate:
  "(case assignDriversToRides roadService coldResolver [rebateDriver] [rideOne] of
      Inr out \<Rightarrow> totalCostOut out = - 21
    | Inl e \<Rightarrow> False)"
proof -
  have "case processRide roadService [rebateDriver] (initialState coldResolver [rebateDriver])
               rideOne of
          Inr st \<Rightarrow> totalCost st = - 21 | Inl e \<Rightarrow> False"
    by (simp add: initialState_def initialAssignments_def initialAvailability_def
        initialAvailabilityOf_def engine_compute considerDriver_def costBelow_def takeCost_def
        processRide_def commitRide_def roadService_simps not_blocked_examples
        rebateDriver_simps rideOne_simps coldResolver_def)
  then obtain st where
    "processRide roadService [rebateDriver] (initialState coldResolver [rebateDriver]) rideOne
       = Inr st" "totalCost st = - 21"
    by (auto split: sum.splits)
  then show ?thesis
    by (simp add: assignDriversToRides_def sortRides_sort_key roundToCents_def)
qed

lemma run_backward:
  "(case assignDriversToRides backwardService coldResolver [driverOne] [rideOne] of
      Inr out \<Rightarrow> totalCostOut out = - 45
    | Inl e \<Rightarrow> False)"
proof -
  have "case processRide backwardService [driverOne] stateOne rideOne of
          Inr st \<Rightarrow> totalCost st = - 45 | Inl e \<Rightarrow> False"
    by (simp add: engine_compute considerDriver_def costBelow_def takeCost_def
        processRide_def commitRide_def backwardService_simps not_blocked_examples
        driverOne_simps stateOne_simps rideOne_simps initialAvailabilityOf_driverOne
        freshEntry_def coldResolver_def)
  then obtain st where
    "processRide backwardService [driverOne] stateOne rideOne = Inr st" "totalCost st = - 45"
    by (auto split: sum.splits)
  then show ?thesis
    by (simp add: assignDriversToRides_def sortRides_sort_key stateOne_def [symmetric]
        roundToCents_def)
qed

lemma run_stale:
  "(case assignDriversToRides roadService staleResolver [driverOne] [rideOne] of
      Inr out \<Rightarrow> totalCostOut out = - 45
    | Inl e \<Rightarrow> False)"
proof -
  have "case processRide roadService [driverOne] (initialState staleResolver [driverOne]) rideOne of
          Inr st \<Rightarrow> totalCost st = - 45 | Inl e \<Rightarrow> False"
    by (simp add: initialState_def initialAssignments_def initialAvailability_def
        initialAvailabilityOf_def engine_compute considerDriver_def costBelow_def takeCost_def
        processRide_def commitRide_def roadService_simps not_blocked_examples
        driverOne_simps rideOne_simps staleResolver_def)
  then obtain st where
    "processRide roadService [driverOne] (initialState staleResolver [driverOne]) rideOne = Inr st"
    "totalCost st = - 45"
    by (auto split: sum.splits)
  then show ?thesis
    by (simp add: assignDriversToRides_def sortRides_sort_key roundToCents_def)
qed

lemma sortRides_three:
  "sortRides [rideNextDay, rideTen, rideOne] = [rideOne, rideTen, rideNextDay]"
  by (simp add: sortRides_sort_key rideOrderKey_def rideOne_simps rideTen_simps
      rideNextDay_simps clockAt_simps)

lemma ascending_three:
  "sorted_wrt ridesAscending [rideOne, rideTen, rideNextDay]"
  "\<not> sorted_wrt ridesAscending [rideNextDay, rideTen, rideOne]"
  by (simp_all add: ridesAscending_def rideOne_simps rideTen_simps rideNextDay_simps
      clockAt_simps)

section \<open>Claims about the evaluation of a driver\<close>

text \<open>
  Claim C1, as amended. Where the driver has its entries in \<^verbatim>\<open>driverAvailability\<close> and in
  \<^verbatim>\<open>assignments\<close>, its cost for a ride is evaluated if and only if: its seats suffice;
  the start and the end of the ride lie in its shift, when it has both ends of a shift; no
  blocked address of its list is a part of the start point or of the end point, letter case
  aside; its minutes of the date plus the minutes of the ride are at most 60 times its
  daily cap, when it has a cap other than 0; its \<^verbatim>\<open>busyUntil\<close> is not after the start of
  the ride; and \<^verbatim>\<open>busyUntil\<close> plus the minutes of the empty leg is not after the start of
  the ride. The minutes of the empty leg are the ceiling of \<^verbatim>\<open>(distance / 60) * 60\<close> as
  the code computes it, quotient and product each rounded to a double, which is not always
  the ceiling of the distance: for 31 km it is 32. For a distance of at most \<open>2 ^ 40\<close> km
  they differ from the ceiling of the distance by at most one. The product of the cap and
  60 is the double that the code computes.
\<close>

theorem cost_evaluated_iff_feasible:
  assumes "driverAvailability st (driverId d) = Some av"
      and "find (\<lambda>a. entryDriverId a = driverId d) (assignments st) = Some a"
  shows "(costEvaluated (evaluateDriver osrm st r d) \<longleftrightarrow>
           seatsSuffice d r \<and> withinShift d r \<and> avoidsBlocked d r \<and> withinDailyCap d a r \<and>
           freeByStart av r \<and> reachesInTime av (emptyLeg osrm st av r) r) \<and>
         (\<forall>e. \<bar>e\<bar> \<le> 2 ^ 40 \<longrightarrow>
              \<lceil>e\<rceil> - 1 \<le> travelMinutes e \<and> travelMinutes e \<le> \<lceil>e\<rceil> + 1)"
  using evaluateDriver_feasible [OF assms, of osrm r] travelMinutes_near
  by (simp add: feasible_def)

text \<open>The scenario of the specification: every check passes, and the cost is evaluated.\<close>

theorem cost_evaluated_iff_feasible_witness:
  "driverAvailability stateOne (driverId driverOne) = Some (initialAvailabilityOf driverOne) \<and>
   find (\<lambda>a. entryDriverId a = driverId driverOne) (assignments stateOne)
     = Some (freshEntry ''driver1'') \<and>
   seatsSuffice driverOne rideOne \<and> withinShift driverOne rideOne \<and>
   avoidsBlocked driverOne rideOne \<and> withinDailyCap driverOne (freshEntry ''driver1'') rideOne \<and>
   freeByStart (initialAvailabilityOf driverOne) rideOne \<and>
   emptyLeg roadService stateOne (initialAvailabilityOf driverOne) rideOne = Num 0 \<and>
   reachesInTime (initialAvailabilityOf driverOne) (Num 0) rideOne \<and>
   costEvaluated (evaluateDriver roadService stateOne rideOne driverOne) \<and>
   \<bar>31 :: real\<bar> \<le> 2 ^ 40 \<and> \<lceil>31 :: real\<rceil> = 31 \<and> travelMinutes 31 \<le> 32"
proof -
  have e: "emptyLeg roadService stateOne (initialAvailabilityOf driverOne) rideOne = Num 0"
    by (simp add: emptyLeg_def engine_compute stateOne_simps rideOne_simps roadService_simps
        initialAvailabilityOf_driverOne coldResolver_def)
  note t = cost_evaluated_iff_feasible [OF stateOne_avail stateOne_entry, of roadService rideOne]
  from t have "\<bar>31 :: real\<bar> \<le> 2 ^ 40 \<longrightarrow> travelMinutes 31 \<le> \<lceil>31 :: real\<rceil> + 1" by blast
  then have m: "travelMinutes 31 \<le> 32" by simp
  from t have "costEvaluated (evaluateDriver roadService stateOne rideOne driverOne)"
    using checks_driverOne_rideOne reaches_zero(1) by (simp add: e)
  then show ?thesis
    using stateOne_avail stateOne_entry checks_driverOne_rideOne reaches_zero(1) m
    by (simp add: e)
qed

text \<open>Claim C1 as it is stated applies the daily cap whenever the driver has one. A driver
  with the cap 0 and no minutes worked fails that check for a ride of 30 minutes, and the
  code evaluates its cost all the same. Claim C1 as it is stated adds the ceiling of the
  empty-leg distance to \<^verbatim>\<open>busyUntil\<close>. The driver of the scenario, free at 08:00 and 31 km
  by road from a ride that starts at 08:31, passes every check of the claim; the code
  computes 31 / 60 * 60 = 31.000000000000004, adds 32 minutes and skips the driver.\<close>

theorem cap_zero_counterexample:
  "maxDailyWorkHours capZeroDriver = Some 0 \<and>
   workedMinutes (freshEntry ''driver1'') rideOne + rideMinutes rideOne = 30 \<and>
   \<not> withinDailyCapClaimed capZeroDriver (freshEntry ''driver1'') rideOne \<and>
   \<not> feasibleClaimed roadService (initialState coldResolver [capZeroDriver])
        (initialAvailabilityOf capZeroDriver) (freshEntry ''driver1'') capZeroDriver rideOne \<and>
   costEvaluated (evaluateDriver roadService (initialState coldResolver [capZeroDriver])
                    rideOne capZeroDriver) \<and>
   emptyLeg detourService stateOne (initialAvailabilityOf driverOne) rideTight = Num 31 \<and>
   \<lceil>31 :: real\<rceil> = 31 \<and> travelMinutes 31 = 32 \<and>
   busyUntil (initialAvailabilityOf driverOne) = clockAt 8 0 \<and>
   startTime rideTight = clockAt 8 31 \<and>
   feasibleClaimed detourService stateOne (initialAvailabilityOf driverOne)
     (freshEntry ''driver1'') driverOne rideTight \<and>
   \<not> costEvaluated (evaluateDriver detourService stateOne rideTight driverOne)"
proof -
  have w: "workedMinutes (freshEntry ''driver1'') rideOne + rideMinutes rideOne = 30"
    by (simp add: workedMinutes_def freshEntry_def checks_driverOne_rideOne)
  have n: "\<not> withinDailyCapClaimed capZeroDriver (freshEntry ''driver1'') rideOne"
    by (simp add: withinDailyCapClaimed_def capZeroDriver_simps w)
  have c: "costEvaluated (evaluateDriver roadService (initialState coldResolver [capZeroDriver])
                    rideOne capZeroDriver)"
    by (simp add: costEvaluated_def engine_compute initialState_def initialAvailability_def
        initialAssignments_def initialAvailabilityOf_def capZeroDriver_simps rideOne_simps
        roadService_simps not_blocked_examples coldResolver_def)
  have f: "\<not> feasibleClaimed roadService (initialState coldResolver [capZeroDriver])
        (initialAvailabilityOf capZeroDriver) (freshEntry ''driver1'') capZeroDriver rideOne"
    using n by (simp add: feasibleClaimed_def)
  show ?thesis
    using w n c f emptyLeg_rideTight claimed_rideTight not_evaluated_rideTight
    by (simp add: capZeroDriver_simps travelMinutes_examples initialAvailabilityOf_driverOne
        rideTight_simps)
qed

text \<open>
  Claim C3, as amended. Where the cost of a driver for a ride is evaluated, and the two
  resolved distances are the numbers e (empty leg) and rd (ride), the cost is
  (minutes of the ride / 60) * 30 + rd * fuelCost + e * fuelCost, the last two summands
  being the ride fuel cost and the empty-leg fuel cost; the distances are those that the
  resolver gave for the two legs. When the last position of the driver is the start point
  of the ride, the empty-leg fuel cost is 0 provided neither the cache nor the routing
  service reports a distance other than 0 from that point to itself.
\<close>

theorem assignment_cost_formula:
  assumes "evaluateDriver osrm st r d = Inr (Some ev, st')"
  shows "(\<forall>e rd. emptyRideDistance ev = Num e \<and> rideDistance ev = Num rd \<longrightarrow>
            totalAssignmentCost ev
              = Num (real_of_int (rideMinutes r) / 60 * 30 + rd * fuelCost d + e * fuelCost d) \<and>
            rideFuelCost ev = Num (rd * fuelCost d) \<and>
            emptyRideFuelCost ev = Num (e * fuelCost d)) \<and>
         (\<exists>av. driverAvailability st (driverId d) = Some av \<and>
            emptyRideDistance ev = emptyLeg osrm st av r \<and>
            rideDistance ev =
              fst (legDistance osrm
                    (snd (legDistance osrm st (lastRideEndPoint_coords av) (startPoint_coords r)))
                    (startPoint_coords r) (endPoint_coords r)) \<and>
            (lastRideEndPoint_coords av = startPoint_coords r \<and>
             resolvesToZero osrm (resolver st) (startPoint_coords r) \<longrightarrow>
               emptyRideFuelCost ev = Num 0))"
proof -
  from evaluateDriver_SomeD [OF assms] obtain av where
    av: "driverAvailability st (driverId d) = Some av"
    and e: "emptyRideDistance ev = emptyLeg osrm st av r"
    and rd: "rideDistance ev =
              fst (legDistance osrm
                    (snd (legDistance osrm st (lastRideEndPoint_coords av) (startPoint_coords r)))
                    (startPoint_coords r) (endPoint_coords r))"
    and t: "driverTimeCost ev = real_of_int (rideMinutes r) / 60 * 30"
    and rf: "rideFuelCost ev = jsTimes (rideDistance ev) (fuelCost d)"
    and ef: "emptyRideFuelCost ev = jsTimes (emptyRideDistance ev) (fuelCost d)"
    and tot: "totalAssignmentCost ev =
             jsPlus (jsPlus (Num (driverTimeCost ev)) (rideFuelCost ev)) (emptyRideFuelCost ev)"
    by blast
  have zero: "emptyRideFuelCost ev = Num 0"
    if "lastRideEndPoint_coords av = startPoint_coords r"
       "resolvesToZero osrm (resolver st) (startPoint_coords r)"
    using resolvesToZero_leg [OF that(2)] that(1) by (simp add: ef e emptyLeg_def)
  have formula: "totalAssignmentCost ev
              = Num (real_of_int (rideMinutes r) / 60 * 30 + x * fuelCost d + y * fuelCost d) \<and>
            rideFuelCost ev = Num (x * fuelCost d) \<and>
            emptyRideFuelCost ev = Num (y * fuelCost d)"
    if "emptyRideDistance ev = Num y" "rideDistance ev = Num x" for x y
    using that by (simp add: tot t rf ef)
  show ?thesis
    using av e rd zero formula by blast
qed

text \<open>The scenario of the specification: 30 minutes, 12 km of ride, no empty leg, fuel cost
  0.6: the cost is 15 + 7.2 + 0.\<close>

theorem assignment_cost_formula_witness:
  "evaluationOf (evaluateDriver roadService stateOne rideOne driverOne) =
     Some \<lparr>emptyRideDistance = Num 0, rideDistance = Num 12, driverTimeCost = 15,
           rideFuelCost = Num (36 / 5), emptyRideFuelCost = Num 0,
           totalAssignmentCost = Num (real_of_int 30 / 60 * 30 + 12 * (3 / 5) + 0 * (3 / 5))\<rparr> \<and>
   lastRideEndPoint_coords (initialAvailabilityOf driverOne) = startPoint_coords rideOne \<and>
   resolvesToZero roadService (resolver stateOne) (startPoint_coords rideOne)"
proof -
  have z: "resolvesToZero roadService (resolver stateOne) (startPoint_coords rideOne)"
    by (simp add: resolvesToZero_def stateOne_simps coldResolver_def rideOne_simps roadService_simps)
  have p: "lastRideEndPoint_coords (initialAvailabilityOf driverOne) = startPoint_coords rideOne"
    by (simp add: initialAvailabilityOf_driverOne rideOne_simps)
  from assignment_cost_formula [OF evaluate_driverOne_rideOne] stateOne_avail z p
  have "emptyRideFuelCost \<lparr>emptyRideDistance = Num 0, rideDistance = Num 12, driverTimeCost = 15,
                rideFuelCost = Num (36 / 5), emptyRideFuelCost = Num 0,
                totalAssignmentCost = Num (111 / 5)\<rparr> = Num 0"
    by auto
  then show ?thesis
    using z p by (simp add: evaluationOf_def evaluate_driverOne_rideOne)
qed

text \<open>Claim C3 as it is stated makes the empty-leg fuel cost 0 whenever the driver is at the
  start point. With a routing service that answers 12 km to every query, the driver of the
  scenario, who is at the start point of the ride, has the empty-leg fuel cost 7.2.\<close>

theorem empty_leg_counterexample:
  "lastRideEndPoint_coords (initialAvailabilityOf driverOne) = startPoint_coords rideOne \<and>
   driverAvailability stateOne (driverId driverOne) = Some (initialAvailabilityOf driverOne) \<and>
   evaluationOf (evaluateDriver flatService stateOne rideOne driverOne) =
     Some \<lparr>emptyRideDistance = Num 12, rideDistance = Num 12, driverTimeCost = 15,
           rideFuelCost = Num (36 / 5), emptyRideFuelCost = Num (36 / 5),
           totalAssignmentCost = Num (147 / 5)\<rparr>"
  by (simp add: evaluationOf_def engine_compute stateOne_simps driverOne_simps rideOne_simps
      flatService_def initialAvailabilityOf_driverOne freshEntry_def not_blocked_examples
      coldResolver_def)

section \<open>Claims about busyUntil and the caller's arrays\<close>

text \<open>
  Claim C5, as amended. Over rides whose end is not before their start, the \<^verbatim>\<open>busyUntil\<close>
  of a driver never moves earlier: processing a ride sets the \<^verbatim>\<open>busyUntil\<close> of the driver
  it commits to the end of the ride, leaves every other driver's availability as it is,
  and neither this step nor any number of later steps makes \<^verbatim>\<open>busyUntil\<close> earlier than
  it was.
\<close>

theorem busyUntil_never_earlier:
  assumes "\<forall>x \<in> set (r # rs). \<not> isTimeAfter (startTime x) (endTime x)"
      and "processRide osrm drivers st r = Inr st1"
      and "rideLoop osrm drivers st1 rs = Inr st2"
      and "driverAvailability st i = Some av"
  shows "\<exists>av1 av2. driverAvailability st1 i = Some av1 \<and> driverAvailability st2 i = Some av2 \<and>
           \<not> isTimeAfter (busyUntil av) (busyUntil av1) \<and>
           \<not> isTimeAfter (busyUntil av1) (busyUntil av2) \<and>
           (\<forall>c. chosenDriver osrm drivers st r = Some (i, c) \<longrightarrow> busyUntil av1 = endTime r) \<and>
           ((\<forall>c. chosenDriver osrm drivers st r \<noteq> Some (i, c)) \<longrightarrow> av1 = av)"
proof -
  from processRide_busyUntil [OF assms(2) _ assms(4)] assms(1)
  obtain av1 where av1: "driverAvailability st1 i = Some av1"
    "\<not> isTimeAfter (busyUntil av) (busyUntil av1)"
    "\<forall>c. chosenDriver osrm drivers st r = Some (i, c) \<longrightarrow> busyUntil av1 = endTime r"
    "(\<forall>c. chosenDriver osrm drivers st r \<noteq> Some (i, c)) \<longrightarrow> av1 = av"
    by auto
  from rideLoop_busyUntil [OF assms(3) _ av1(1)] assms(1)
  obtain av2 where "driverAvailability st2 i = Some av2"
    "\<not> isTimeAfter (busyUntil av1) (busyUntil av2)" by auto
  with av1 show ?thesis by blast
qed


text \<open>The rides from 09:00 to 09:30 and from 10:00 to 12:00, in this order, for the driver
  of the scenario: \<^verbatim>\<open>busyUntil\<close> goes from 08:00 to 09:30 to 12:00.\<close>

theorem busyUntil_never_earlier_witness:
  "\<not> isTimeAfter (startTime rideOne) (endTime rideOne) \<and>
   \<not> isTimeAfter (startTime rideTen) (endTime rideTen) \<and>
   processRide roadService [driverOne] stateOne rideOne = Inr stateAfterOne \<and>
   map_option busyUntil (driverAvailability stateOne ''driver1'') = Some (clockAt 8 0) \<and>
   map_option busyUntil (driverAvailability stateAfterOne ''driver1'') = Some (clockAt 9 30) \<and>
   (case rideLoop roadService [driverOne] stateAfterOne [rideTen] of
      Inr st \<Rightarrow> map_option busyUntil (driverAvailability st ''driver1'') = Some (clockAt 12 0)
    | Inl e \<Rightarrow> False) \<and>
   \<not> isTimeAfter (clockAt 8 0) (clockAt 9 30) \<and> \<not> isTimeAfter (clockAt 9 30) (clockAt 12 0)"
proof -
  have inv: "\<forall>x \<in> set (rideOne # [rideTen]). \<not> isTimeAfter (startTime x) (endTime x)"
    by (simp add: rideOne_simps rideTen_simps isTimeAfter_def clockAt_simps)
  obtain st2 where l: "rideLoop roadService [driverOne] stateAfterOne [rideTen] = Inr st2"
    and b2: "map_option busyUntil (driverAvailability st2 ''driver1'') = Some (clockAt 12 0)"
    using loop_rideOne_rideTen by (auto split: sum.splits)
  have av: "driverAvailability stateOne ''driver1'' = Some (initialAvailabilityOf driverOne)"
    by (simp add: stateOne_simps)
  from busyUntil_never_earlier [OF inv process_rideOne l av]
  obtain av1 av2 where
    "driverAvailability stateAfterOne ''driver1'' = Some av1"
    "driverAvailability st2 ''driver1'' = Some av2"
    "\<not> isTimeAfter (busyUntil (initialAvailabilityOf driverOne)) (busyUntil av1)"
    "\<not> isTimeAfter (busyUntil av1) (busyUntil av2)"
    by blast
  moreover have "driverAvailability stateAfterOne ''driver1'' = Some (availabilityAfter rideOne)"
    by (simp add: stateAfterOne_def)
  ultimately have "\<not> isTimeAfter (clockAt 8 0) (clockAt 9 30) \<and> \<not> isTimeAfter (clockAt 9 30) (clockAt 12 0)"
    using b2 by (auto simp: initialAvailabilityOf_driverOne availabilityAfter_def rideOne_simps)
  then show ?thesis
    using inv process_rideOne l b2
    by (simp add: stateOne_simps stateAfterOne_def initialAvailabilityOf_driverOne
        availabilityAfter_def rideOne_simps)
qed

text \<open>Claim C5 as it is stated holds of every ride. After the ride from 10:00 to 12:00 the
  driver is busy until 12:00; the ride of the same date from 13:00 to 11:00 is then
  assigned to it, and its \<^verbatim>\<open>busyUntil\<close> moves back to 11:00.\<close>

theorem busyUntil_moves_back_counterexample:
  "processRide roadService [driverOne] stateOne rideTen = Inr stateTen \<and>
   map_option busyUntil (driverAvailability stateTen ''driver1'') = Some (clockAt 12 0) \<and>
   (case processRide roadService [driverOne] stateTen rideInverted of
      Inr st \<Rightarrow> map_option busyUntil (driverAvailability st ''driver1'') = Some (clockAt 11 0)
    | Inl e \<Rightarrow> False) \<and>
   isTimeAfter (clockAt 12 0) (clockAt 11 0)"
  using busy_after_rideInverted process_rideTen
  by (auto simp: stateTen_def availabilityAfter_def rideTen_simps isTimeAfter_def clockAt_simps
      split: sum.splits)


text \<open>
  Claim C9. For a driver with an entry in \<^verbatim>\<open>driverAvailability\<close>: whatever the date of a
  ride, the cost of the driver is not evaluated when its \<^verbatim>\<open>busyUntil\<close> is after the start
  of the ride; the evaluation is the same whatever \<^verbatim>\<open>lastActiveDate\<close> holds; processing a
  ride changes \<^verbatim>\<open>driverAvailability\<close> only at the driver it commits, to the end time, the
  end point and the date of the ride; and after that commit the driver is not evaluated
  for any ride, of any date, that starts before the end of the committed ride.
\<close>

theorem busyUntil_gates_every_date:
  assumes "driverAvailability st (driverId d) = Some av"
  shows "(isTimeAfter (busyUntil av) (startTime r) \<longrightarrow>
            \<not> costEvaluated (evaluateDriver osrm st r d)) \<and>
         evaluationOf (evaluateDriver osrm
             (st\<lparr>driverAvailability :=
                   (driverAvailability st)(driverId d \<mapsto> av\<lparr>lastActiveDate := x\<rparr>)\<rparr>) r d)
           = evaluationOf (evaluateDriver osrm st r d) \<and>
         (\<forall>st1. processRide osrm drivers st r = Inr st1 \<longrightarrow>
            driverAvailability st1 =
              (case chosenDriver osrm drivers st r of
                 Some (i, c) \<Rightarrow> (driverAvailability st)(i \<mapsto>
                   \<lparr>lastRideEndTime = endTime r, lastRideEndPoint = endPoint r,
                    lastRideEndPoint_coords = endPoint_coords r, busyUntil = endTime r,
                    lastActiveDate = Some (date r)\<rparr>)
               | None \<Rightarrow> driverAvailability st) \<and>
            (\<forall>c r2. chosenDriver osrm drivers st r = Some (driverId d, c) \<and>
                     isTimeAfter (endTime r) (startTime r2) \<longrightarrow>
                     \<not> costEvaluated (evaluateDriver osrm st1 r2 d)))"
proof -
  have gate: "\<not> costEvaluated (evaluateDriver osrm' s r' d)"
    if "driverAvailability s (driverId d) = Some a" "isTimeAfter (busyUntil a) (startTime r')"
    for osrm' s r' a
    using that by (simp add: evaluateDriver_def costEvaluated_def)
  have same: "evaluationOf (evaluateDriver osrm
             (st\<lparr>driverAvailability :=
                   (driverAvailability st)(driverId d \<mapsto> av\<lparr>lastActiveDate := x\<rparr>)\<rparr>) r d)
           = evaluationOf (evaluateDriver osrm st r d)"
    unfolding evaluateDriver_lastActiveDate [OF assms]
    by (simp add: evaluationOf_def split: sum.splits prod.splits)
  have step: "driverAvailability st1 =
              (case chosenDriver osrm drivers st r of
                 Some (i, c) \<Rightarrow> (driverAvailability st)(i \<mapsto>
                   \<lparr>lastRideEndTime = endTime r, lastRideEndPoint = endPoint r,
                    lastRideEndPoint_coords = endPoint_coords r, busyUntil = endTime r,
                    lastActiveDate = Some (date r)\<rparr>)
               | None \<Rightarrow> driverAvailability st)"
    if "processRide osrm drivers st r = Inr st1" for st1
    using processRide_availability [OF that, unfolded availabilityAfter_def] by simp
  have later: "\<not> costEvaluated (evaluateDriver osrm st1 r2 d)"
    if "processRide osrm drivers st r = Inr st1"
       "chosenDriver osrm drivers st r = Some (driverId d, c)"
       "isTimeAfter (endTime r) (startTime r2)" for st1 c r2
  proof -
    have "driverAvailability st1 (driverId d) = Some (availabilityAfter r)"
      using processRide_availability [OF that(1)] that(2) by simp
    from gate [OF this] that(3) show ?thesis by (simp add: availabilityAfter_def)
  qed
  show ?thesis
    using gate [OF assms] same step later by blast
qed

text \<open>The driver of the scenario ends its ride of 2023-06-01 at 09:30. For the ride of
  2023-06-02 that starts at 09:00 its cost is not evaluated.\<close>

theorem busyUntil_gates_every_date_witness:
  "driverAvailability stateOne (driverId driverOne) = Some (initialAvailabilityOf driverOne) \<and>
   processRide roadService [driverOne] stateOne rideOne = Inr stateAfterOne \<and>
   chosenDriver roadService [driverOne] stateOne rideOne = Some (driverId driverOne, 111 / 5) \<and>
   date rideOne = ''2023-06-01'' \<and> date rideNextDay = ''2023-06-02'' \<and>
   isTimeAfter (endTime rideOne) (startTime rideNextDay) \<and>
   map_option lastActiveDate (driverAvailability stateAfterOne ''driver1'') = Some (Some ''2023-06-01'') \<and>
   \<not> costEvaluated (evaluateDriver roadService stateAfterOne rideNextDay driverOne)"
proof -
  have t: "isTimeAfter (endTime rideOne) (startTime rideNextDay)"
    by (simp add: rideOne_simps rideNextDay_simps isTimeAfter_def clockAt_simps)
  have c: "chosenDriver roadService [driverOne] stateOne rideOne = Some (driverId driverOne, 111 / 5)"
    by (simp add: chosen_rideOne driverOne_simps)
  from busyUntil_gates_every_date [OF stateOne_avail, of rideOne roadService "Some []" "[driverOne]"]
    process_rideOne c t
  have "\<not> costEvaluated (evaluateDriver roadService stateAfterOne rideNextDay driverOne)"
    by blast
  then show ?thesis
    using stateOne_avail process_rideOne c t
    by (simp add: rideOne_simps rideNextDay_simps stateAfterOne_def availabilityAfter_def)
qed

text \<open>
  Claim C10. The call never throws. It leaves the caller's array of rides in ascending
  order of date and, within a date, of start time: the array holds the same ride records
  as before, each as often as before, and the rides of one date and one start time in the
  order they had. It leaves the array of drivers as it was. (A ride record and a driver
  record are values here: the code assigns to no field of either, and neither does the
  model.)
\<close>

theorem rides_sorted_in_place:
  "\<exists>out. assignDriversToRides osrm res drivers rides = Inr out \<and>
         sorted_wrt ridesAscending (ridesAfter out) \<and>
         mset (ridesAfter out) = mset rides \<and>
         (\<forall>dt h m.
            filter (\<lambda>r. date r = dt \<and> hours (startTime r) = h \<and> mins (startTime r) = m)
              (ridesAfter out)
            = filter (\<lambda>r. date r = dt \<and> hours (startTime r) = h \<and> mins (startTime r) = m)
                rides) \<and>
         driversAfter out = drivers"
proof -
  from assignDriversToRides_total obtain out where
    out: "assignDriversToRides osrm res drivers rides = Inr out" by blast
  from run_final_state [OF out]
  have r: "ridesAfter out = sort_key rideOrderKey rides" and d: "driversAfter out = drivers"
    by (auto simp: sortRides_sort_key)
  have "sorted (map rideOrderKey (sort_key rideOrderKey rides))" by simp
  then have "sorted_wrt (\<lambda>a b. rideOrderKey a \<le> rideOrderKey b) (sort_key rideOrderKey rides)"
    by (simp add: sorted_map)
  then have s: "sorted_wrt ridesAscending (ridesAfter out)"
    by (simp add: r rideOrderKey_ascending [abs_def])
  have m: "mset (ridesAfter out) = mset rides" by (simp add: r)
  have st: "filter (\<lambda>r. date r = dt \<and> hours (startTime r) = h \<and> mins (startTime r) = m)
              (ridesAfter out)
            = filter (\<lambda>r. date r = dt \<and> hours (startTime r) = h \<and> mins (startTime r) = m)
                rides" for dt h m
  proof -
    have k: "(date x = dt \<and> hours (startTime x) = h \<and> mins (startTime x) = m)
               = (rideOrderKey x = (dt, h, m))" for x
      by (auto simp: rideOrderKey_def)
    show ?thesis
      unfolding k r by (rule sort_key_stable)
  qed
  from out s m st d show ?thesis by blast
qed

text \<open>Three rides handed over in the order next day 09:00, 10:00, 09:00: the array is
  left in the order 09:00, 10:00, next day 09:00, which is ascending, as the order handed
  over is not.\<close>

theorem rides_sorted_in_place_witness:
  "(case assignDriversToRides roadService coldResolver [driverOne]
           [rideNextDay, rideTen, rideOne] of
      Inr out \<Rightarrow> ridesAfter out = [rideOne, rideTen, rideNextDay] \<and>
                  driversAfter out = [driverOne]
    | Inl e \<Rightarrow> False) \<and>
   sorted_wrt ridesAscending [rideOne, rideTen, rideNextDay] \<and>
   \<not> sorted_wrt ridesAscending [rideNextDay, rideTen, rideOne]"
proof -
  from rides_sorted_in_place [of roadService coldResolver "[driverOne]"
      "[rideNextDay, rideTen, rideOne]"]
  obtain out where
    out: "assignDriversToRides roadService coldResolver [driverOne]
            [rideNextDay, rideTen, rideOne] = Inr out"
    and s: "sorted_wrt ridesAscending (ridesAfter out)"
    and d: "driversAfter out = [driverOne]"
    by blast
  from run_final_state [OF out]
  have "ridesAfter out = sortRides [rideNextDay, rideTen, rideOne]" by blast
  then have r: "ridesAfter out = [rideOne, rideTen, rideNextDay]"
    by (simp only: sortRides_three)
  from s have "sorted_wrt ridesAscending [rideOne, rideTen, rideNextDay]"
    by (simp only: r)
  then show ?thesis
    using out r d ascending_three(2) by simp
qed

section \<open>Claims about the assignments of the output\<close>

text \<open>
  Claim C4. For rides with distinct identities: no ride identity occurs twice in the
  \<^verbatim>\<open>rideIds\<close> lists of the output, in one list or in two; every identity of a list is
  the identity of a ride of the input; and the rides of a list, in the order of the list,
  are ordered by date and start time and do not overlap: of two rides of the same date,
  the one accepted earlier ends no later than the other starts.
\<close>

theorem assignments_disjoint_and_ordered:
  assumes "distinct (map ride_id rides)"
      and "assignDriversToRides osrm res drivers rides = Inr out"
  shows "distinct (concat (map outRideIds (assignmentsOut out))) \<and>
         (\<forall>a \<in> set (assignmentsOut out).
            set (outRideIds a) \<subseteq> ride_id ` set rides \<and>
            (\<forall>rs. map ride_id rs = outRideIds a \<and> set rs \<subseteq> set rides \<longrightarrow>
                  sorted (map rideOrderKey rs) \<and> noOverlap rs))"
proof -
  from run_final_state [OF assms(2)] obtain st where
    loop: "rideLoop osrm drivers (initialState res drivers) (sortRides rides) = Inr st"
    and out: "assignmentsOut out = filteredAssignments (assignments st)" by blast
  have "mset (assignedIds (initialState res drivers)) \<subseteq># mset (map ride_id [])"
    by (simp add: assignedIds_def initialState_def initialAssignments_def)
  from rideLoop_assignedIds [OF loop this]
  have sub: "mset (assignedIds st) \<subseteq># mset (map ride_id (sortRides rides))" by simp
  have "mset (map ride_id (sortRides rides)) = mset (map ride_id rides)"
    by (simp add: sortRides_props)
  then have "distinct (map ride_id (sortRides rides))"
    using assms(1) by (metis mset_eq_imp_distinct_iff)
  from distinct_of_submset [OF sub this]
  have d: "distinct (concat (map outRideIds (assignmentsOut out)))"
    by (simp add: out assignmentsOut_ids assignedIds_def)
  have tr: "tracked (sortRides rides) st"
    using rideLoop_tracked [OF loop tracked_initialState] by (simp add: sortRides_props)
  have inj: "inj_on ride_id (set rides)" using assms(1) by (simp add: distinct_map)
  have each: "set (outRideIds a) \<subseteq> ride_id ` set rides \<and>
            (\<forall>rs. map ride_id rs = outRideIds a \<and> set rs \<subseteq> set rides \<longrightarrow>
                  sorted (map rideOrderKey rs) \<and> noOverlap rs)"
    if "a \<in> set (assignmentsOut out)" for a
  proof -
    from assignmentsOut_member [OF that [unfolded out]] obtain k where
      k: "k < length (assignments st)" "outRideIds a = rideIds (assignments st ! k)" by blast
    with tr obtain rs0 where et: "entryTracked (sortRides rides) st k rs0"
      by (auto simp: tracked_def)
    then have m: "map ride_id rs0 = outRideIds a" and s: "subseq rs0 (sortRides rides)"
      and no: "noOverlap rs0" by (auto simp: entryTracked_def k)
    have set0: "set rs0 \<subseteq> set rides" using subseq_set [OF s] by (simp add: sortRides_props)
    have "sorted_wrt (\<lambda>a b. rideOrderKey a \<le> rideOrderKey b) (sortRides rides)"
      using sortRides_props(3) [of rides] by (simp add: sorted_map)
    then have "sorted_wrt (\<lambda>a b. rideOrderKey a \<le> rideOrderKey b) rs0"
      by (rule subseq_sorted_wrt [OF s])
    then have srt: "sorted (map rideOrderKey rs0)" by (simp add: sorted_map)
    have "set (outRideIds a) = ride_id ` set rs0" using m by (metis set_map)
    then have c1: "set (outRideIds a) \<subseteq> ride_id ` set rides" using set0 by auto
    have "rs = rs0" if "map ride_id rs = outRideIds a" "set rs \<subseteq> set rides" for rs
    proof -
      have "inj_on ride_id (set rs \<union> set rs0)"
        using inj that(2) set0 by (auto intro: inj_on_subset)
      moreover have "map ride_id rs = map ride_id rs0" using that(1) m by simp
      ultimately show ?thesis by (simp only: inj_on_map_eq_map)
    qed
    then show ?thesis using c1 srt no by auto
  qed
  show ?thesis using d each by blast
qed


text \<open>Two rides of one date, given out of order, for the driver of the scenario: both go
  to the driver, in the order of their start times.\<close>

theorem assignments_disjoint_and_ordered_witness:
  "distinct (map ride_id [rideTen, rideOne]) \<and>
   (case assignDriversToRides roadService coldResolver [driverOne] [rideTen, rideOne] of
      Inr out \<Rightarrow>
        assignmentsOut out = [\<lparr>outDriverId = ''driver1'', outRideIds = [''ride1'', ''ride10'']\<rparr>]
    | Inl e \<Rightarrow> False) \<and>
   map ride_id [rideOne, rideTen] = [''ride1'', ''ride10''] \<and>
   sorted (map rideOrderKey [rideOne, rideTen]) \<and> noOverlap [rideOne, rideTen]"
proof -
  have d: "distinct (map ride_id [rideTen, rideOne])"
    by (simp add: rideOne_simps rideTen_simps)
  obtain out where run: "assignDriversToRides roadService coldResolver [driverOne] [rideTen, rideOne] = Inr out"
    and a: "assignmentsOut out = [\<lparr>outDriverId = ''driver1'', outRideIds = [''ride1'', ''ride10'']\<rparr>]"
    using run_rideTen_rideOne by (auto split: sum.splits)
  have m: "map ride_id [rideOne, rideTen] = [''ride1'', ''ride10'']"
    by (simp add: rideOne_simps rideTen_simps)
  from assignments_disjoint_and_ordered [OF d run]
  have "\<forall>rs. map ride_id rs = [''ride1'', ''ride10''] \<and> set rs \<subseteq> set [rideTen, rideOne] \<longrightarrow>
              sorted (map rideOrderKey rs) \<and> noOverlap rs"
    by (simp add: a)
  then have "map ride_id [rideOne, rideTen] = [''ride1'', ''ride10''] \<and>
             set [rideOne, rideTen] \<subseteq> set [rideTen, rideOne] \<longrightarrow>
              sorted (map rideOrderKey [rideOne, rideTen]) \<and> noOverlap [rideOne, rideTen]"
    by (rule spec)
  with m have "sorted (map rideOrderKey [rideOne, rideTen]) \<and> noOverlap [rideOne, rideTen]"
    by auto
  then show ?thesis using d run a m by simp
qed

section \<open>Claims about dropped rides and the total cost\<close>

text \<open>
  Claim C8, as amended. A ride whose start or end lies outside the shift of every driver,
  all drivers having both ends of a shift, is dropped: processing it changes nothing, and
  the assignments, the total cost and the cache of a run are those of the run without
  such rides, so that no \<^verbatim>\<open>rideIds\<close> list holds an identity that only such rides have.
  (A ride that crosses midnight and whose end is written after 24:00 is such a ride when
  every shift ends by 24:00. A ride whose end is before its start is not dropped for that:
  a driver that passes the checks is assigned to it.)
\<close>

theorem rides_outside_every_shift_dropped:
  "(\<forall>st r. covers drivers st \<and> outsideEveryShift drivers r \<longrightarrow>
            processRide osrm drivers st r = Inr st) \<and>
   (\<exists>out out'.
      assignDriversToRides osrm res drivers rides = Inr out \<and>
      assignDriversToRides osrm res drivers
        (filter (\<lambda>r. \<not> outsideEveryShift drivers r) rides) = Inr out' \<and>
      assignmentsOut out = assignmentsOut out' \<and>
      totalCostOut out = totalCostOut out' \<and>
      resolverAfter out = resolverAfter out' \<and>
      (\<forall>a \<in> set (assignmentsOut out).
         set (outRideIds a) \<subseteq> ride_id ` {r \<in> set rides. \<not> outsideEveryShift drivers r}))"
proof -
  let ?kept = "filter (\<lambda>r. \<not> outsideEveryShift drivers r) rides"
  from assignDriversToRides_total obtain out where
    out: "assignDriversToRides osrm res drivers rides = Inr out" by blast
  from assignDriversToRides_total obtain out' where
    out': "assignDriversToRides osrm res drivers ?kept = Inr out'" by blast
  have "covers drivers (initialState res drivers)" by (rule covers_initialState)
  from rideLoop_filter [OF this, where rs = "sortRides rides" and osrm = osrm]
  have "rideLoop osrm drivers (initialState res drivers) (sortRides rides)
          = rideLoop osrm drivers (initialState res drivers) (sortRides ?kept)"
    by (simp only: sortRides_filter)
  then have same: "assignmentsOut out = assignmentsOut out' \<and>
      totalCostOut out = totalCostOut out' \<and> resolverAfter out = resolverAfter out'"
    using out out'
    by (auto simp: assignDriversToRides_def Let_def split: sum.splits)
  have ids: "set (outRideIds a) \<subseteq> ride_id ` {r \<in> set rides. \<not> outsideEveryShift drivers r}"
    if "a \<in> set (assignmentsOut out)" for a
  proof -
    from that same have "a \<in> set (assignmentsOut out')" by simp
    from run_assigned_ids [OF out' this] show ?thesis by simp
  qed
  show ?thesis
    using processRide_outside out out' same ids by blast
qed


text \<open>The driver of the scenario, whose shift ends at 20:00, and a ride from 23:30 to 24:30
  next to the ride of the scenario: the run is the run of the ride of the scenario
  alone.\<close>

theorem rides_outside_every_shift_dropped_witness:
  "covers [driverOne] stateOne \<and> outsideEveryShift [driverOne] rideLate \<and>
   processRide roadService [driverOne] stateOne rideLate = Inr stateOne \<and>
   filter (\<lambda>r. \<not> outsideEveryShift [driverOne] r) [rideLate, rideOne] = [rideOne] \<and>
   (case assignDriversToRides roadService coldResolver [driverOne] [rideLate, rideOne] of
      Inr out \<Rightarrow> assignmentsOut out = [\<lparr>outDriverId = ''driver1'', outRideIds = [''ride1'']\<rparr>] \<and>
                  totalCostOut out = 111 / 5
    | Inl e \<Rightarrow> False)"
proof -
  have f: "filter (\<lambda>r. \<not> outsideEveryShift [driverOne] r) [rideLate, rideOne] = [rideOne]"
    by (simp add: rideLate_outside rideOne_inside)
  note dropped = rides_outside_every_shift_dropped
    [of "[driverOne]" roadService coldResolver "[rideLate, rideOne]", unfolded f]
  from dropped covers_stateOne rideLate_outside
  have step: "processRide roadService [driverOne] stateOne rideLate = Inr stateOne"
    by blast
  from dropped obtain out out' where
    "assignDriversToRides roadService coldResolver [driverOne] [rideLate, rideOne] = Inr out"
    "assignDriversToRides roadService coldResolver [driverOne] [rideOne] = Inr out'"
    "assignmentsOut out = assignmentsOut out'" "totalCostOut out = totalCostOut out'"
    by blast
  then have "case assignDriversToRides roadService coldResolver [driverOne] [rideLate, rideOne] of
      Inr out \<Rightarrow> assignmentsOut out = [\<lparr>outDriverId = ''driver1'', outRideIds = [''ride1'']\<rparr>] \<and>
                  totalCostOut out = 111 / 5
    | Inl e \<Rightarrow> False"
    by (auto simp: run_rideOne)
  then show ?thesis
    using covers_stateOne rideLate_outside step f by simp
qed

text \<open>Claim C8 as it is stated drops every ride whose end is before its start and every
  ride that crosses midnight. The driver of the scenario is assigned the ride from 13:00
  to 11:00, which adds -45.6 to the total; the same driver without a shift is assigned the
  ride from 23:30 to 24:30.\<close>

theorem inverted_ride_assigned_counterexample:
  "isTimeAfter (startTime rideInverted) (endTime rideInverted) \<and>
   (case assignDriversToRides roadService coldResolver [driverOne] [rideInverted] of
      Inr out \<Rightarrow> assignmentsOut out = [\<lparr>outDriverId = ''driver1'', outRideIds = [''ride13'']\<rparr>] \<and>
                  totalCostOut out = - (228 / 5)
    | Inl e \<Rightarrow> False) \<and>
   (case assignDriversToRides roadService coldResolver [noShiftDriver] [rideLate] of
      Inr out \<Rightarrow> assignmentsOut out = [\<lparr>outDriverId = ''driver1'', outRideIds = [''ride23'']\<rparr>] \<and>
                  totalCostOut out = 186 / 5
    | Inl e \<Rightarrow> False)"
  by (simp add: run_rideInverted run_rideLate_noShift rideInverted_simps isTimeAfter_def
      clockAt_simps)

section \<open>Claims about the choice of a driver and the total cost\<close>

text \<open>
  Claim C2, as amended. The driver committed for a ride is the first minimum of the costs
  evaluated for that ride, in the order of the driver list: its cost is a number strictly
  below every number before it and at most every number after it, and it is the identity
  of a driver of the list. Processing a ride adds that cost to \<^verbatim>\<open>totalCost\<close> and the ride
  to the first entry of that identity, and changes neither when no driver is committed.
  Every run returns, and its \<^verbatim>\<open>totalCost\<close> is the sum of the costs of the successful
  assignments, rounded to cents once: a whole number of cents, at most half a cent away
  from the sum. It is at least 0 when no ride ends before it starts,
  no fuel cost is negative, and neither the routing service nor the cache reports a
  negative distance.
\<close>

theorem minimum_cost_choice_and_total:
  "(\<forall>st r i c. chosenDriver osrm drivers st r = Some (i, c) \<longrightarrow>
       isFirstMinimum (evaluatedCosts osrm r st drivers) i c \<and>
       (\<exists>d \<in> set drivers. driverId d = i)) \<and>
   (\<forall>st r st1. processRide osrm drivers st r = Inr st1 \<longrightarrow>
       (case chosenDriver osrm drivers st r of
          Some (i, c) \<Rightarrow>
            totalCost st1 = totalCost st + c \<and>
            (\<exists>k. findIndex (\<lambda>a. entryDriverId a = i) (assignments st) = Some k \<and>
                 assignments st1 = (assignments st)[k := committed (assignments st ! k) r])
        | None \<Rightarrow> totalCost st1 = totalCost st \<and> assignments st1 = assignments st)) \<and>
   (\<exists>out. assignDriversToRides osrm res drivers rides = Inr out \<and>
      totalCostOut out =
        roundToCents (sum_list (acceptedCosts osrm drivers (initialState res drivers)
                                  (sortRides rides))) \<and>
      (\<exists>n :: int. totalCostOut out = real_of_int n / 100) \<and>
      \<bar>totalCostOut out - sum_list (acceptedCosts osrm drivers (initialState res drivers)
                                    (sortRides rides))\<bar> \<le> 1 / 200 \<and>
      (nonnegativeInput osrm res drivers rides \<longrightarrow> 0 \<le> totalCostOut out))"
proof -
  have choice: "isFirstMinimum (evaluatedCosts osrm r st drivers) i c \<and>
                (\<exists>d \<in> set drivers. driverId d = i)"
    if "chosenDriver osrm drivers st r = Some (i, c)" for st r i c
    using chosenDriver_SomeD [OF that] chosenDriver_evaluated [OF that] by blast
  have step: "case chosenDriver osrm drivers st r of
          Some (i, c) \<Rightarrow>
            totalCost st1 = totalCost st + c \<and>
            (\<exists>k. findIndex (\<lambda>a. entryDriverId a = i) (assignments st) = Some k \<and>
                 assignments st1 = (assignments st)[k := committed (assignments st ! k) r])
        | None \<Rightarrow> totalCost st1 = totalCost st \<and> assignments st1 = assignments st"
    if p: "processRide osrm drivers st r = Inr st1" for st r st1
  proof (cases "chosenDriver osrm drivers st r")
    case None
    from processRide_None [OF None p] show ?thesis by (simp add: None)
  next
    case (Some ic)
    obtain i c where ic: "ic = (i, c)" by (cases ic)
    from processRide_Some [OF Some [unfolded ic] p] show ?thesis
      by (auto simp: Some ic)
  qed
  from assignDriversToRides_total obtain out where
    out: "assignDriversToRides osrm res drivers rides = Inr out" by blast
  from run_final_state [OF out] obtain st where
    loop: "rideLoop osrm drivers (initialState res drivers) (sortRides rides) = Inr st"
    and tc: "totalCostOut out = roundToCents (totalCost st)" by blast
  from rideLoop_totalCost [OF loop]
  have sum: "totalCostOut out =
        roundToCents (sum_list (acceptedCosts osrm drivers (initialState res drivers)
                                  (sortRides rides)))"
    by (simp add: tc initialState_def)
  have nn: "0 \<le> totalCostOut out" if "nonnegativeInput osrm res drivers rides"
    by (rule run_nonneg [OF that out])
  have cents: "\<exists>n :: int. totalCostOut out = real_of_int n / 100"
    unfolding sum by (rule roundToCents_cents)
  have near: "\<bar>totalCostOut out - sum_list (acceptedCosts osrm drivers (initialState res drivers)
                                    (sortRides rides))\<bar> \<le> 1 / 200"
    unfolding sum by (rule roundToCents_near)
  from choice step out sum cents near nn show ?thesis by blast
qed

text \<open>Two drivers that differ in their identity only, and the ride of the scenario: both
  cost 22.2, the first of the list is committed, and the total is 22.2. A driver with the
  fuel cost 0.6005 and two rides of 22.206 each: the total is 44.41, the sum 44.412 rounded
  once, and not 44.42, the sum of the two costs rounded each.\<close>

theorem minimum_cost_choice_and_total_witness:
  "nonnegativeInput roadService coldResolver [driverOne, driverTwo] [rideOne] \<and>
   chosenDriver roadService [driverOne, driverTwo] fleetState rideOne = Some (''driver1'', 111 / 5) \<and>
   evaluatedCosts roadService rideOne fleetState [driverOne, driverTwo]
     = [(''driver1'', Num (111 / 5)), (''driver2'', Num (111 / 5))] \<and>
   isFirstMinimum (evaluatedCosts roadService rideOne fleetState [driverOne, driverTwo])
     ''driver1'' (111 / 5) \<and>
   \<not> isFirstMinimum (evaluatedCosts roadService rideOne fleetState [driverOne, driverTwo])
     ''driver2'' (111 / 5) \<and>
   (case processRide roadService [driverOne, driverTwo] fleetState rideOne of
      Inr st \<Rightarrow> totalCost st = totalCost fleetState + 111 / 5 \<and>
                 map rideIds (assignments st) = [[''ride1''], []]
    | Inl e \<Rightarrow> False) \<and>
   (case assignDriversToRides roadService coldResolver [driverOne, driverTwo] [rideOne] of
      Inr out \<Rightarrow> assignmentsOut out = [\<lparr>outDriverId = ''driver1'', outRideIds = [''ride1'']\<rparr>] \<and>
                  totalCostOut out = 111 / 5 \<and> 0 \<le> totalCostOut out
    | Inl e \<Rightarrow> False) \<and>
   acceptedCosts roadService [thriftyDriver] (initialState coldResolver [thriftyDriver])
     (sortRides [rideOne, rideBack]) = [11103 / 500, 11103 / 500] \<and>
   (case assignDriversToRides roadService coldResolver [thriftyDriver] [rideOne, rideBack] of
      Inr out \<Rightarrow> totalCostOut out = 4441 / 100
    | Inl e \<Rightarrow> False) \<and>
   roundToCents (11103 / 500) + roundToCents (11103 / 500) = 4442 / 100"
proof -
  note t = minimum_cost_choice_and_total
    [of roadService "[driverOne, driverTwo]" coldResolver "[rideOne]"]
  note t2 = minimum_cost_choice_and_total
    [of roadService "[thriftyDriver]" coldResolver "[rideOne, rideBack]"]
  from t2 obtain out2 where
    out2: "assignDriversToRides roadService coldResolver [thriftyDriver] [rideOne, rideBack]
             = Inr out2"
    and sum2: "totalCostOut out2 =
        roundToCents (sum_list (acceptedCosts roadService [thriftyDriver]
                                  (initialState coldResolver [thriftyDriver])
                                  (sortRides [rideOne, rideBack])))"
    by blast
  from sum2 have total2: "totalCostOut out2 = 4441 / 100"
    by (simp add: acceptedCosts_thrifty roundToCents_thrifty)
  have each2: "roundToCents (11103 / 500) + roundToCents (11103 / 500) = 4442 / 100"
    by (simp add: roundToCents_thrifty)
  from t chosen_fleet
  have first: "isFirstMinimum (evaluatedCosts roadService rideOne fleetState [driverOne, driverTwo])
     ''driver1'' (111 / 5)" by blast
  have second: "\<not> isFirstMinimum (evaluatedCosts roadService rideOne fleetState [driverOne, driverTwo])
     ''driver2'' (111 / 5)"
    by (simp only: evaluatedCosts_fleet not_isFirstMinimum_fleet not_False_eq_True)
  obtain st where p: "processRide roadService [driverOne, driverTwo] fleetState rideOne = Inr st"
    and a: "map rideIds (assignments st) = [[''ride1''], []]"
    using process_fleet by (auto split: sum.splits)
  from t p have "case chosenDriver roadService [driverOne, driverTwo] fleetState rideOne of
          Some (i, c) \<Rightarrow> totalCost st = totalCost fleetState + c \<and>
            (\<exists>k. findIndex (\<lambda>a. entryDriverId a = i) (assignments fleetState) = Some k \<and>
                 assignments st = (assignments fleetState)[k := committed (assignments fleetState ! k) rideOne])
        | None \<Rightarrow> totalCost st = totalCost fleetState \<and> assignments st = assignments fleetState"
    by blast
  then have c: "totalCost st = totalCost fleetState + 111 / 5"
    by (simp add: chosen_fleet)
  from t nonnegativeInput_fleet obtain out where
    out: "assignDriversToRides roadService coldResolver [driverOne, driverTwo] [rideOne] = Inr out"
    and nn: "0 \<le> totalCostOut out" by blast
  from run_fleet out have o: "assignmentsOut out = [\<lparr>outDriverId = ''driver1'', outRideIds = [''ride1'']\<rparr>]"
    "totalCostOut out = 111 / 5" by simp_all
  show ?thesis
    using nonnegativeInput_fleet chosen_fleet evaluatedCosts_fleet first second p a c out o nn
      acceptedCosts_thrifty out2 total2 each2
    by simp
qed

text \<open>Claim C2 as it is stated has a total of at least 0 for every input. The driver of
  the scenario is assigned the ride from 13:00 to 11:00, whose cost is
  (-120 / 60) * 30 + 12 * 0.6 + 12 * 0.6 = -45.6: the total of the run is -45.6. For the
  ride of the scenario the total is 15 + 12 * -3 = -21 with a driver whose fuel cost is -3,
  and 15 + -100 * 0.6 = -45 when the routing service, or the cache, reports -100 km.\<close>

theorem negative_total_counterexample:
  "chosenDriver roadService [driverOne] stateOne rideInverted = Some (''driver1'', - (228 / 5)) \<and>
   (case assignDriversToRides roadService coldResolver [driverOne] [rideInverted] of
      Inr out \<Rightarrow> totalCostOut out = - (228 / 5) \<and> totalCostOut out < 0
    | Inl e \<Rightarrow> False) \<and>
   rideMinutes rideInverted = - 120 \<and>
   fuelCost rebateDriver = - 3 \<and>
   (case assignDriversToRides roadService coldResolver [rebateDriver] [rideOne] of
      Inr out \<Rightarrow> totalCostOut out = - 21
    | Inl e \<Rightarrow> False) \<and>
   backwardService depot airport = Response (Some [RouteObject (Num (- 100000))]) \<and>
   (case assignDriversToRides backwardService coldResolver [driverOne] [rideOne] of
      Inr out \<Rightarrow> totalCostOut out = - 45
    | Inl e \<Rightarrow> False) \<and>
   distanceCache staleResolver (depot, airport) = Some (Num (- 100)) \<and>
   (case assignDriversToRides roadService staleResolver [driverOne] [rideOne] of
      Inr out \<Rightarrow> totalCostOut out = - 45
    | Inl e \<Rightarrow> False)"
proof -
  have "chosenDriver roadService [driverOne] stateOne rideInverted = Some (''driver1'', - (228 / 5))"
    by (simp add: chosenDriver_def run_compute stateOne_simps rideInverted_simps
        initialAvailabilityOf_driverOne freshEntry_def coldResolver_def)
  moreover have "case assignDriversToRides roadService coldResolver [driverOne] [rideInverted] of
      Inr out \<Rightarrow> totalCostOut out = - (228 / 5) \<and> totalCostOut out < 0
    | Inl e \<Rightarrow> False"
    using run_rideInverted by (auto split: sum.splits)
  moreover have "rideMinutes rideInverted = - 120"
    by (simp add: rideMinutes_def timeToMinutes_def rideInverted_simps clockAt_simps)
  moreover have "distanceCache staleResolver (depot, airport) = Some (Num (- 100))"
    by (simp add: staleResolver_def)
  ultimately show ?thesis
    using run_rebate run_backward run_stale
    by (simp add: rebateDriver_simps backwardService_simps)
qed

end
